(* ===== verification/Prelude.thy ===== *)
theory Prelude
  imports Main "HOL-Library.Word" "HOL-Library.Finite_Map" "HOL-Library.Char_ord"
    "HOL-Library.List_Lexorder" "HOL-Library.Sublist"
    "HOL-Library.Code_Target_Numeral"
begin

text \<open>
  Shared vocabulary of the development: the parts of the Go language and of its standard
  library that every component uses.  A Go string is a byte sequence, so it is a
  \<^typ>\<open>string\<close> (a list of 8-bit characters).  A Go map that may be nil is an optional
  finite map: \<^term>\<open>None\<close> is the nil map, reading from it gives the zero value, and only
  a made map can be written.  The theory also has the list and string lemmas the component
  proofs share, collected in the theorem lists \<open>go_simps\<close> (unfolding of the thin Go
  helpers) and \<open>go_string\<close> (facts on strings).
\<close>

named_theorems go_simps \<open>unfolding of the thin Go helpers\<close>
named_theorems go_string \<open>facts on the Go string helpers\<close>

section \<open>Go maps from strings to strings\<close>

type_synonym gomap = "(string, string) fmap option"

text \<open>The expression \<open>m[k]\<close> in a single-value context: the zero value when the key is absent.\<close>

definition mget :: "gomap \<Rightarrow> string \<Rightarrow> string" where
  "mget m k = (case m of None \<Rightarrow> [] | Some f \<Rightarrow> (case fmlookup f k of None \<Rightarrow> [] | Some v \<Rightarrow> v))"

text \<open>The expression \<open>v, ok := m[k]\<close>.\<close>

definition mlookup :: "gomap \<Rightarrow> string \<Rightarrow> string option" where
  "mlookup m k = (case m of None \<Rightarrow> None | Some f \<Rightarrow> fmlookup f k)"

text \<open>\<open>if m == nil { m = make(map[string]string) }\<close>\<close>

definition made :: "gomap \<Rightarrow> gomap" where
  "made m = (case m of None \<Rightarrow> Some fmempty | Some f \<Rightarrow> Some f)"

text \<open>
  \<open>m[k] = v\<close>.  Go panics on a write to a nil map; the source writes only to maps it has
  made before, so the nil case (left unchanged here) does not arise (lemmas
  \<open>made_not_nil\<close> and \<open>mset_key_nil_iff\<close>).
\<close>

definition mset_key :: "string \<Rightarrow> string \<Rightarrow> gomap \<Rightarrow> gomap" where
  "mset_key k v m = map_option (fmupd k v) m"

text \<open>\<open>delete(m, k)\<close>: a no-op on a nil map.\<close>

definition mdelete :: "string \<Rightarrow> gomap \<Rightarrow> gomap" where
  "mdelete k m = map_option (fmdrop k) m"

lemma mget_mlookup: "mget m k = (case mlookup m k of None \<Rightarrow> [] | Some v \<Rightarrow> v)"
  by (simp add: mget_def mlookup_def split: option.split)

lemma mlookup_made [simp]: "mlookup (made m) k = mlookup m k"
  by (simp add: mlookup_def made_def split: option.split)

lemma made_not_nil [simp]: "made m \<noteq> None"
  by (simp add: made_def split: option.split)

lemma mset_key_nil_iff [simp]: "mset_key k v m = None \<longleftrightarrow> m = None"
  by (simp add: mset_key_def)

lemma mdelete_nil_iff [simp]: "mdelete k m = None \<longleftrightarrow> m = None"
  by (simp add: mdelete_def)

lemma made_idem [simp]: "m \<noteq> None \<Longrightarrow> made m = m"
  by (auto simp: made_def)

lemma mlookup_mset_key [simp]:
  "m \<noteq> None \<Longrightarrow> mlookup (mset_key k v m) k' = (if k = k' then Some v else mlookup m k')"
  by (auto simp: mlookup_def mset_key_def)

lemma mlookup_mdelete [simp]:
  "mlookup (mdelete k m) k' = (if k = k' then None else mlookup m k')"
  by (simp add: mlookup_def mdelete_def split: option.split)

lemma mget_mset_key [simp]:
  "m \<noteq> None \<Longrightarrow> mget (mset_key k v m) k' = (if k = k' then v else mget m k')"
  by (simp add: mget_mlookup)

lemma mget_mdelete [simp]: "mget (mdelete k m) k' = (if k = k' then [] else mget m k')"
  by (simp add: mget_mlookup)

lemma mget_made [simp]: "mget (made m) k = mget m k"
  by (simp add: mget_mlookup)

lemma mget_Some_empty [simp]: "mget (Some fmempty) k = []"
  by (simp add: mget_def)

lemma mget_nil [simp]: "mget None k = []"
  by (simp add: mget_def)

section \<open>Strings\<close>

text \<open>\<open>strings.Split(s, sep)\<close> for a one-byte separator.\<close>

fun split_byte :: "char \<Rightarrow> string \<Rightarrow> string list" where
  "split_byte c [] = [[]]"
| "split_byte c (x # xs) =
     (if x = c then [] # split_byte c xs
      else (case split_byte c xs of [] \<Rightarrow> [[x]] | p # ps \<Rightarrow> (x # p) # ps))"

text \<open>\<open>strings.SplitN(s, sep, 2)\<close> for a one-byte separator.\<close>

definition split_n2 :: "char \<Rightarrow> string \<Rightarrow> string list" where
  "split_n2 c s = (case dropWhile (\<lambda>x. x \<noteq> c) s of
      [] \<Rightarrow> [s]
    | _ # r \<Rightarrow> [takeWhile (\<lambda>x. x \<noteq> c) s, r])"

text \<open>\<open>strings.Join(parts, sep)\<close>.\<close>

fun join_with :: "string \<Rightarrow> string list \<Rightarrow> string" where
  "join_with sep [] = []"
| "join_with sep [p] = p"
| "join_with sep (p # q # ps) = p @ sep @ join_with sep (q # ps)"

text \<open>\<open>strings.Trim(s, cutset)\<close> for a cutset of single-byte characters.\<close>

definition trim_set :: "string \<Rightarrow> string \<Rightarrow> string" where
  "trim_set cs0 s =
     rev (dropWhile (\<lambda>c. c \<in> set cs0) (rev (dropWhile (\<lambda>c. c \<in> set cs0) s)))"

text \<open>
  \<open>strings.TrimSpace\<close> strips Unicode white space: the six ASCII bytes and the
  UTF-8 encodings of U+0085, U+00A0, U+1680, U+2000 to U+200A, U+2028, U+2029, U+202F,
  U+205F and U+3000.
\<close>

definition space_encodings :: "string list" where
  "space_encodings =
     [[char_of (9::nat)], [char_of (10::nat)], [char_of (11::nat)], [char_of (12::nat)],
      [char_of (13::nat)], [char_of (32::nat)],
      map char_of [0xC2::nat, 0x85], map char_of [0xC2::nat, 0xA0],
      map char_of [0xE1::nat, 0x9A, 0x80]]
     @ map (\<lambda>b. map char_of [0xE2::nat, 0x80, b]) ([0x80..<0x8B] @ [0xA8, 0xA9, 0xAF])
     @ [map char_of [0xE2::nat, 0x81, 0x9F], map char_of [0xE3::nat, 0x80, 0x80]]"

function strip_front :: "string list \<Rightarrow> string \<Rightarrow> string" where
  "strip_front encs s =
     (case find (\<lambda>e. e \<noteq> [] \<and> take (length e) s = e) encs of
        None \<Rightarrow> s
      | Some e \<Rightarrow> strip_front encs (drop (length e) s))"
  by pat_completeness auto
termination
proof (relation "measure (\<lambda>(encs, s). length s)", goal_cases)
  case 1
  then show ?case by simp
next
  case (2 encs s e)
  then have "e \<noteq> [] \<and> take (length e) s = e"
    by (auto simp: find_Some_iff)
  then show ?case by (cases s) auto
qed

declare strip_front.simps [simp del]

definition trim_space :: "string \<Rightarrow> string" where
  "trim_space s =
     rev (strip_front (map rev space_encodings) (rev (strip_front space_encodings s)))"

text \<open>\<open>strings.HasPrefix\<close> and \<open>strings.Contains\<close>.\<close>

definition has_prefix :: "string \<Rightarrow> string \<Rightarrow> bool" where
  "has_prefix s p \<longleftrightarrow> take (length p) s = p"

fun str_contains :: "string \<Rightarrow> string \<Rightarrow> bool" where
  "str_contains [] p = (p = [])"
| "str_contains (c # cs) p = (has_prefix (c # cs) p \<or> str_contains cs p)"

lemma split_byte_not_Nil [simp]: "split_byte c s \<noteq> []"
  by (induction s) (auto split: list.splits)

lemma split_byte_no_sep: "c \<notin> set s \<Longrightarrow> split_byte c s = [s]"
  by (induction s) auto

lemma split_byte_append:
  "c \<notin> set p \<Longrightarrow> split_byte c (p @ c # s) = p # split_byte c s"
  by (induction p) auto

lemma split_byte_parts_no_sep: "p \<in> set (split_byte c s) \<Longrightarrow> c \<notin> set p"
  by (induction s arbitrary: p) (auto split: list.splits if_splits)

text \<open>Splitting and joining are inverse.\<close>

lemma join_split_byte [go_string]: "join_with [c] (split_byte c s) = s"
proof (induction s)
  case (Cons x xs)
  then show ?case
    by (cases "split_byte c xs"; cases "tl (split_byte c xs)") auto
qed simp

lemma split_byte_single: "split_byte c s = [p] \<longleftrightarrow> c \<notin> set s \<and> p = s"
  by (metis join_split_byte join_with.simps(2) list.set_intros(1) split_byte_no_sep
      split_byte_parts_no_sep)

lemma split_join_byte [go_string]:
  "ps \<noteq> [] \<Longrightarrow> (\<forall>p\<in>set ps. c \<notin> set p) \<Longrightarrow> split_byte c (join_with [c] ps) = ps"
  by (induction "[c]" ps rule: join_with.induct)
    (auto simp: split_byte_no_sep split_byte_append)

lemma split_n2_no_sep: "c \<notin> set s \<Longrightarrow> split_n2 c s = [s]"
proof -
  assume "c \<notin> set s"
  then have "dropWhile (\<lambda>x. x \<noteq> c) s = []" by (induction s) auto
  then show ?thesis by (simp only: split_n2_def list.case)
qed

lemma split_n2_append: "c \<notin> set p \<Longrightarrow> split_n2 c (p @ c # s) = [p, s]"
proof -
  assume "c \<notin> set p"
  then have "dropWhile (\<lambda>x. x \<noteq> c) (p @ c # s) = c # s"
    and "takeWhile (\<lambda>x. x \<noteq> c) (p @ c # s) = p"
    by (induction p) auto
  then show ?thesis by (simp add: split_n2_def)
qed

lemma split_n2_cases:
  obtains (one) "c \<notin> set s" "split_n2 c s = [s]"
  | (two) p r where "s = p @ c # r" "c \<notin> set p" "split_n2 c s = [p, r]"
proof (cases "c \<in> set s")
  case True
  then obtain p r where "s = p @ c # r" "c \<notin> set p"
    by (meson split_list_first)
  with split_n2_append two show ?thesis by blast
next
  case False
  with split_n2_no_sep one show ?thesis by blast
qed

lemma str_contains_iff: "str_contains s p \<longleftrightarrow> (\<exists>a b. s = a @ p @ b)"
proof (induction s)
  case (Cons c cs)
  have "has_prefix (c # cs) p \<longleftrightarrow> (\<exists>b. c # cs = p @ b)"
    by (metis append_eq_conv_conj append_take_drop_id has_prefix_def)
  moreover have "(\<exists>a b. c # cs = a @ p @ b) \<longleftrightarrow>
      (\<exists>b. c # cs = p @ b) \<or> (\<exists>a b. cs = a @ p @ b)"
    by (metis append_Cons append_Nil list.inject neq_Nil_conv)
  ultimately show ?case using Cons by simp
qed simp

lemma trim_set_Nil [simp]: "trim_set cs0 [] = []"
  by (simp add: trim_set_def)

lemma hd_dropWhile_set: "dropWhile P s \<noteq> [] \<Longrightarrow> \<not> P (hd (dropWhile P s))"
  by (rule hd_dropWhile)

lemma trim_set_last: "trim_set cs0 s \<noteq> [] \<Longrightarrow> last (trim_set cs0 s) \<notin> set cs0"
  using hd_dropWhile_set [of "\<lambda>c. c \<in> set cs0"] by (auto simp: trim_set_def last_rev)

lemma dropWhile_rev_prefix: "\<exists>t. s = rev (dropWhile P (rev s)) @ t"
  by (metis rev_append rev_rev_ident takeWhile_dropWhile_id)

lemma trim_set_hd: "trim_set cs0 s \<noteq> [] \<Longrightarrow> hd (trim_set cs0 s) \<notin> set cs0"
proof -
  let ?d = "dropWhile (\<lambda>c. c \<in> set cs0) s"
  assume ne: "trim_set cs0 s \<noteq> []"
  obtain t where t: "?d = trim_set cs0 s @ t"
    using dropWhile_rev_prefix [of ?d] by (auto simp: trim_set_def)
  with ne have "?d \<noteq> []" and "hd ?d = hd (trim_set cs0 s)" by auto
  with hd_dropWhile_set [of "\<lambda>c. c \<in> set cs0" s] show ?thesis by simp
qed

lemma trim_set_infix: "\<exists>a b. s = a @ trim_set cs0 s @ b"
  by (metis dropWhile_rev_prefix takeWhile_dropWhile_id trim_set_def)

lemma dropWhile_hd_id: "xs \<noteq> [] \<Longrightarrow> \<not> P (hd xs) \<Longrightarrow> dropWhile P xs = xs"
  by (cases xs) auto

lemma trim_set_id:
  "s \<noteq> [] \<Longrightarrow> hd s \<notin> set cs0 \<Longrightarrow> last s \<notin> set cs0 \<Longrightarrow> trim_set cs0 s = s"
  by (simp add: trim_set_def dropWhile_hd_id hd_rev)

lemma trim_set_idem: "trim_set cs0 (trim_set cs0 s) = trim_set cs0 s"
  by (metis trim_set_Nil trim_set_hd trim_set_id trim_set_last)

section \<open>Lists\<close>

lemma find_Some_mem: "find P xs = Some x \<Longrightarrow> x \<in> set xs \<and> P x"
  by (auto simp: find_Some_iff)

lemma filter_take_first: "filter P xs = y # ys \<Longrightarrow> find P xs = Some y"
  by (induction xs) (auto split: if_splits)

end
