(* ===== verification/Kube.thy ===== *)
theory Kube
  imports Prelude "HOL-Library.State_Monad"
begin

text \<open>
  The world the provider talks to.  First Go errors and the predicates of
  \<open>k8s.io/apimachinery/pkg/api/errors\<close>, then the API objects with the fields the code
  reads or writes, then the effects.

  The API servers, the informer caches and the guest agent are outside the program.  They
  are a parameter of the model, an \<open>env\<close>, which answers every call; the answer may
  depend on the whole history of calls, so it covers other clients and controllers that
  change objects between two calls.  An operation of the program is a state monad action
  over the history: each call appends one event that holds the request and the answer.
  \<open>result_of m h\<close> is what the action returns when it is started after history
  \<open>h\<close>, and \<open>trace_of m h\<close> is the list of events it appends.
\<close>

section \<open>Errors\<close>

text \<open>
  Formatted errors keep the format string of the source and its arguments.  The verbs of
  the source are \<open>%s\<close> and \<open>%v\<close> on strings, \<open>%q\<close>, \<open>%d\<close> and \<open>%v\<close> on string slices;
  \<open>%w\<close> is always the last verb, its operand is the wrapped error.
\<close>

datatype fmt_arg = FStr string | FQuote string | FInt int | FList "string list"

datatype go_error =
    StatusError string nat \<comment> \<open>an \<open>APIStatus\<close> with its reason and its code\<close>
  | ErrWaitTimeout
  | OtherError string
  | Errorf string "fmt_arg list"
  | Wrapf string "fmt_arg list" go_error

definition knownReasons :: "string list" where
  "knownReasons = [''Unauthorized'', ''Forbidden'', ''NotFound'', ''AlreadyExists'', ''Conflict'',
     ''Gone'', ''Invalid'', ''ServerTimeout'', ''StorageReadError'', ''Timeout'', ''TooManyRequests'',
     ''BadRequest'', ''MethodNotAllowed'', ''NotAcceptable'', ''RequestEntityTooLarge'',
     ''UnsupportedMediaType'', ''InternalError'', ''Expired'', ''ServiceUnavailable'']"

fun reasonAndCodeForError :: "go_error \<Rightarrow> string \<times> nat" where
  "reasonAndCodeForError (StatusError r c) = (r, c)"
| "reasonAndCodeForError (Wrapf _ _ e) = reasonAndCodeForError e"
| "reasonAndCodeForError _ = ('''', 0)"

definition IsNotFound :: "go_error \<Rightarrow> bool" where
  "IsNotFound e = (case reasonAndCodeForError e of (reason, code) \<Rightarrow>
     reason = ''NotFound'' \<or> (reason \<notin> set knownReasons \<and> code = 404))"

definition IsConflict :: "go_error \<Rightarrow> bool" where
  "IsConflict e = (case reasonAndCodeForError e of (reason, code) \<Rightarrow>
     reason = ''Conflict'' \<or> (reason \<notin> set knownReasons \<and> code = 409))"

lemma IsNotFound_Wrapf [simp]: "IsNotFound (Wrapf f as e) = IsNotFound e"
  by (simp add: IsNotFound_def)

lemma IsConflict_Wrapf [simp]: "IsConflict (Wrapf f as e) = IsConflict e"
  by (simp add: IsConflict_def)

lemma IsConflict_Errorf [simp]: "\<not> IsConflict (Errorf f as)" "\<not> IsConflict ErrWaitTimeout"
  by (simp_all add: IsConflict_def)

lemma IsNotFound_not_IsConflict: "IsNotFound e \<Longrightarrow> \<not> IsConflict e"
  by (auto simp: IsNotFound_def IsConflict_def knownReasons_def split: prod.splits)

text \<open>
  The answer of a call that returns an object and an error.  With an error the client may
  still hand out a (typically empty) object: the generated clients return a new object whose
  name is empty, the caches return nil.
\<close>

datatype 'a resp = Ok 'a | Fail go_error "'a option"

section \<open>API objects\<close>

record ingress =
  ingIP :: string

datatype IntOrString = IntVal "32 word" | StrVal string

record service_port =
  spName :: string
  spProtocol :: string
  spAppProtocol :: "string option"
  spPort :: "32 word"
  spTargetPort :: IntOrString
  spNodePort :: "32 word"

text \<open>\<open>v1.Service\<close>: metadata, \<open>spec.ports\<close> and the ingress list of its status.\<close>

record service =
  svcNamespace :: string
  svcName :: string
  svcUID :: string
  svcAnnotations :: gomap
  svcLabels :: gomap
  svcServicePorts :: "service_port list"
  svcIngress :: "ingress list"

text \<open>The port numbers, \<open>spec.ports[].port\<close>.\<close>

definition svcPorts :: "service \<Rightarrow> 32 word list" where
  "svcPorts s = map spPort (svcServicePorts s)"

lemma svcPorts_simps [simp]:
  "svcPorts \<lparr>svcNamespace = ns, svcName = n, svcUID = u, svcAnnotations = a, svcLabels = l, svcServicePorts = ps, svcIngress = i\<rparr> = map spPort ps"
  "svcPorts (s\<lparr>svcNamespace := ns\<rparr>) = svcPorts s" "svcPorts (s\<lparr>svcName := n\<rparr>) = svcPorts s" "svcPorts (s\<lparr>svcUID := u\<rparr>) = svcPorts s"
  "svcPorts (s\<lparr>svcAnnotations := a\<rparr>) = svcPorts s" "svcPorts (s\<lparr>svcLabels := l\<rparr>) = svcPorts s" "svcPorts (s\<lparr>svcIngress := i\<rparr>) = svcPorts s"
  "svcPorts (s\<lparr>svcServicePorts := ps\<rparr>) = map spPort ps"
  by (simp_all add: svcPorts_def)

definition tcp_port :: "32 word \<Rightarrow> service_port" where
  "tcp_port p = \<lparr>spName = [], spProtocol = ''TCP'', spAppProtocol = None, spPort = p, spTargetPort = IntVal p, spNodePort = 0\<rparr>"

lemma spPort_tcp_port [simp]: "spPort (tcp_port p) = p"
  by (simp add: tcp_port_def)

record lb_condition =
  condType :: string
  condMessage :: string

text \<open>The \<open>LoadBalancer\<close> resource of \<open>loadbalancer.harvesterhci.io/v1beta1\<close>.\<close>

record loadbalancer =
  lbAPIVersion :: string
  lbNamespace :: string
  lbName :: string
  lbAnnotations :: gomap
  lbLabels :: gomap
  lbIPAM :: string
  lbWorkloadType :: string
  lbAddress :: string
  lbAllocatedIP :: string
  lbConditions :: "lb_condition list"

record configmap =
  cmNamespace :: string
  cmName :: string
  cmData :: gomap

record taint =
  taintKey :: string
  taintValue :: string
  taintEffect :: string
  taintTimeAdded :: "nat option"

record node =
  nodeName :: string
  nodeAnnotations :: gomap
  nodeLabels :: gomap
  nodeTaints :: "taint list"

text \<open>A network of a VMI spec: the name of the NIC, and the NAD when the network is a multus one.\<close>

record vmi_network =
  netName :: string
  netMultus :: "string option"

record vmi_interface =
  ifName :: string
  ifIP :: string
  ifIPs :: "string list"
  ifInterfaceName :: string

record vmi =
  vmiNamespace :: string
  vmiName :: string
  vmiAnnotations :: gomap
  vmiLabels :: gomap
  vmiDeleted :: bool \<comment> \<open>\<open>metadata.deletionTimestamp\<close> is set\<close>
  vmiNetworks :: "vmi_network list"
  vmiPhase :: string
  vmiInterfaces :: "vmi_interface list"
  vmiMigration :: "bool option" \<comment> \<open>\<open>status.migrationState\<close> with its \<open>completed\<close>\<close>

record vm =
  vmName :: string
  vmUID :: string
  vmReady :: bool

datatype NodeAddressType = NodeHostName | NodeInternalIP | NodeExternalIP

record node_address =
  naType :: NodeAddressType
  naAddress :: string

text \<open>
  The objects as the controllers of the framework see them: a service with its type, class, deletion
  mark, finalizers and the other fields of its specification that the service controller compares, and a node with its provider id, deletion mark, the status of its \<open>Ready\<close>
  condition, if it has one, and the addresses of its status.  Decoding an object gives an empty slice field as
  nil, so lists stand for the slices of the specification.
\<close>

record svc_spec =
  specLoadBalancerSourceRanges :: "string list"
  specSessionAffinity :: string
  specSessionAffinityTimeout :: "32 word option option" \<comment> \<open>\<open>sessionAffinityConfig.clientIP.timeoutSeconds\<close>\<close>
  specLoadBalancerIP :: string
  specExternalIPs :: "string list"
  specExternalTrafficPolicy :: string
  specHealthCheckNodePort :: "32 word"
  specIPFamilies :: "string list"

definition default_spec :: svc_spec where
  "default_spec = \<lparr>specLoadBalancerSourceRanges = [], specSessionAffinity = ''None'', specSessionAffinityTimeout = None,
     specLoadBalancerIP = [], specExternalIPs = [], specExternalTrafficPolicy = ''Cluster'', specHealthCheckNodePort = 0,
     specIPFamilies = [''IPv4'']\<rparr>"

record svc_object =
  soService :: service
  soType :: string
  soLBClass :: "string option"
  soDeleted :: bool \<comment> \<open>\<open>metadata.deletionTimestamp\<close> is set\<close>
  soFinalizers :: "string list"
  soSpec :: svc_spec

record node_object =
  noNode :: node
  noProviderID :: string
  noDeleted :: bool
  noReady :: "string option"
  noAddresses :: "node_address list"

text \<open>A selector made by \<open>labels.Set{k: v}.AsSelector()\<close>: the label is there with that value.\<close>

type_synonym selector = "string \<times> string"

definition selector_matches :: "selector \<Rightarrow> gomap \<Rightarrow> bool" where
  "selector_matches s ls \<longleftrightarrow> mlookup ls (fst s) = Some (snd s)"

section \<open>Calls, history and environment\<close>

datatype event =
    LbGet string string "loadbalancer resp"
  | LbCreate loadbalancer "loadbalancer resp"
  | LbUpdate loadbalancer "loadbalancer resp"
  | LbDelete string string "go_error option"
  | SvcCacheGet string string "service resp"
  | SvcCacheList string selector "service list resp"
  | SvcUpdate service "service resp"
  | CmCacheGet string string "configmap resp"
  | CmGet string string "configmap resp"
  | CmCreate configmap "configmap resp"
  | CmUpdate configmap "configmap resp"
  | VmGet string string "vm resp"
  | VmiGet string string "vmi resp"
  | VmiCacheList string selector "vmi list resp"
  | GuestOsInfo string string "string resp" \<comment> \<open>the reported hostname\<close>
  | NodeCacheGet string "node resp"
  | NodeGet string bool "node resp" \<comment> \<open>with resource version 0 (may be served from a cache) or not\<close>
  | NodePatchTaints string node "taint list" "go_error option"
  | FwSvcGet string string "svc_object resp" \<comment> \<open>the service lister of the framework\<close>
  | FwSvcPatch svc_object svc_object "svc_object resp" \<comment> \<open>a patch between two objects\<close>
  | FwNodeList "node_object list resp"
  | FwNodeDelete string "go_error option"
  | FwNodeGet string "node_object resp" \<comment> \<open>the node lister of the framework\<close>
  | FwNodeUpdate node_object "node_object resp"
  | FwNodePatchStatus string "node_address list" "go_error option" \<comment> \<open>the new addresses\<close>
  | FwNodePatchLabels string node gomap "go_error option" \<comment> \<open>the new labels\<close>
  | StoreVMName string string \<comment> \<open>\<open>nodeToVMName.Store\<close>\<close>
  | LogWarn "(string \<times> string) list" string \<comment> \<open>a warning with its fields\<close>
  | Sleep

type_synonym history = "event list"
type_synonym 'a io = "(history, 'a) state"

record env =
  envLbGet :: "history \<Rightarrow> string \<Rightarrow> string \<Rightarrow> loadbalancer resp"
  envLbCreate :: "history \<Rightarrow> loadbalancer \<Rightarrow> loadbalancer resp"
  envLbUpdate :: "history \<Rightarrow> loadbalancer \<Rightarrow> loadbalancer resp"
  envLbDelete :: "history \<Rightarrow> string \<Rightarrow> string \<Rightarrow> go_error option"
  envSvcCacheGet :: "history \<Rightarrow> string \<Rightarrow> string \<Rightarrow> service resp"
  envSvcCacheList :: "history \<Rightarrow> string \<Rightarrow> selector \<Rightarrow> service list resp"
  envSvcUpdate :: "history \<Rightarrow> service \<Rightarrow> service resp"
  envCmCacheGet :: "history \<Rightarrow> string \<Rightarrow> string \<Rightarrow> configmap resp"
  envCmGet :: "history \<Rightarrow> string \<Rightarrow> string \<Rightarrow> configmap resp"
  envCmCreate :: "history \<Rightarrow> configmap \<Rightarrow> configmap resp"
  envCmUpdate :: "history \<Rightarrow> configmap \<Rightarrow> configmap resp"
  envVmGet :: "history \<Rightarrow> string \<Rightarrow> string \<Rightarrow> vm resp"
  envVmiGet :: "history \<Rightarrow> string \<Rightarrow> string \<Rightarrow> vmi resp"
  envVmiCacheList :: "history \<Rightarrow> string \<Rightarrow> selector \<Rightarrow> vmi list resp"
  envGuestOsInfo :: "history \<Rightarrow> string \<Rightarrow> string \<Rightarrow> string resp"
  envNodeCacheGet :: "history \<Rightarrow> string \<Rightarrow> node resp"
  envNodeGet :: "history \<Rightarrow> string \<Rightarrow> bool \<Rightarrow> node resp"
  envNodePatchTaints :: "history \<Rightarrow> string \<Rightarrow> node \<Rightarrow> taint list \<Rightarrow> go_error option"

definition call :: "(history \<Rightarrow> 'r) \<Rightarrow> ('r \<Rightarrow> event) \<Rightarrow> 'r io" where
  "call answer ev = State (\<lambda>h. (answer h, h @ [ev (answer h)]))"

definition ret :: "'a \<Rightarrow> 'a io" where
  "ret a = State_Monad.return a"

definition lbGet :: "env \<Rightarrow> string \<Rightarrow> string \<Rightarrow> loadbalancer resp io" where
  "lbGet E ns n = call (\<lambda>h. envLbGet E h ns n) (LbGet ns n)"

definition lbCreate :: "env \<Rightarrow> loadbalancer \<Rightarrow> loadbalancer resp io" where
  "lbCreate E lb = call (\<lambda>h. envLbCreate E h lb) (LbCreate lb)"

definition lbUpdate :: "env \<Rightarrow> loadbalancer \<Rightarrow> loadbalancer resp io" where
  "lbUpdate E lb = call (\<lambda>h. envLbUpdate E h lb) (LbUpdate lb)"

definition lbDelete :: "env \<Rightarrow> string \<Rightarrow> string \<Rightarrow> go_error option io" where
  "lbDelete E ns n = call (\<lambda>h. envLbDelete E h ns n) (LbDelete ns n)"

definition svcCacheGet :: "env \<Rightarrow> string \<Rightarrow> string \<Rightarrow> service resp io" where
  "svcCacheGet E ns n = call (\<lambda>h. envSvcCacheGet E h ns n) (SvcCacheGet ns n)"

definition svcCacheList :: "env \<Rightarrow> string \<Rightarrow> selector \<Rightarrow> service list resp io" where
  "svcCacheList E ns sel = call (\<lambda>h. envSvcCacheList E h ns sel) (SvcCacheList ns sel)"

definition svcUpdate :: "env \<Rightarrow> service \<Rightarrow> service resp io" where
  "svcUpdate E s = call (\<lambda>h. envSvcUpdate E h s) (SvcUpdate s)"

definition cmCacheGet :: "env \<Rightarrow> string \<Rightarrow> string \<Rightarrow> configmap resp io" where
  "cmCacheGet E ns n = call (\<lambda>h. envCmCacheGet E h ns n) (CmCacheGet ns n)"

definition cmGet :: "env \<Rightarrow> string \<Rightarrow> string \<Rightarrow> configmap resp io" where
  "cmGet E ns n = call (\<lambda>h. envCmGet E h ns n) (CmGet ns n)"

definition cmCreate :: "env \<Rightarrow> configmap \<Rightarrow> configmap resp io" where
  "cmCreate E cm = call (\<lambda>h. envCmCreate E h cm) (CmCreate cm)"

definition cmUpdate :: "env \<Rightarrow> configmap \<Rightarrow> configmap resp io" where
  "cmUpdate E cm = call (\<lambda>h. envCmUpdate E h cm) (CmUpdate cm)"

definition vmGet :: "env \<Rightarrow> string \<Rightarrow> string \<Rightarrow> vm resp io" where
  "vmGet E ns n = call (\<lambda>h. envVmGet E h ns n) (VmGet ns n)"

definition vmiGet :: "env \<Rightarrow> string \<Rightarrow> string \<Rightarrow> vmi resp io" where
  "vmiGet E ns n = call (\<lambda>h. envVmiGet E h ns n) (VmiGet ns n)"

definition vmiCacheList :: "env \<Rightarrow> string \<Rightarrow> selector \<Rightarrow> vmi list resp io" where
  "vmiCacheList E ns sel = call (\<lambda>h. envVmiCacheList E h ns sel) (VmiCacheList ns sel)"

definition guestOsInfo :: "env \<Rightarrow> string \<Rightarrow> string \<Rightarrow> string resp io" where
  "guestOsInfo E ns n = call (\<lambda>h. envGuestOsInfo E h ns n) (GuestOsInfo ns n)"

definition nodeCacheGet :: "env \<Rightarrow> string \<Rightarrow> node resp io" where
  "nodeCacheGet E n = call (\<lambda>h. envNodeCacheGet E h n) (NodeCacheGet n)"

definition nodeGet :: "env \<Rightarrow> string \<Rightarrow> bool \<Rightarrow> node resp io" where
  "nodeGet E n rv0 = call (\<lambda>h. envNodeGet E h n rv0) (NodeGet n rv0)"

definition nodePatchTaints :: "env \<Rightarrow> string \<Rightarrow> node \<Rightarrow> taint list \<Rightarrow> go_error option io" where
  "nodePatchTaints E n old ts = call (\<lambda>h. envNodePatchTaints E h n old ts) (NodePatchTaints n old ts)"

definition sleep :: "unit io" where
  "sleep = call (\<lambda>h. ()) (\<lambda>_. Sleep)"

definition logWarn :: "(string \<times> string) list \<Rightarrow> string \<Rightarrow> unit io" where
  "logWarn kvs msg = call (\<lambda>h. ()) (\<lambda>_. LogWarn kvs msg)"

text \<open>
  \<open>nodeToVMName\<close> is a \<open>sync.Map\<close> shared by the instance manager and the VMI controller:
  linearizable, so a load sees the last store of the history.
\<close>

definition storeVMName :: "string \<Rightarrow> string \<Rightarrow> unit io" where
  "storeVMName k v = call (\<lambda>h. ()) (\<lambda>_. StoreVMName k v)"

fun vm_names :: "history \<Rightarrow> string \<Rightarrow> string option" where
  "vm_names [] k = None"
| "vm_names (e # es) k = (case vm_names es k of
     Some v \<Rightarrow> Some v
   | None \<Rightarrow> (case e of StoreVMName k' v \<Rightarrow> if k' = k then Some v else None | _ \<Rightarrow> None))"

definition loadVMName :: "string \<Rightarrow> string option io" where
  "loadVMName k = State (\<lambda>h. (vm_names h k, h))"

section \<open>Results and traces\<close>

definition result_of :: "'a io \<Rightarrow> history \<Rightarrow> 'a" where
  "result_of m h = fst (run_state m h)"

definition trace_of :: "'a io \<Rightarrow> history \<Rightarrow> history" where
  "trace_of m h = drop (length h) (snd (run_state m h))"

definition appends :: "'a io \<Rightarrow> bool" where
  "appends m \<longleftrightarrow> (\<forall>h. \<exists>t. snd (run_state m h) = h @ t)"

named_theorems io_simps \<open>results and traces of the primitive calls\<close>

lemma run_state_appends:
  "appends m \<Longrightarrow> run_state m h = (result_of m h, h @ trace_of m h)"
  by (metis append_eq_conv_conj appends_def prod.collapse result_of_def trace_of_def)

lemma appends_ret [simp]: "appends (ret a)"
  by (simp add: appends_def ret_def)

lemma result_of_ret [simp]: "result_of (ret a) h = a"
  by (simp add: result_of_def ret_def)

lemma trace_of_ret [simp]: "trace_of (ret a) h = []"
  by (simp add: trace_of_def ret_def)

lemma appends_bind [simp]:
  assumes "appends m" and "\<And>a. appends (k a)"
  shows "appends (State_Monad.bind m k)"
  unfolding appends_def
proof
  fix h
  show "\<exists>t. snd (run_state (State_Monad.bind m k) h) = h @ t"
    using assms by (simp add: run_state_appends)
qed

lemma result_of_bind [simp]:
  "appends m \<Longrightarrow> result_of (State_Monad.bind m k) h =
     result_of (k (result_of m h)) (h @ trace_of m h)"
  by (simp add: result_of_def [of "State_Monad.bind m k"] run_state_appends)
    (simp add: result_of_def)

lemma trace_of_bind [simp]:
  "appends m \<Longrightarrow> (\<And>a. appends (k a)) \<Longrightarrow> trace_of (State_Monad.bind m k) h =
     trace_of m h @ trace_of (k (result_of m h)) (h @ trace_of m h)"
  by (simp add: trace_of_def [of "State_Monad.bind m k"] run_state_appends)

lemma appends_call [simp]: "appends (call f ev)"
  by (simp add: appends_def call_def)

lemma result_of_call: "result_of (call f ev) h = f h"
  by (simp add: result_of_def call_def)

lemma trace_of_call: "trace_of (call f ev) h = [ev (f h)]"
  by (simp add: trace_of_def call_def)

lemma appends_prims [simp]:
  "appends (lbGet E ns n)" "appends (lbCreate E lb)" "appends (lbUpdate E lb)"
  "appends (lbDelete E ns n)" "appends (svcCacheGet E ns n)" "appends (svcCacheList E ns sel)"
  "appends (svcUpdate E s)" "appends (cmCacheGet E ns n)" "appends (cmGet E ns n)"
  "appends (cmCreate E cm)" "appends (cmUpdate E cm)" "appends (vmGet E ns n)"
  "appends (vmiGet E ns n)" "appends (vmiCacheList E ns sel)" "appends (guestOsInfo E ns n)"
  "appends (nodeCacheGet E n)" "appends (nodeGet E n b)" "appends (nodePatchTaints E n old ts)"
  "appends sleep" "appends (storeVMName k v)" "appends (logWarn fs msg)"
  by (simp_all add: lbGet_def lbCreate_def lbUpdate_def lbDelete_def svcCacheGet_def
      svcCacheList_def svcUpdate_def cmCacheGet_def cmGet_def cmCreate_def cmUpdate_def vmGet_def
      vmiGet_def vmiCacheList_def guestOsInfo_def nodeCacheGet_def nodeGet_def
      nodePatchTaints_def sleep_def storeVMName_def logWarn_def)

lemma result_of_prims [simp, io_simps]:
  "result_of (lbGet E ns n) h = envLbGet E h ns n"
  "result_of (lbCreate E lb) h = envLbCreate E h lb"
  "result_of (lbUpdate E lb) h = envLbUpdate E h lb"
  "result_of (lbDelete E ns n) h = envLbDelete E h ns n"
  "result_of (svcCacheGet E ns n) h = envSvcCacheGet E h ns n"
  "result_of (svcCacheList E ns sel) h = envSvcCacheList E h ns sel"
  "result_of (svcUpdate E s) h = envSvcUpdate E h s"
  "result_of (cmCacheGet E ns n) h = envCmCacheGet E h ns n"
  "result_of (cmGet E ns n) h = envCmGet E h ns n"
  "result_of (cmCreate E cm) h = envCmCreate E h cm"
  "result_of (cmUpdate E cm) h = envCmUpdate E h cm"
  "result_of (vmGet E ns n) h = envVmGet E h ns n"
  "result_of (vmiGet E ns n) h = envVmiGet E h ns n"
  "result_of (vmiCacheList E ns sel) h = envVmiCacheList E h ns sel"
  "result_of (guestOsInfo E ns n) h = envGuestOsInfo E h ns n"
  "result_of (nodeCacheGet E n) h = envNodeCacheGet E h n"
  "result_of (nodeGet E n b) h = envNodeGet E h n b"
  "result_of (nodePatchTaints E n old ts) h = envNodePatchTaints E h n old ts"
  by (simp_all add: result_of_call lbGet_def lbCreate_def lbUpdate_def lbDelete_def
      svcCacheGet_def svcCacheList_def svcUpdate_def cmCacheGet_def cmGet_def cmCreate_def
      cmUpdate_def vmGet_def vmiGet_def vmiCacheList_def guestOsInfo_def nodeCacheGet_def
      nodeGet_def nodePatchTaints_def)

lemma trace_of_prims [simp, io_simps]:
  "trace_of (lbGet E ns n) h = [LbGet ns n (envLbGet E h ns n)]"
  "trace_of (lbCreate E lb) h = [LbCreate lb (envLbCreate E h lb)]"
  "trace_of (lbUpdate E lb) h = [LbUpdate lb (envLbUpdate E h lb)]"
  "trace_of (lbDelete E ns n) h = [LbDelete ns n (envLbDelete E h ns n)]"
  "trace_of (svcCacheGet E ns n) h = [SvcCacheGet ns n (envSvcCacheGet E h ns n)]"
  "trace_of (svcCacheList E ns sel) h = [SvcCacheList ns sel (envSvcCacheList E h ns sel)]"
  "trace_of (svcUpdate E s) h = [SvcUpdate s (envSvcUpdate E h s)]"
  "trace_of (cmCacheGet E ns n) h = [CmCacheGet ns n (envCmCacheGet E h ns n)]"
  "trace_of (cmGet E ns n) h = [CmGet ns n (envCmGet E h ns n)]"
  "trace_of (cmCreate E cm) h = [CmCreate cm (envCmCreate E h cm)]"
  "trace_of (cmUpdate E cm) h = [CmUpdate cm (envCmUpdate E h cm)]"
  "trace_of (vmGet E ns n) h = [VmGet ns n (envVmGet E h ns n)]"
  "trace_of (vmiGet E ns n) h = [VmiGet ns n (envVmiGet E h ns n)]"
  "trace_of (vmiCacheList E ns sel) h = [VmiCacheList ns sel (envVmiCacheList E h ns sel)]"
  "trace_of (guestOsInfo E ns n) h = [GuestOsInfo ns n (envGuestOsInfo E h ns n)]"
  "trace_of (nodeCacheGet E n) h = [NodeCacheGet n (envNodeCacheGet E h n)]"
  "trace_of (nodeGet E n b) h = [NodeGet n b (envNodeGet E h n b)]"
  "trace_of (nodePatchTaints E n old ts) h = [NodePatchTaints n old ts (envNodePatchTaints E h n old ts)]"
  "trace_of sleep h = [Sleep]"
  "trace_of (storeVMName k v) h = [StoreVMName k v]"
  "trace_of (logWarn fs msg) h = [LogWarn fs msg]"
  by (simp_all add: trace_of_call lbGet_def lbCreate_def lbUpdate_def lbDelete_def
      svcCacheGet_def svcCacheList_def svcUpdate_def cmCacheGet_def cmGet_def cmCreate_def
      cmUpdate_def vmGet_def vmiGet_def vmiCacheList_def guestOsInfo_def nodeCacheGet_def
      nodeGet_def nodePatchTaints_def sleep_def storeVMName_def logWarn_def)

lemma loadVMName_simps [simp]:
  "appends (loadVMName k)" "result_of (loadVMName k) h = vm_names h k" "trace_of (loadVMName k) h = []"
  by (simp_all add: appends_def result_of_def trace_of_def loadVMName_def)

lemma vm_names_snoc_store [simp]:
  "vm_names (h @ [StoreVMName k v]) k' = (if k = k' then Some v else vm_names h k')"
  by (induction h) (auto split: event.splits option.splits)

lemma vm_names_append:
  "vm_names (h @ t) k = (case vm_names t k of Some v \<Rightarrow> Some v | None \<Rightarrow> vm_names h k)"
  by (induction h) (auto split: event.splits option.splits)

text \<open>The events that write: to an API server, or to the shared map.\<close>

fun is_write :: "event \<Rightarrow> bool" where
  "is_write (LbCreate _ _) = True"
| "is_write (LbUpdate _ _) = True"
| "is_write (LbDelete _ _ _) = True"
| "is_write (SvcUpdate _ _) = True"
| "is_write (CmCreate _ _) = True"
| "is_write (CmUpdate _ _) = True"
| "is_write (NodePatchTaints _ _ _ _) = True"
| "is_write (FwSvcPatch _ _ _) = True"
| "is_write (FwNodeDelete _ _) = True"
| "is_write (FwNodeUpdate _ _) = True"
| "is_write (FwNodePatchStatus _ _ _) = True"
| "is_write (FwNodePatchLabels _ _ _ _) = True"
| "is_write (StoreVMName _ _) = True"
| "is_write _ = False"

definition read_only :: "history \<Rightarrow> bool" where
  "read_only t \<longleftrightarrow> (\<forall>e\<in>set t. \<not> is_write e)"

lemma read_only_simps [simp]:
  "read_only []" "read_only (e # t) \<longleftrightarrow> \<not> is_write e \<and> read_only t"
  "read_only (t @ u) \<longleftrightarrow> read_only t \<and> read_only u"
  by (auto simp: read_only_def)

section \<open>Retrying\<close>

text \<open>
  \<open>wait.ExponentialBackoff\<close>: the condition is run at most \<open>Steps\<close> times, with a sleep
  between two runs.  The variables the closure captures and writes are the state \<open>s\<close>.
\<close>

fun ExponentialBackoff ::
  "nat \<Rightarrow> ('s \<Rightarrow> ((go_error + bool) \<times> 's) io) \<Rightarrow> 's \<Rightarrow> (go_error option \<times> 's) io" where
  "ExponentialBackoff 0 cond s = ret (Some ErrWaitTimeout, s)"
| "ExponentialBackoff (Suc n) cond s = do {
     r \<leftarrow> cond s;
     (case r of
        (Inl e, s') \<Rightarrow> ret (Some e, s')
      | (Inr True, s') \<Rightarrow> ret (None, s')
      | (Inr False, s') \<Rightarrow>
          if n = 0 then ret (Some ErrWaitTimeout, s')
          else do { _ \<leftarrow> sleep; ExponentialBackoff n cond s' })
   }"

text \<open>\<open>retry.OnError\<close>; \<open>lastErr\<close> is the first component of the closure state.\<close>

definition OnError ::
  "nat \<Rightarrow> (go_error \<Rightarrow> bool) \<Rightarrow> ('s \<Rightarrow> (go_error option \<times> 's) io) \<Rightarrow> 's \<Rightarrow> go_error option io" where
  "OnError steps retriable fn s0 = do {
     r \<leftarrow> ExponentialBackoff steps
       (\<lambda>(lastErr, s). do {
          x \<leftarrow> fn s;
          (case x of
             (None, s') \<Rightarrow> ret (Inr True, (lastErr, s'))
           | (Some e, s') \<Rightarrow>
               if retriable e then ret (Inr False, (Some e, s'))
               else ret (Inl e, (lastErr, s')))
        })
       (None, s0);
     (case r of (err, (lastErr, _)) \<Rightarrow>
        if err = Some ErrWaitTimeout then ret lastErr else ret err)
   }"

definition RetryOnConflict ::
  "nat \<Rightarrow> ('s \<Rightarrow> (go_error option \<times> 's) io) \<Rightarrow> 's \<Rightarrow> go_error option io" where
  "RetryOnConflict steps fn s0 = OnError steps IsConflict fn s0"

definition DefaultBackoffSteps :: nat where
  "DefaultBackoffSteps = 4"

section \<open>An environment without objects\<close>

text \<open>Every lookup fails with "not found", every list is empty and every write is acknowledged; a
  starting point for concrete environments.\<close>

definition not_found :: go_error where
  "not_found = StatusError ''NotFound'' 404"

definition empty_env :: env where
  "empty_env = \<lparr>
     envLbGet = (\<lambda>h ns n. Fail not_found None),
     envLbCreate = (\<lambda>h lb. Ok lb), envLbUpdate = (\<lambda>h lb. Ok lb), envLbDelete = (\<lambda>h ns n. None),
     envSvcCacheGet = (\<lambda>h ns n. Fail not_found None), envSvcCacheList = (\<lambda>h ns s. Ok []),
     envSvcUpdate = (\<lambda>h s. Ok s),
     envCmCacheGet = (\<lambda>h ns n. Fail not_found None), envCmGet = (\<lambda>h ns n. Fail not_found None),
     envCmCreate = (\<lambda>h c. Ok c), envCmUpdate = (\<lambda>h c. Ok c),
     envVmGet = (\<lambda>h ns n. Fail not_found None), envVmiGet = (\<lambda>h ns n. Fail not_found None),
     envVmiCacheList = (\<lambda>h ns s. Ok []), envGuestOsInfo = (\<lambda>h ns n. Fail not_found None),
     envNodeCacheGet = (\<lambda>h n. Fail not_found None), envNodeGet = (\<lambda>h n b. Fail not_found None),
     envNodePatchTaints = (\<lambda>h n nd ts. None)\<rparr>"

lemma IsNotFound_not_found [simp]: "IsNotFound not_found"
  by (simp add: not_found_def IsNotFound_def)

end
