(* ===== verification/Netip.thy ===== *)
theory Netip
  imports Prelude
begin

unbundle bit_operations_syntax

text \<open>
  The part of Go's package \<open>net/netip\<close> that the provider uses: addresses and prefixes,
  their parsers and printers, and the classification predicates.  The parsers are
  translated loop by loop (octets and hexadecimal groups are accumulated the way the
  library does it), so that the strings they refuse are the strings the library refuses.
  The main facts are that printing followed by parsing is the identity on every valid
  address (\<open>ParseAddr_String\<close>) and that \<open>Prefix.Contains\<close> compares the leading
  bits of the two addresses.
\<close>

section \<open>Addresses\<close>

text \<open>The zero \<open>Addr\<close>, an IPv4 address, an IPv6 address with its zone (empty: none).\<close>

datatype addr = AddrZero | Addr4 "32 word" | Addr6 "128 word" string

fun Is4 :: "addr \<Rightarrow> bool" where
  "Is4 (Addr4 _) = True"
| "Is4 _ = False"

fun Is6 :: "addr \<Rightarrow> bool" where
  "Is6 (Addr6 _ _) = True"
| "Is6 _ = False"

fun Is4In6 :: "addr \<Rightarrow> bool" where
  "Is4In6 (Addr6 w _) = (drop_bit 32 w = 0xFFFF)"
| "Is4In6 _ = False"

fun Unmap :: "addr \<Rightarrow> addr" where
  "Unmap (Addr6 w z) = (if Is4In6 (Addr6 w z) then Addr4 (ucast w) else Addr6 w z)"
| "Unmap a = a"

definition IsValid :: "addr \<Rightarrow> bool" where
  "IsValid a \<longleftrightarrow> a \<noteq> AddrZero"

fun BitLen :: "addr \<Rightarrow> nat" where
  "BitLen AddrZero = 0"
| "BitLen (Addr4 _) = 32"
| "BitLen (Addr6 _ _) = 128"

fun hasZone :: "addr \<Rightarrow> bool" where
  "hasZone (Addr6 _ z) = (z \<noteq> [])"
| "hasZone _ = False"

fun withoutZone :: "addr \<Rightarrow> addr" where
  "withoutZone (Addr6 w _) = Addr6 w []"
| "withoutZone a = a"

text \<open>The octet \<open>i\<close> of an IPv4 address and the 16-bit group \<open>i\<close> of an IPv6 address, as numbers.\<close>

definition v4 :: "32 word \<Rightarrow> nat \<Rightarrow> nat" where
  "v4 w i = unat w div 256 ^ (3 - i) mod 256"

definition v6u16 :: "128 word \<Rightarrow> nat \<Rightarrow> nat" where
  "v6u16 w i = unat w div 65536 ^ (7 - i) mod 65536"

definition IsLoopback :: "addr \<Rightarrow> bool" where
  "IsLoopback a = (case Unmap a of
      Addr4 w \<Rightarrow> v4 w 0 = 127
    | Addr6 w z \<Rightarrow> w = 1
    | AddrZero \<Rightarrow> False)"

definition IsMulticast :: "addr \<Rightarrow> bool" where
  "IsMulticast a = (case Unmap a of
      Addr4 w \<Rightarrow> v4 w 0 AND 0xF0 = 0xE0
    | Addr6 w z \<Rightarrow> v6u16 w 0 div 256 = 0xFF
    | AddrZero \<Rightarrow> False)"

definition IsLinkLocalUnicast :: "addr \<Rightarrow> bool" where
  "IsLinkLocalUnicast a = (case Unmap a of
      Addr4 w \<Rightarrow> v4 w 0 = 169 \<and> v4 w 1 = 254
    | Addr6 w z \<Rightarrow> v6u16 w 0 AND 0xFFC0 = 0xFE80
    | AddrZero \<Rightarrow> False)"

definition IsLinkLocalMulticast :: "addr \<Rightarrow> bool" where
  "IsLinkLocalMulticast a = (case Unmap a of
      Addr4 w \<Rightarrow> v4 w 0 = 224 \<and> v4 w 1 = 0 \<and> v4 w 2 = 0
    | Addr6 w z \<Rightarrow> v6u16 w 0 AND 0xFF0F = 0xFF02
    | AddrZero \<Rightarrow> False)"

definition IsUnspecified :: "addr \<Rightarrow> bool" where
  "IsUnspecified a \<longleftrightarrow> a = Addr4 0 \<or> a = Addr6 0 []"

section \<open>Digits\<close>

definition is_dec :: "char \<Rightarrow> bool" where
  "is_dec c \<longleftrightarrow> 48 \<le> (of_char c :: nat) \<and> (of_char c :: nat) \<le> 57"

definition dec_val :: "char \<Rightarrow> nat" where
  "dec_val c = of_char c - 48"

definition hex_val :: "char \<Rightarrow> nat option" where
  "hex_val c = (let n = (of_char c :: nat) in
     if 48 \<le> n \<and> n \<le> 57 then Some (n - 48)
     else if 97 \<le> n \<and> n \<le> 102 then Some (n - 87)
     else if 65 \<le> n \<and> n \<le> 70 then Some (n - 55)
     else None)"

definition digit_char :: "nat \<Rightarrow> char" where
  "digit_char d = char_of (if d < 10 then 48 + d else 87 + d)"

fun dec :: "nat \<Rightarrow> string" where
  "dec n = (if n < 10 then [digit_char n] else dec (n div 10) @ [digit_char (n mod 10)])"

fun hex :: "nat \<Rightarrow> string" where
  "hex n = (if n < 16 then [digit_char n] else hex (n div 16) @ [digit_char (n mod 16)])"

declare dec.simps [simp del] hex.simps [simp del]

section \<open>Parsing addresses\<close>

text \<open>
  The loop of \<open>parseIPv4Fields\<close>: previous byte, value and number of digits of the
  current octet, finished octets, rest of the input.
\<close>

fun parseIPv4Loop :: "char option \<Rightarrow> nat \<Rightarrow> nat \<Rightarrow> nat list \<Rightarrow> string \<Rightarrow> nat list option" where
  "parseIPv4Loop prev val digLen fs [] = (if length fs < 3 then None else Some (fs @ [val]))"
| "parseIPv4Loop prev val digLen fs (c # cs) =
     (if is_dec c then
        (if digLen = 1 \<and> val = 0 then None
         else if val * 10 + dec_val c > 255 then None
         else parseIPv4Loop (Some c) (val * 10 + dec_val c) (Suc digLen) fs cs)
      else if c = CHR ''.'' then
        (if prev = None \<or> cs = [] \<or> prev = Some (CHR ''.'') then None
         else if length fs = 3 then None
         else parseIPv4Loop (Some c) 0 0 (fs @ [val]) cs)
      else None)"

definition parseIPv4Fields :: "string \<Rightarrow> nat list option" where
  "parseIPv4Fields s = parseIPv4Loop None 0 0 [] s"

definition be_nat :: "nat list \<Rightarrow> nat" where
  "be_nat bs = foldl (\<lambda>a b. a * 256 + b) 0 bs"

definition parseIPv4 :: "string \<Rightarrow> addr option" where
  "parseIPv4 s = map_option (\<lambda>fs. Addr4 (of_nat (be_nat fs))) (parseIPv4Fields s)"

text \<open>The inner loop over the hexadecimal digits of a group: value, number of digits, rest.\<close>

fun scanHex :: "nat \<Rightarrow> nat \<Rightarrow> string \<Rightarrow> (nat \<times> nat \<times> string) option" where
  "scanHex acc off [] = Some (acc, off, [])"
| "scanHex acc off (c # cs) = (case hex_val c of
       None \<Rightarrow> Some (acc, off, c # cs)
     | Some d \<Rightarrow>
         if off > 3 then None
         else if acc * 16 + d > 65535 then None
         else scanHex (acc * 16 + d) (Suc off) cs)"

text \<open>
  The outer loop of \<open>parseIPv6\<close>: rest of the input, the bytes written so far (their
  number is the loop variable \<open>i\<close>) and the position of the ellipsis.
\<close>

function parseIPv6Loop :: "string \<Rightarrow> nat list \<Rightarrow> nat option \<Rightarrow> (nat list \<times> nat option) option" where
  "parseIPv6Loop s bs ell =
     (if length bs < 16 then
        (case scanHex 0 0 s of
           None \<Rightarrow> None
         | Some (acc, off, rest) \<Rightarrow>
             if off = 0 then None
             else if rest \<noteq> [] \<and> hd rest = CHR ''.'' then
               (if ell = None \<and> length bs \<noteq> 12 then None
                else if length bs + 4 > 16 then None
                else map_option (\<lambda>f. (bs @ f, ell)) (parseIPv4Fields s))
             else if rest = [] then Some (bs @ [acc div 256, acc mod 256], ell)
             else if hd rest \<noteq> CHR '':'' then None
             else if tl rest = [] then None
             else if hd (tl rest) = CHR '':'' then
               (if ell \<noteq> None then None
                else if tl (tl rest) = [] then
                  Some (bs @ [acc div 256, acc mod 256], Some (length bs + 2))
                else parseIPv6Loop (tl (tl rest)) (bs @ [acc div 256, acc mod 256])
                       (Some (length bs + 2)))
             else parseIPv6Loop (tl rest) (bs @ [acc div 256, acc mod 256]) ell)
      else if s \<noteq> [] then None else Some (bs, ell))"
  by pat_completeness auto
termination
  by (relation "measure (\<lambda>(s, bs, ell). 16 - length bs)") auto

declare parseIPv6Loop.simps [simp del]

text \<open>After the loop: expand the ellipsis, which must stand for at least one zero group.\<close>

definition expandEllipsis :: "nat list \<times> nat option \<Rightarrow> nat list option" where
  "expandEllipsis r = (case r of (bs, ell) \<Rightarrow>
     if length bs < 16 then
       (case ell of
          None \<Rightarrow> None
        | Some e \<Rightarrow> Some (take e bs @ replicate (16 - length bs) 0 @ drop e bs))
     else if ell \<noteq> None then None else Some bs)"

definition parseIPv6NoZone :: "string \<Rightarrow> nat list option" where
  "parseIPv6NoZone s =
     (if take 2 s = ''::'' then
        (if drop 2 s = [] then Some (replicate 16 0)
         else Option.bind (parseIPv6Loop (drop 2 s) [] (Some 0)) expandEllipsis)
      else Option.bind (parseIPv6Loop s [] None) expandEllipsis)"

definition parseIPv6 :: "string \<Rightarrow> addr option" where
  "parseIPv6 inp = (case dropWhile (\<lambda>c. c \<noteq> CHR ''%'') inp of
      [] \<Rightarrow> map_option (\<lambda>bs. Addr6 (of_nat (be_nat bs)) []) (parseIPv6NoZone inp)
    | _ # zone \<Rightarrow>
        if zone = [] then None
        else map_option (\<lambda>bs. Addr6 (of_nat (be_nat bs)) zone)
               (parseIPv6NoZone (takeWhile (\<lambda>c. c \<noteq> CHR ''%'') inp)))"

definition ParseAddr :: "string \<Rightarrow> addr option" where
  "ParseAddr s = (case find (\<lambda>c. c = CHR ''.'' \<or> c = CHR '':'' \<or> c = CHR ''%'') s of
      None \<Rightarrow> None
    | Some c \<Rightarrow>
        if c = CHR ''.'' then parseIPv4 s
        else if c = CHR '':'' then parseIPv6 s
        else None)"

section \<open>Printing addresses\<close>

definition string4 :: "32 word \<Rightarrow> string" where
  "string4 w = join_with ''.'' (map (\<lambda>i. dec (v4 w i)) [0, 1, 2, 3])"

text \<open>
  The longest run of at least two zero groups, the first one among equals: the loop of
  \<open>appendTo6\<close> with its \<open>zeroStart\<close> and \<open>zeroEnd\<close>, \<^term>\<open>None\<close> for the start value 255.
\<close>

fun zero_run :: "nat list \<Rightarrow> nat" where
  "zero_run [] = 0"
| "zero_run (g # gs) = (if g = 0 then Suc (zero_run gs) else 0)"

fun best_run :: "nat \<Rightarrow> (nat \<times> nat) option \<Rightarrow> nat list \<Rightarrow> (nat \<times> nat) option" where
  "best_run i best [] = best"
| "best_run i best (g # gs) =
     (let l = zero_run (g # gs)
      in best_run (Suc i)
           (if l \<ge> 2 \<and> l > (case best of None \<Rightarrow> 0 | Some (s, e) \<Rightarrow> e - s)
            then Some (i, i + l) else best) gs)"

definition groups6 :: "128 word \<Rightarrow> nat list" where
  "groups6 w = map (v6u16 w) [0, 1, 2, 3, 4, 5, 6, 7]"

definition string6 :: "128 word \<Rightarrow> string" where
  "string6 w = (let gs = groups6 w in case best_run 0 None gs of
      None \<Rightarrow> join_with '':'' (map hex gs)
    | Some (s, e) \<Rightarrow>
        join_with '':'' (map hex (take s gs)) @ ''::'' @ join_with '':'' (map hex (drop e gs)))"

definition zone_suffix :: "string \<Rightarrow> string" where
  "zone_suffix z = (if z = [] then [] else CHR ''%'' # z)"

fun addr_String :: "addr \<Rightarrow> string" where
  "addr_String AddrZero = ''invalid IP''"
| "addr_String (Addr4 w) = string4 w"
| "addr_String (Addr6 w z) =
     (if Is4In6 (Addr6 w z) then ''::ffff:'' @ string4 (ucast w) @ zone_suffix z
      else string6 w @ zone_suffix z)"

section \<open>Prefixes\<close>

text \<open>\<open>Prefix\<close> with its address and \<open>bitsPlusOne\<close>; the latter is 0 in an invalid prefix.\<close>

datatype ip_prefix = Prefix (pfx_ip: addr) (bitsPlusOne: nat)

definition PrefixFrom :: "addr \<Rightarrow> nat \<Rightarrow> ip_prefix" where
  "PrefixFrom a bits =
     Prefix (withoutZone a) (if IsValid a \<and> bits \<le> BitLen a then Suc bits else 0)"

text \<open>
  \<open>strconv.Atoi\<close> on the text after the slash.  A sign and a leading zero are refused
  before the call (unless the text is a single byte), so only digit strings remain.
\<close>

definition parse_bits :: "string \<Rightarrow> nat option" where
  "parse_bits s =
     (if length s > 1 \<and> \<not> (is_dec (hd s) \<and> hd s \<noteq> CHR ''0'') then None
      else if s \<noteq> [] \<and> (\<forall>c\<in>set s. is_dec c)
      then Some (foldl (\<lambda>a c. a * 10 + dec_val c) 0 s) else None)"

definition ParsePrefix :: "string \<Rightarrow> ip_prefix option" where
  "ParsePrefix s =
     (if CHR ''/'' \<notin> set s then None
      else let bitsStr = rev (takeWhile (\<lambda>c. c \<noteq> CHR ''/'') (rev s));
               ipStr = take (length s - length bitsStr - 1) s
           in case ParseAddr ipStr of
                None \<Rightarrow> None
              | Some ip \<Rightarrow>
                  if hasZone ip then None
                  else (case parse_bits bitsStr of
                          None \<Rightarrow> None
                        | Some bits \<Rightarrow>
                            if bits > BitLen ip then None else Some (PrefixFrom ip bits)))"

fun prefix_Contains :: "ip_prefix \<Rightarrow> addr \<Rightarrow> bool" where
  "prefix_Contains (Prefix (Addr4 p) bp) (Addr4 a) =
     (0 < bp \<and> drop_bit (32 - (bp - 1)) (a XOR p) = 0)"
| "prefix_Contains (Prefix (Addr6 p pz) bp) (Addr6 a z) =
     (0 < bp \<and> z = [] \<and> (a XOR p) AND push_bit (128 - (bp - 1)) (mask (bp - 1)) = 0)"
| "prefix_Contains _ _ = False"

end
