(* ===== verification/Netip_Facts.thy ===== *)
theory Netip_Facts
  imports Netip
begin

text \<open>
  Facts on the model of \<open>net/netip\<close>: the printed form of every valid address parses
  back to that address (octets first, then groups, then the ellipsis and the embedded IPv4
  form), what \<open>Prefix.Contains\<close> means for the numbers behind the addresses, and
  what the parsers guarantee of their results.
\<close>

unbundle bit_operations_syntax

lemma of_char_digit [simp]:
  "d < 16 \<Longrightarrow> (of_char (digit_char d) :: nat) = (if d < 10 then 48 + d else 87 + d)"
  by (simp add: digit_char_def)

lemma is_dec_digit_char [simp]: "d < 10 \<Longrightarrow> is_dec (digit_char d)"
  by (simp add: is_dec_def)

lemma dec_val_digit_char [simp]: "d < 10 \<Longrightarrow> dec_val (digit_char d) = d"
  by (simp add: dec_val_def)

lemma hex_val_digit_char [simp]: "d < 16 \<Longrightarrow> hex_val (digit_char d) = Some d"
  by (auto simp: hex_val_def Let_def)

lemma dec_1: "n < 10 \<Longrightarrow> dec n = [digit_char n]"
  by (simp add: dec.simps)

lemma dec_2: "10 \<le> n \<Longrightarrow> n < 100 \<Longrightarrow> dec n = [digit_char (n div 10), digit_char (n mod 10)]"
  by (simp add: dec.simps [of n] dec_1)

lemma dec_3: "100 \<le> n \<Longrightarrow> n < 1000 \<Longrightarrow>
   dec n = [digit_char (n div 100), digit_char (n div 10 mod 10), digit_char (n mod 10)]"
  by (simp add: dec.simps [of n] dec_2 flip: div_mult2_eq)

lemma octet_digit_step:
  "d < 10 \<Longrightarrow> digLen \<noteq> 1 \<or> val \<noteq> 0 \<Longrightarrow> val * 10 + d \<le> 255 \<Longrightarrow>
   parseIPv4Loop prev val digLen fs (digit_char d # cs) =
   parseIPv4Loop (Some (digit_char d)) (val * 10 + d) (Suc digLen) fs cs"
  by auto

lemma dec_parse_octet:
  assumes "n < 256"
  obtains c where "is_dec c" and
    "\<And>rest. parseIPv4Loop prev 0 0 fs (dec n @ rest) = parseIPv4Loop (Some c) n (length (dec n)) fs rest"
proof -
  consider "n < 10" | "10 \<le> n" "n < 100" | "100 \<le> n" by linarith
  then show ?thesis
  proof cases
    case 1
    then show ?thesis by (intro that [of "digit_char n"]) (auto simp: dec_1)
  next
    case 2
    then show ?thesis by (intro that [of "digit_char (n mod 10)"]) (auto simp: dec_2)
  next
    case 3
    have e: "n div 100 * 10 + n div 10 mod 10 = n div 10"
      using div_mult_mod_eq [of "n div 10" 10] by (simp flip: div_mult2_eq)
    have "n div 100 < 10" and "0 < n div 100" and "n div 10 \<le> 255" and "0 < n div 10"
      using 3 assms by auto
    then show ?thesis using 3 assms
      by (intro that [of "digit_char (n mod 10)"])
        (simp_all add: dec_3 octet_digit_step e del: parseIPv4Loop.simps)
  qed
qed

lemma dot_not_dec [simp]: "is_dec c \<Longrightarrow> c \<noteq> CHR ''.''" "\<not> is_dec (CHR ''.'')"
  by (auto simp: is_dec_def)

lemma dec_not_Nil [simp]: "dec n \<noteq> []"
  by (subst dec.simps) simp

lemma parseIPv4Fields_dec:
  assumes "a < 256" "b < 256" "c < 256" "d < 256"
  shows "parseIPv4Fields (join_with ''.'' [dec a, dec b, dec c, dec d]) = Some [a, b, c, d]"
proof -
  obtain ca where a: "is_dec ca" "\<And>rest. parseIPv4Loop None 0 0 [] (dec a @ rest) = parseIPv4Loop (Some ca) a (length (dec a)) [] rest"
    using dec_parse_octet [OF assms(1)] by blast
  obtain cb where b: "is_dec cb" "\<And>rest. parseIPv4Loop (Some CHR ''.'') 0 0 [a] (dec b @ rest) = parseIPv4Loop (Some cb) b (length (dec b)) [a] rest"
    using dec_parse_octet [OF assms(2)] by blast
  obtain cc where c: "is_dec cc" "\<And>rest. parseIPv4Loop (Some CHR ''.'') 0 0 [a, b] (dec c @ rest) = parseIPv4Loop (Some cc) c (length (dec c)) [a, b] rest"
    using dec_parse_octet [OF assms(3)] by blast
  obtain cd where d: "\<And>rest. parseIPv4Loop (Some CHR ''.'') 0 0 [a, b, c] (dec d @ rest) = parseIPv4Loop (Some cd) d (length (dec d)) [a, b, c] rest"
    using dec_parse_octet [OF assms(4)] by blast
  show ?thesis using a b c d [of "[]"]
    by (simp add: parseIPv4Fields_def)
qed

lemma horner_step: "m = Suc k \<Longrightarrow> (n::nat) div b ^ m * b + n div b ^ k mod b = n div b ^ k"
proof -
  have "n div b ^ Suc k = n div b ^ k div b"
    by (simp only: power_Suc2 div_mult2_eq)
  then show "m = Suc k \<Longrightarrow> ?thesis" by (simp only: div_mult_mod_eq)
qed

lemma v4_less [simp]: "v4 w i < 256"
  by (simp add: v4_def)

lemma v6u16_less [simp]: "v6u16 w i < 65536"
  by (simp add: v6u16_def)

lemma be_nat_v4: "be_nat [v4 w 0, v4 w 1, v4 w 2, v4 w 3] = unat w"
proof -
  have top: "v4 w 0 = unat w div 256 ^ 3"
    using unsigned_less [of w, where 'a = nat] by (simp add: v4_def)
  then have "v4 w 0 * 256 + v4 w 1 = unat w div 256 ^ 2"
    using horner_step [of 3 2 "unat w" 256] by (simp add: v4_def)
  moreover have "unat w div 256 ^ 2 * 256 + v4 w 2 = unat w div 256 ^ 1"
    using horner_step [of 2 1 "unat w" 256] by (simp add: v4_def)
  moreover have "unat w div 256 ^ 1 * 256 + v4 w 3 = unat w"
    by (simp add: v4_def)
  ultimately show ?thesis by (simp add: be_nat_def)
qed

lemma parseIPv4_string4: "parseIPv4 (string4 w) = Some (Addr4 w)"
  using parseIPv4Fields_dec [of "v4 w 0" "v4 w 1" "v4 w 2" "v4 w 3"] be_nat_v4 [of w]
  by (simp add: parseIPv4_def string4_def)

lemma hex_not_Nil [simp]: "hex n \<noteq> []"
  by (subst hex.simps) simp

lemma hex_1: "n < 16 \<Longrightarrow> hex n = [digit_char n]"
  by (simp add: hex.simps)

lemma hex_step: "16 \<le> n \<Longrightarrow> hex n = hex (n div 16) @ [digit_char (n mod 16)]"
  by (simp add: hex.simps [of n])

lemma scanHex_digit_step:
  "d < 16 \<Longrightarrow> off \<le> 3 \<Longrightarrow> acc * 16 + d \<le> 65535 \<Longrightarrow>
   scanHex acc off (digit_char d # cs) = scanHex (acc * 16 + d) (Suc off) cs"
  by simp

text \<open>Scanning the printed form of a group consumes exactly that group.\<close>

lemma scanHex_hex_append:
  "n < 16 ^ k \<Longrightarrow> 1 \<le> k \<Longrightarrow> k \<le> 4 \<Longrightarrow> length (hex n) \<le> k \<and>
   scanHex 0 0 (hex n @ rest) = scanHex n (length (hex n)) rest"
proof (induction k arbitrary: n rest)
  case (Suc k)
  show ?case
  proof (cases "n < 16")
    case True
    then show ?thesis by (simp add: hex_1)
  next
    case False
    then have k: "1 \<le> k" using Suc.prems by (cases k) auto
    have n: "n < 65536"
      using Suc.prems power_increasing [of "Suc k" 4 "16::nat"] by simp
    have "n div 16 < 16 ^ k" using Suc.prems by (simp add: less_mult_imp_div_less mult.commute)
    with Suc.IH [of "n div 16" "digit_char (n mod 16) # rest"] k Suc.prems
    have "length (hex (n div 16)) \<le> k" and
      "scanHex 0 0 (hex (n div 16) @ digit_char (n mod 16) # rest) =
       scanHex (n div 16) (length (hex (n div 16))) (digit_char (n mod 16) # rest)"
      by auto
    with False n Suc.prems show ?thesis
      by (simp add: hex_step scanHex_digit_step del: scanHex.simps)
  qed
qed simp

definition no_hex_start :: "string \<Rightarrow> bool" where
  "no_hex_start s \<longleftrightarrow> s = [] \<or> hex_val (hd s) = None"

lemma scanHex_hex:
  assumes "n < 65536" "no_hex_start rest"
  shows "scanHex 0 0 (hex n @ rest) = Some (n, length (hex n), rest)"
proof -
  have "scanHex 0 0 (hex n @ rest) = scanHex n (length (hex n)) rest"
    using scanHex_hex_append [of n 4 rest] assms by simp
  also have "\<dots> = Some (n, length (hex n), rest)"
    using assms(2) by (cases rest) (auto simp: no_hex_start_def)
  finally show ?thesis .
qed

definition bytes16 :: "nat list \<Rightarrow> nat list" where
  "bytes16 gs = concat (map (\<lambda>g. [g div 256, g mod 256]) gs)"

lemma bytes16_simps [simp]:
  "bytes16 [] = []" "bytes16 (g # gs) = g div 256 # g mod 256 # bytes16 gs"
  "bytes16 (gs @ hs) = bytes16 gs @ bytes16 hs" "length (bytes16 gs) = 2 * length gs"
  by (simp_all add: bytes16_def) (induction gs, auto)

lemma bytes16_zeros: "bytes16 (replicate n 0) = replicate (2 * n) 0"
  by (induction n) auto

lemma colon_starts [simp]:
  "no_hex_start []" "no_hex_start (CHR '':'' # s)" "no_hex_start (CHR ''.'' # s)"
  by (auto simp: no_hex_start_def hex_val_def)

lemma join_hex_not_Nil [simp]: "join_with sep (hex g # ps) \<noteq> []"
  by (cases ps) auto

lemma hex_digits: "c \<in> set (hex n) \<Longrightarrow> \<exists>d<16. c = digit_char d"
proof (induction n rule: hex.induct)
  case (1 n)
  show ?case
  proof (cases "n < 16")
    case True
    with "1.prems" show ?thesis by (auto simp: hex_1)
  next
    case False
    with "1.prems" have "c \<in> set (hex (n div 16)) \<or> c = digit_char (n mod 16)"
      by (auto simp: hex_step)
    moreover have "n mod 16 < 16" by simp
    ultimately show ?thesis using "1.IH" [OF False] by blast
  qed
qed

lemma hex_val_specials [simp]:
  "hex_val (CHR '':'') = None" "hex_val (CHR ''.'') = None" "hex_val (CHR ''%'') = None"
  by (simp_all add: hex_val_def)

lemma hex_not_special: "c \<in> set (hex n) \<Longrightarrow> hex_val c \<noteq> None"
  using hex_digits by fastforce

lemma hex_chars: "c \<in> set (hex n) \<Longrightarrow> c \<noteq> CHR '':'' \<and> c \<noteq> CHR ''.'' \<and> c \<noteq> CHR ''%''"
  using hex_not_special by fastforce

lemma hd_hex_not_colon [simp]: "hd (hex n @ s) \<noteq> CHR '':''" "hd (hex n) \<noteq> CHR '':''"
  using hex_chars [of "hd (hex n)" n] by auto

lemma hd_join_hex [simp]:
  "hd (join_with '':'' (hex g # ps) @ s) \<noteq> CHR '':''"
  "hd (join_with '':'' (hex g # ps)) \<noteq> CHR '':''"
  by (cases ps; simp)+

lemma parseIPv6Loop_last:
  "n < 65536 \<Longrightarrow> length bs < 16 \<Longrightarrow>
   parseIPv6Loop (hex n) bs ell = Some (bs @ [n div 256, n mod 256], ell)"
  using scanHex_hex [of n "[]"] by (simp add: parseIPv6Loop.simps [of "hex n"])

lemma parseIPv6Loop_colon:
  "n < 65536 \<Longrightarrow> length bs < 16 \<Longrightarrow> rest \<noteq> [] \<Longrightarrow> hd rest \<noteq> CHR '':'' \<Longrightarrow>
   parseIPv6Loop (hex n @ CHR '':'' # rest) bs ell =
   parseIPv6Loop rest (bs @ [n div 256, n mod 256]) ell"
  using scanHex_hex [of n "CHR '':'' # rest"]
  by (simp add: parseIPv6Loop.simps [of "hex n @ CHR '':'' # rest"])

lemma parseIPv6Loop_double_colon:
  "n < 65536 \<Longrightarrow> length bs < 16 \<Longrightarrow>
   parseIPv6Loop (hex n @ CHR '':'' # CHR '':'' # s) bs None =
   (if s = [] then Some (bs @ [n div 256, n mod 256], Some (length bs + 2))
    else parseIPv6Loop s (bs @ [n div 256, n mod 256]) (Some (length bs + 2)))"
  using scanHex_hex [of n "CHR '':'' # CHR '':'' # s"]
  by (simp add: parseIPv6Loop.simps [of "hex n @ CHR '':'' # CHR '':'' # s"])

text \<open>The loop over groups separated by single colons, up to the end of the input.\<close>

lemma parseIPv6Loop_groups:
  "gs \<noteq> [] \<Longrightarrow> \<forall>g\<in>set gs. g < 65536 \<Longrightarrow> length bs + 2 * length gs \<le> 16 \<Longrightarrow>
   parseIPv6Loop (join_with '':'' (map hex gs)) bs ell = Some (bs @ bytes16 gs, ell)"
proof (induction gs arbitrary: bs)
  case (Cons g gs)
  then show ?case
    by (cases gs) (auto simp: parseIPv6Loop_last parseIPv6Loop_colon)
qed simp

text \<open>The loop over groups that are followed by the ellipsis.\<close>

lemma parseIPv6Loop_ellipsis:
  "gs \<noteq> [] \<Longrightarrow> \<forall>g\<in>set gs. g < 65536 \<Longrightarrow> length bs + 2 * length gs \<le> 16 \<Longrightarrow>
   parseIPv6Loop (join_with '':'' (map hex gs) @ CHR '':'' # CHR '':'' # s) bs None =
   (if s = [] then Some (bs @ bytes16 gs, Some (length bs + 2 * length gs))
    else parseIPv6Loop s (bs @ bytes16 gs) (Some (length bs + 2 * length gs)))"
proof (induction gs arbitrary: bs)
  case (Cons g gs)
  then show ?case
    by (cases gs) (auto simp: parseIPv6Loop_double_colon parseIPv6Loop_colon)
qed simp

text \<open>The chosen run consists of zero groups and has length two or more.\<close>

definition zero_range :: "nat list \<Rightarrow> nat \<times> nat \<Rightarrow> bool" where
  "zero_range gs r \<longleftrightarrow> (case r of (s, e) \<Rightarrow>
     s + 2 \<le> e \<and> e \<le> length gs \<and> (\<forall>j. s \<le> j \<and> j < e \<longrightarrow> gs ! j = 0))"

lemma zero_run_le: "zero_run gs \<le> length gs"
  by (induction gs) auto

lemma zero_run_zero: "j < zero_run gs \<Longrightarrow> gs ! j = 0"
  by (induction gs arbitrary: j) (auto simp: nth_Cons split: nat.splits if_splits)

lemma zero_range_run:
  assumes "zero_run (drop i gs) \<ge> 2"
  shows "zero_range gs (i, i + zero_run (drop i gs))"
proof -
  have "zero_run (drop i gs) \<le> length gs - i" using zero_run_le [of "drop i gs"] by simp
  moreover have "gs ! j = 0" if "i \<le> j" "j < i + zero_run (drop i gs)" for j
    using zero_run_zero [of "j - i" "drop i gs"] that calculation by simp
  ultimately show ?thesis using assms by (auto simp: zero_range_def)
qed

lemma best_run_range:
  "xs = drop i gs \<Longrightarrow> (\<forall>r. best = Some r \<longrightarrow> zero_range gs r) \<Longrightarrow>
   best_run i best xs = Some r \<Longrightarrow> zero_range gs r"
proof (induction i best xs rule: best_run.induct)
  case (2 i best g xs)
  have "xs = drop (Suc i) gs" using 2(2) by (metis drop_Suc list.sel(3) tl_drop)
  moreover have "zero_run (g # xs) \<ge> 2 \<Longrightarrow> zero_range gs (i, i + zero_run (g # xs))"
    using zero_range_run [of i gs] 2(2) by simp
  ultimately show ?case using 2(1,3,4) by (simp add: Let_def split: if_splits)
qed (cases r, auto)

lemma zero_range_split:
  assumes "zero_range gs (s, e)"
  shows "gs = take s gs @ replicate (e - s) 0 @ drop e gs" "s + 2 \<le> e" "e \<le> length gs"
proof -
  have "s \<le> e" using assms by (simp add: zero_range_def)
  then have "drop s gs = take (e - s) (drop s gs) @ drop e gs"
    using append_take_drop_id [of "e - s" "drop s gs"] by simp
  then have "gs = take s gs @ take (e - s) (drop s gs) @ drop e gs"
    using append_take_drop_id [of s gs] by simp
  moreover have "take (e - s) (drop s gs) = replicate (e - s) 0"
    using assms by (intro nth_equalityI) (auto simp: zero_range_def)
  ultimately show "gs = take s gs @ replicate (e - s) 0 @ drop e gs" by simp
qed (use assms in \<open>auto simp: zero_range_def\<close>)

lemma expandEllipsis_groups:
  assumes "length pre + length post < 8"
  shows "expandEllipsis (bytes16 (pre @ post), Some (2 * length pre)) =
         Some (bytes16 (pre @ replicate (8 - length pre - length post) 0 @ post))"
  using assms by (simp add: expandEllipsis_def bytes16_zeros diff_mult_distrib2)

lemma hd_take2: "s \<noteq> [] \<Longrightarrow> hd s \<noteq> CHR '':'' \<Longrightarrow> take 2 s \<noteq> ''::''"
  by (cases s) auto

text \<open>An ellipsis between any two lists of groups is expanded to the missing zeros.\<close>

lemma parseIPv6NoZone_compressed:
  assumes "length pre + length post < 8" "\<forall>g\<in>set pre \<union> set post. g < 65536"
  shows "parseIPv6NoZone (join_with '':'' (map hex pre) @ ''::'' @ join_with '':'' (map hex post)) =
         Some (bytes16 (pre @ replicate (8 - length pre - length post) 0 @ post))"
    (is "parseIPv6NoZone ?s = _")
proof (cases pre)
  case Nil
  show ?thesis
  proof (cases post)
    case Nil
    with \<open>pre = []\<close> show ?thesis by (simp add: parseIPv6NoZone_def bytes16_zeros)
  next
    case (Cons g gs)
    then show ?thesis
      using \<open>pre = []\<close> assms parseIPv6Loop_groups [of post "[]" "Some 0"]
        expandEllipsis_groups [of "[]" post]
      by (simp add: parseIPv6NoZone_def del: bytes16_simps(2))
  qed
next
  case (Cons g gs)
  have "?s \<noteq> []" "hd ?s \<noteq> CHR '':''" using Cons by simp_all
  then have "take 2 ?s \<noteq> ''::''" by (rule hd_take2)
  then have "parseIPv6NoZone ?s = Option.bind (parseIPv6Loop ?s [] None) expandEllipsis"
    by (simp only: parseIPv6NoZone_def if_False)
  also have "parseIPv6Loop ?s [] None = Some (bytes16 (pre @ post), Some (2 * length pre))"
    using parseIPv6Loop_ellipsis [of pre "[]" "join_with '':'' (map hex post)"] Cons assms
      parseIPv6Loop_groups [of post "bytes16 pre" "Some (2 * length pre)"]
    by (cases post) simp_all
  finally show ?thesis using expandEllipsis_groups [OF assms(1)] by simp
qed

lemma parseIPv6NoZone_full:
  assumes "length gs = 8" "\<forall>g\<in>set gs. g < 65536"
  shows "parseIPv6NoZone (join_with '':'' (map hex gs)) = Some (bytes16 gs)"
proof -
  obtain g gs' where gs: "gs = g # gs'" using assms(1) by (cases gs) auto
  have "take 2 (join_with '':'' (map hex gs)) \<noteq> ''::''"
    unfolding gs by (intro hd_take2) simp_all
  then show ?thesis
    using parseIPv6Loop_groups [of gs "[]" None] assms gs
    by (simp add: parseIPv6NoZone_def expandEllipsis_def del: bytes16_simps(2))
qed

lemma groups6_props: "length (groups6 w) = 8" "\<forall>g\<in>set (groups6 w). g < 65536"
  by (auto simp: groups6_def)

lemma parseIPv6NoZone_string6: "parseIPv6NoZone (string6 w) = Some (bytes16 (groups6 w))"
proof (cases "best_run 0 None (groups6 w)")
  case None
  then show ?thesis
    using parseIPv6NoZone_full [OF groups6_props] by (simp add: string6_def)
next
  case (Some r)
  obtain s e where r: "r = (s, e)" by (cases r)
  then have "zero_range (groups6 w) (s, e)"
    using best_run_range [of "groups6 w" 0 "groups6 w" None r] Some by simp
  note z = zero_range_split [OF this] and p = groups6_props [of w]
  have len: "length (take s (groups6 w)) + length (drop e (groups6 w)) < 8"
    and "8 - length (take s (groups6 w)) - length (drop e (groups6 w)) = e - s"
    using z(2,3) p(1) by simp_all
  moreover have "\<forall>g\<in>set (take s (groups6 w)) \<union> set (drop e (groups6 w)). g < 65536"
    using p(2) by (auto dest: in_set_takeD in_set_dropD)
  ultimately show ?thesis
    using parseIPv6NoZone_compressed [OF len] z(1) Some r by (simp add: string6_def Let_def)
qed

lemma be_nat_append: "be_nat (xs @ [a, b]) = be_nat xs * 65536 + a * 256 + b"
  by (simp add: be_nat_def algebra_simps)

lemma be_nat_groups:
  "be_nat (bytes16 (map (\<lambda>i. n div 65536 ^ (k - 1 - i) mod 65536) [0..<j])) = n div 65536 ^ (k - j)"
  if "n < 65536 ^ k" "j \<le> k"
  using that(2)
proof (induction j)
  case 0
  with that(1) show ?case by (simp add: be_nat_def)
next
  case (Suc j)
  let ?g = "n div 65536 ^ (k - Suc j) mod 65536"
  have "be_nat (bytes16 (map (\<lambda>i. n div 65536 ^ (k - 1 - i) mod 65536) [0..<Suc j])) =
        n div 65536 ^ (k - j) * 65536 + (?g div 256 * 256 + ?g mod 256)"
    using Suc by (simp add: be_nat_append algebra_simps)
  also have "k - j = Suc (k - Suc j)" using Suc.prems by simp
  then have "n div 65536 ^ (k - j) * 65536 + (?g div 256 * 256 + ?g mod 256) = n div 65536 ^ (k - Suc j)"
    using horner_step [of "k - j" "k - Suc j" n 65536] by (simp only: div_mult_mod_eq)
  finally show ?case .
qed

lemma be_nat_groups6: "be_nat (bytes16 (groups6 w)) = unat w"
proof -
  have "groups6 w = map (\<lambda>i. unat w div 65536 ^ (8 - 1 - i) mod 65536) [0..<8]"
    by (simp add: groups6_def v6u16_def upt_rec)
  then show ?thesis
    using be_nat_groups [of "unat w" 8 8] unsigned_less [of w, where 'a = nat] by simp
qed

lemma ucast_of_4in6:
  assumes "drop_bit 32 (w :: 128 word) = 0xFFFF"
  shows "unat w = 0xFFFF * 2 ^ 32 + unat (ucast w :: 32 word)"
proof -
  have "unat (drop_bit 32 w) = unat w div 2 ^ 32"
    by (simp add: drop_bit_eq_div unat_div_distrib)
  moreover have "unat (ucast w :: 32 word) = unat w mod 2 ^ 32"
    by (simp add: unsigned_ucast_eq take_bit_eq_mod)
  ultimately show ?thesis using assms div_mult_mod_eq [of "unat w" "2 ^ 32"] by simp
qed

lemma find_first_special:
  "CHR ''.'' \<notin> set s \<Longrightarrow> CHR ''%'' \<notin> set s \<Longrightarrow> CHR '':'' \<in> set s \<Longrightarrow>
   find (\<lambda>c. c = CHR ''.'' \<or> c = CHR '':'' \<or> c = CHR ''%'') (s @ t) = Some (CHR '':'')"
  by (induction s) auto

lemma join_hex_chars:
  "c \<in> set (join_with '':'' (map hex gs)) \<Longrightarrow> c \<noteq> CHR ''.'' \<and> c \<noteq> CHR ''%''"
  by (induction gs rule: induct_list012) (auto dest: hex_chars)

lemma string6_chars: "CHR ''.'' \<notin> set (string6 w)" "CHR ''%'' \<notin> set (string6 w)"
  by (auto simp: string6_def Let_def dest: join_hex_chars split: option.splits)

lemma string6_colon: "CHR '':'' \<in> set (string6 w)"
  by (auto simp: string6_def Let_def groups6_def split: option.splits)

lemma zone_free:
  "CHR ''%'' \<notin> set s \<Longrightarrow> takeWhile (\<lambda>c. c \<noteq> CHR ''%'') (s @ zone_suffix z) = s"
  "CHR ''%'' \<notin> set s \<Longrightarrow> dropWhile (\<lambda>c. c \<noteq> CHR ''%'') (s @ zone_suffix z) = zone_suffix z"
  by (induction s) (auto simp: zone_suffix_def)

lemma parseIPv6_zone:
  assumes "CHR ''%'' \<notin> set s" "parseIPv6NoZone s = Some bs"
  shows "parseIPv6 (s @ zone_suffix z) = Some (Addr6 (of_nat (be_nat bs)) z)"
  unfolding parseIPv6_def zone_free [OF assms(1)]
  using assms(2) by (cases z) (simp_all add: zone_suffix_def)

lemma dec_chars: "c \<in> set (dec n) \<Longrightarrow> is_dec c"
proof (induction n rule: dec.induct)
  case (1 n)
  then show ?case by (cases "n < 10") (auto simp: dec.simps [of n])
qed

lemma string4_chars: "c \<in> set (string4 w) \<Longrightarrow> is_dec c \<or> c = CHR ''.''"
  by (auto simp: string4_def dest: dec_chars)

lemma string4_find:
  "find (\<lambda>c. c = CHR ''.'' \<or> c = CHR '':'' \<or> c = CHR ''%'') (string4 w) = Some (CHR ''.'')"
proof -
  have "find (\<lambda>c. c = CHR ''.'' \<or> c = CHR '':'' \<or> c = CHR ''%'') (s @ CHR ''.'' # t) = Some (CHR ''.'')"
    if "\<forall>c\<in>set s. is_dec c" for s t
    using that by (induction s) (auto simp: is_dec_def)
  then show ?thesis using dec_chars by (simp add: string4_def)
qed

text \<open>The embedded form \<open>::ffff:a.b.c.d\<close>.\<close>

lemma scanHex_ffff: "scanHex 0 0 (''ffff:'' @ s) = Some (65535, 4, CHR '':'' # s)"
  by (simp add: hex_val_def Let_def)

lemma scanHex_dec_dot:
  assumes "n < 256"
  shows "scanHex 0 0 (dec n @ CHR ''.'' # s) = Some (fold (\<lambda>c a. a * 16 + dec_val c) (dec n) 0, length (dec n), CHR ''.'' # s)"
proof -
  consider "n < 10" | "10 \<le> n" "n < 100" | "100 \<le> n" by linarith
  then show ?thesis
    using assms by cases (simp_all add: dec_1 dec_2 dec_3)
qed

lemma parseIPv6Loop_embedded:
  "parseIPv6Loop (''ffff:'' @ string4 w) [] (Some 0) =
   Some ([255, 255] @ [v4 w 0, v4 w 1, v4 w 2, v4 w 3], Some 0)"
proof -
  let ?t = "join_with ''.'' [dec (v4 w 1), dec (v4 w 2), dec (v4 w 3)]"
  have s: "string4 w = dec (v4 w 0) @ CHR ''.'' # ?t" by (simp add: string4_def)
  have f: "parseIPv4Fields (string4 w) = Some [v4 w 0, v4 w 1, v4 w 2, v4 w 3]"
    using parseIPv4Fields_dec [of "v4 w 0" "v4 w 1" "v4 w 2" "v4 w 3"] by (simp add: string4_def)
  have ne: "string4 w \<noteq> []" "hd (string4 w) \<noteq> CHR '':''"
    using string4_chars [of "hd (string4 w)" w] by (auto simp: s is_dec_def)
  have "parseIPv6Loop (''ffff:'' @ string4 w) [] (Some 0) =
        parseIPv6Loop (string4 w) [255, 255] (Some 0)"
    using ne scanHex_ffff [of "string4 w"]
    by (subst parseIPv6Loop.simps) simp
  also have "\<dots> = Some ([255, 255] @ [v4 w 0, v4 w 1, v4 w 2, v4 w 3], Some 0)"
    using f scanHex_dec_dot [of "v4 w 0" ?t]
    by (subst parseIPv6Loop.simps) (simp add: s)
  finally show ?thesis .
qed

lemma parseIPv6NoZone_4in6:
  "parseIPv6NoZone (''::ffff:'' @ string4 w) =
   Some (replicate 10 0 @ [255, 255, v4 w 0, v4 w 1, v4 w 2, v4 w 3])"
  using parseIPv6Loop_embedded [of w]
  by (simp add: parseIPv6NoZone_def expandEllipsis_def numeral_eq_Suc)

lemma be_nat_4in6:
  "be_nat (replicate 10 0 @ [255, 255, v4 w 0, v4 w 1, v4 w 2, v4 w 3]) = 0xFFFF * 2 ^ 32 + unat w"
proof -
  have "foldl (\<lambda>a b. a * 256 + b) 0 (replicate k 0) = (0::nat)" for k
    by (induction k) auto
  then have "be_nat (replicate 10 0 @ [255, 255, v4 w 0, v4 w 1, v4 w 2, v4 w 3]) =
     0xFFFF * 2 ^ 32 + be_nat [v4 w 0, v4 w 1, v4 w 2, v4 w 3]"
    by (simp add: be_nat_def)
  then show ?thesis by (simp only: be_nat_v4)
qed

text \<open>Printing a valid address and parsing the text gives the address back.\<close>

theorem ParseAddr_String: "IsValid a \<Longrightarrow> ParseAddr (addr_String a) = Some a"
proof (cases a)
  case (Addr4 w)
  then show ?thesis
    by (simp add: ParseAddr_def string4_find parseIPv4_string4)
next
  case (Addr6 w z)
  show ?thesis
  proof (cases "Is4In6 a")
    case True
    let ?s = "''::ffff:'' @ string4 (ucast w)"
    have "CHR ''%'' \<notin> set ?s" using string4_chars [of "CHR ''%''"] by (auto simp: is_dec_def)
    from parseIPv6_zone [OF this parseIPv6NoZone_4in6, of z]
    have "parseIPv6 (?s @ zone_suffix z) = Some (Addr6 (of_nat (unat w)) z)"
      using True Addr6 by (simp only: be_nat_4in6 ucast_of_4in6 Is4In6.simps)
    with True Addr6 show ?thesis by (simp add: ParseAddr_def)
  next
    case False
    have "parseIPv6 (string6 w @ zone_suffix z) = Some (Addr6 (of_nat (unat w)) z)"
      using parseIPv6_zone [OF string6_chars(2) parseIPv6NoZone_string6] by (simp only: be_nat_groups6)
    with False Addr6 show ?thesis
      by (simp add: ParseAddr_def find_first_special string6_chars string6_colon)
  qed
qed (simp add: IsValid_def)

lemma xor_eq_zero_iff: "(a :: 'a::len word) XOR b = 0 \<longleftrightarrow> a = b"
  by (auto simp: bit_eq_iff bit_simps)

lemma xor_and_mask_high:
  fixes a p :: "'a::len word"
  assumes "n \<le> LENGTH('a)"
  shows "(a XOR p) AND push_bit (LENGTH('a) - n) (mask n) = 0 \<longleftrightarrow>
         drop_bit (LENGTH('a) - n) a = drop_bit (LENGTH('a) - n) p"
proof -
  let ?k = "LENGTH('a) - n"
  have "(a XOR p) AND push_bit ?k (mask n) = 0 \<longleftrightarrow>
        (\<forall>i<LENGTH('a). ?k \<le> i \<longrightarrow> bit a i = bit p i)"
    using assms
    by (auto simp: bit_eq_iff bit_simps)
  moreover have "drop_bit ?k a = drop_bit ?k p \<longleftrightarrow> (\<forall>i<LENGTH('a). ?k \<le> i \<longrightarrow> bit a i = bit p i)"
  proof (rule iffI, intro allI impI)
    fix i assume eq: "drop_bit ?k a = drop_bit ?k p" and i: "i < LENGTH('a)" "?k \<le> i"
    have "bit (drop_bit ?k a) (i - ?k) = bit (drop_bit ?k p) (i - ?k)" using eq by simp
    with i show "bit a i = bit p i" by (simp only: bit_drop_bit_eq o_apply le_add_diff_inverse)
  next
    assume h: "\<forall>i<LENGTH('a). ?k \<le> i \<longrightarrow> bit a i = bit p i"
    show "drop_bit ?k a = drop_bit ?k p"
    proof (rule bit_word_eqI)
      fix m
      show "bit (drop_bit ?k a) m = bit (drop_bit ?k p) m"
        using h [rule_format, of "?k + m"] bit_imp_le_length [of a "?k + m"]
          bit_imp_le_length [of p "?k + m"]
        by (auto simp: bit_drop_bit_eq)
    qed
  qed
  ultimately show ?thesis by simp
qed

lemma drop_bit_eq_iff_unat:
  "drop_bit k a = drop_bit k (b :: 'a::len word) \<longleftrightarrow> unat a div 2 ^ k = unat b div 2 ^ k"
  by (simp add: word_unat_eq_iff unat_drop_bit_eq) (simp add: drop_bit_eq_div)

text \<open>\<open>Prefix.Contains\<close> compares the leading bits.\<close>

lemma prefix_Contains_Addr4:
  "prefix_Contains (Prefix (Addr4 p) (Suc b)) (Addr4 a) \<longleftrightarrow>
   unat a div 2 ^ (32 - b) = unat p div 2 ^ (32 - b)"
  by (simp add: xor_eq_zero_iff drop_bit_eq_iff_unat)

lemma prefix_Contains_Addr6:
  "b \<le> 128 \<Longrightarrow> prefix_Contains (Prefix (Addr6 p pz) (Suc b)) (Addr6 a z) \<longleftrightarrow>
   z = [] \<and> unat a div 2 ^ (128 - b) = unat p div 2 ^ (128 - b)"
  using xor_and_mask_high [of b a p] by (simp add: drop_bit_eq_iff_unat)

lemma prefix_Contains_family:
  "prefix_Contains p a \<Longrightarrow> Is4 (pfx_ip p) = Is4 a \<and> Is6 (pfx_ip p) = Is6 a \<and> \<not> hasZone a"
  by (cases "(p, a)" rule: prefix_Contains.cases) auto

lemma prefix_Contains_host:
  "IsValid a \<Longrightarrow> \<not> hasZone a \<Longrightarrow> prefix_Contains (PrefixFrom a (BitLen a)) b \<longleftrightarrow> b = a"
  using prefix_Contains_Addr6 [of 128]
  by (cases a; cases b)
    (auto simp: PrefixFrom_def IsValid_def xor_eq_zero_iff
      simp del: prefix_Contains.simps(2) simp flip: word_unat_eq_iff split: if_splits)

lemma ParseAddr_valid: "ParseAddr s = Some a \<Longrightarrow> IsValid a"
  by (auto simp: ParseAddr_def parseIPv4_def parseIPv6_def IsValid_def
      split: option.splits if_splits list.splits)

lemma ParsePrefix_Some:
  "ParsePrefix s = Some p \<Longrightarrow>
   \<exists>ip bits. p = PrefixFrom ip bits \<and> IsValid ip \<and> \<not> hasZone ip \<and> bits \<le> BitLen ip"
  by (auto simp: ParsePrefix_def Let_def split: if_splits option.splits dest: ParseAddr_valid
      intro!: exI)

lemma pfx_ip_PrefixFrom [simp]: "pfx_ip (PrefixFrom a b) = withoutZone a"
  by (simp add: PrefixFrom_def)

lemma withoutZone_family [simp]:
  "Is4 (withoutZone a) = Is4 a" "Is6 (withoutZone a) = Is6 a" "IsValid (withoutZone a) = IsValid a"
  by (cases a; simp add: IsValid_def)+

lemma addr_family: "IsValid a \<Longrightarrow> Is4 a \<noteq> Is6 a"
  by (cases a) (auto simp: IsValid_def)

end
