(* ===== verification/DNSLabel.thy ===== *)
theory DNSLabel
  imports Prelude
begin

text \<open>
  DNS label validation of \<open>k8s.io/apimachinery/pkg/util/validation\<close>, which the provider
  calls on the cluster name.  The regular expressions are written as predicates on strings.
\<close>

datatype label_error = MaxLenError nat | ContainsDots | RegexError

definition lower_alpha :: "char \<Rightarrow> bool" where
  "lower_alpha c \<longleftrightarrow> 97 \<le> (of_char c :: nat) \<and> (of_char c :: nat) \<le> 122"

definition digit_c :: "char \<Rightarrow> bool" where
  "digit_c c \<longleftrightarrow> 48 \<le> (of_char c :: nat) \<and> (of_char c :: nat) \<le> 57"

definition alnum :: "char \<Rightarrow> bool" where
  "alnum c \<longleftrightarrow> lower_alpha c \<or> digit_c c"

definition label_char :: "char \<Rightarrow> bool" where
  "label_char c \<longleftrightarrow> alnum c \<or> c = CHR ''-''"

text \<open>\<open>^[a-z0-9]([-a-z0-9]*[a-z0-9])?$\<close>\<close>

definition dns1123LabelRegexp :: "string \<Rightarrow> bool" where
  "dns1123LabelRegexp s \<longleftrightarrow> s \<noteq> [] \<and> list_all label_char s \<and> alnum (hd s) \<and> alnum (last s)"

text \<open>\<open>^[a-z]([-a-z0-9]*[a-z0-9])?$\<close>\<close>

definition dns1035LabelRegexp :: "string \<Rightarrow> bool" where
  "dns1035LabelRegexp s \<longleftrightarrow> s \<noteq> [] \<and> list_all label_char s \<and> lower_alpha (hd s) \<and> alnum (last s)"

text \<open>Labels separated by dots.\<close>

definition dns1123SubdomainRegexp :: "string \<Rightarrow> bool" where
  "dns1123SubdomainRegexp s \<longleftrightarrow> list_all dns1123LabelRegexp (split_byte (CHR ''.'') s)"

definition IsDNS1123Label :: "string \<Rightarrow> label_error list" where
  "IsDNS1123Label s =
     (if length s > 63 then [MaxLenError 63] else [])
     @ (if \<not> dns1123LabelRegexp s
        then (if dns1123SubdomainRegexp s then [ContainsDots] else [RegexError])
        else [])"

definition IsDNS1035Label :: "string \<Rightarrow> label_error list" where
  "IsDNS1035Label s =
     (if length s > 63 then [MaxLenError 63] else [])
     @ (if \<not> dns1035LabelRegexp s then [RegexError] else [])"

lemma IsDNS1035Label_ok: "IsDNS1035Label s = [] \<longleftrightarrow> dns1035LabelRegexp s \<and> length s \<le> 63"
  by (auto simp: IsDNS1035Label_def)

lemma IsDNS1123Label_ok: "IsDNS1123Label s = [] \<longleftrightarrow> dns1123LabelRegexp s \<and> length s \<le> 63"
  by (auto simp: IsDNS1123Label_def)

lemma dns1035_is_dns1123: "dns1035LabelRegexp s \<Longrightarrow> dns1123LabelRegexp s"
  by (auto simp: dns1035LabelRegexp_def dns1123LabelRegexp_def alnum_def)

end
