(* ===== verification/Config.thy ===== *)
theory Config
  imports Kube Netip_Facts DNSLabel
begin

text \<open>
  The global configuration (\<open>pkg/config/config.go\<close>), its constants
  (\<open>pkg/utils/consts.go\<close>) and its validation at boot time (\<open>pkg/utils/config.go\<close>,
  \<open>pkg/utils/network.go\<close>).  The flag set of the command line library is a parameter:
  three lookup functions that return a value or an error.
\<close>

section \<open>Constants\<close>

definition HarvesterCloudProvider :: string where
  "HarvesterCloudProvider = ''cloudprovider.harvesterhci.io''"
definition HarvesterCloudProviderPrefix :: string where
  "HarvesterCloudProviderPrefix = HarvesterCloudProvider @ ''/''"
definition KeyIPAM :: string where "KeyIPAM = HarvesterCloudProviderPrefix @ ''ipam''"
definition KeyNetwork :: string where "KeyNetwork = HarvesterCloudProviderPrefix @ ''network''"
definition KeyProject :: string where "KeyProject = HarvesterCloudProviderPrefix @ ''project''"
definition KeyNamespace :: string where "KeyNamespace = HarvesterCloudProviderPrefix @ ''namespace''"
definition KeyPrimaryService :: string where
  "KeyPrimaryService = HarvesterCloudProviderPrefix @ ''primary-service''"
definition KeyKubevipLoadBalancerIP :: string where
  "KeyKubevipLoadBalancerIP = ''kube-vip.io/loadbalancerIPs''"
definition KeyKubevipServiceInterface :: string where
  "KeyKubevipServiceInterface = ''kube-vip.io/serviceInterface''"
definition KeyAdditionalInternalIPs :: string where
  "KeyAdditionalInternalIPs = HarvesterCloudProviderPrefix @ ''additional-internal-ips''"
definition ConfigMapNADMapping :: string where "ConfigMapNADMapping = ''harvester-nad-mapping''"
definition ConfigMapKeyNADMapping :: string where "ConfigMapKeyNADMapping = ''interface-nad-mapping''"
definition LBClusterNameKey :: string where
  "LBClusterNameKey = HarvesterCloudProviderPrefix @ ''cluster''"
definition LBServiceNamespaceKey :: string where
  "LBServiceNamespaceKey = HarvesterCloudProviderPrefix @ ''serviceNamespace''"
definition LBServiceNameKey :: string where
  "LBServiceNameKey = HarvesterCloudProviderPrefix @ ''serviceName''"
definition NetworkTypeManagement :: string where "NetworkTypeManagement = ''managementNetwork''"
definition AnnotationKeyGuestClusterManagementNetworkOnLB :: string where
  "AnnotationKeyGuestClusterManagementNetworkOnLB = HarvesterCloudProviderPrefix @ NetworkTypeManagement"
definition AnnotationKeyNetworkOnLB :: string where
  "AnnotationKeyNetworkOnLB = HarvesterCloudProviderPrefix @ ''lb-network''"
definition DefaultGuestClusterName :: string where "DefaultGuestClusterName = ''kubernetes''"
definition DefaultNamespace :: string where "DefaultNamespace = ''default''"
definition FlagClusterName :: string where "FlagClusterName = ''cluster-name''"
definition FlagCloudProviderControllers :: string where "FlagCloudProviderControllers = ''controllers''"
definition FlagDisableVmiController :: string where "FlagDisableVmiController = ''disable-vmi-controller''"
definition FlagDisableAnnotationAlphaProvidedIPAddr :: string where
  "FlagDisableAnnotationAlphaProvidedIPAddr = ''disable-annotation-alpha-provided-ip-addr''"
definition FlagManagementNetwork :: string where "FlagManagementNetwork = ''management-network''"
definition FlagShowFullHelpOnError :: string where "FlagShowFullHelpOnError = ''show-full-help-on-error''"
definition FlagNodeIPCIDR :: string where "FlagNodeIPCIDR = ''node-ip-cidr''"
definition FlagNodeExcludeIPRanges :: string where "FlagNodeExcludeIPRanges = ''node-exclude-ip-ranges''"
definition LabelKeyGuestClusterNameOnVM :: string where
  "LabelKeyGuestClusterNameOnVM = ''guestcluster.harvesterhci.io/name''"

lemmas key_defs = HarvesterCloudProvider_def HarvesterCloudProviderPrefix_def KeyIPAM_def
  KeyNetwork_def KeyProject_def KeyNamespace_def KeyPrimaryService_def KeyKubevipLoadBalancerIP_def
  KeyKubevipServiceInterface_def KeyAdditionalInternalIPs_def LBClusterNameKey_def
  LBServiceNamespaceKey_def LBServiceNameKey_def NetworkTypeManagement_def
  AnnotationKeyGuestClusterManagementNetworkOnLB_def AnnotationKeyNetworkOnLB_def

section \<open>The configuration and its accessors\<close>

record config =
  cfgClusterName :: string
  cfgCloudProviderControllers :: string
  cfgDisableAnnotationAlphaProvidedIPAddr :: bool
  cfgManagementNetwork :: string
  cfgNodeIPCIDR :: string
  cfgNodeExcludeIPRanges :: "string list"
  cfgDisableVMIController :: bool
  cfgShowFullHelpOnError :: bool
  internalNodeIPCIDRPrefixes :: "ip_prefix list"
  internalNodeExcludeIPPrefixes :: "ip_prefix list"

text \<open>\<open>instance = &Config{}\<close>: the zero configuration the process starts with.\<close>

definition zero_config :: config where
  "zero_config = \<lparr>cfgClusterName = [], cfgCloudProviderControllers = [],
     cfgDisableAnnotationAlphaProvidedIPAddr = False, cfgManagementNetwork = [], cfgNodeIPCIDR = [],
     cfgNodeExcludeIPRanges = [], cfgDisableVMIController = False, cfgShowFullHelpOnError = False,
     internalNodeIPCIDRPrefixes = [], internalNodeExcludeIPPrefixes = []\<rparr>"

text \<open>The accessors are methods of a pointer, so the receiver may be nil (\<^term>\<open>None\<close>).\<close>

definition GetManagementNetwork :: "config option \<Rightarrow> string option" where
  "GetManagementNetwork c = (case c of
     Some cfg \<Rightarrow> if cfgManagementNetwork cfg \<noteq> [] then Some (cfgManagementNetwork cfg) else None
   | None \<Rightarrow> None)"

definition GetNodeIPCIDRPrefixes :: "config option \<Rightarrow> ip_prefix list" where
  "GetNodeIPCIDRPrefixes c = (case c of None \<Rightarrow> [] | Some cfg \<Rightarrow> internalNodeIPCIDRPrefixes cfg)"

definition SetNodeIPCIDRPrefixes :: "ip_prefix list \<Rightarrow> config option \<Rightarrow> config option" where
  "SetNodeIPCIDRPrefixes ps c = map_option (\<lambda>cfg. cfg\<lparr>internalNodeIPCIDRPrefixes := ps\<rparr>) c"

definition GetNodeExcludeIPPrefixes :: "config option \<Rightarrow> ip_prefix list" where
  "GetNodeExcludeIPPrefixes c = (case c of None \<Rightarrow> [] | Some cfg \<Rightarrow> internalNodeExcludeIPPrefixes cfg)"

definition SetNodeExcludeIPPrefixes :: "ip_prefix list \<Rightarrow> config option \<Rightarrow> config option" where
  "SetNodeExcludeIPPrefixes ps c = map_option (\<lambda>cfg. cfg\<lparr>internalNodeExcludeIPPrefixes := ps\<rparr>) c"

definition GetNodeExcludeIPRangesCmdString :: "config option \<Rightarrow> string" where
  "GetNodeExcludeIPRangesCmdString c = (case c of
     None \<Rightarrow> []
   | Some cfg \<Rightarrow> if cfgNodeExcludeIPRanges cfg = [] then []
                else join_with '','' (cfgNodeExcludeIPRanges cfg))"

definition bool_string :: "bool \<Rightarrow> string" where
  "bool_string b = (if b then ''true'' else ''false'')"

definition GetCurrentConfigString :: "config option \<Rightarrow> string" where
  "GetCurrentConfigString c = (case c of
     None \<Rightarrow> []
   | Some cfg \<Rightarrow> join_with '' '' (map (\<lambda>(flag, v). ''--'' @ flag @ ''='' @ v)
       [(FlagClusterName, cfgClusterName cfg),
        (FlagCloudProviderControllers, cfgCloudProviderControllers cfg),
        (FlagManagementNetwork, cfgManagementNetwork cfg),
        (FlagNodeIPCIDR, cfgNodeIPCIDR cfg),
        (FlagNodeExcludeIPRanges, GetNodeExcludeIPRangesCmdString (Some cfg)),
        (FlagDisableAnnotationAlphaProvidedIPAddr, bool_string (cfgDisableAnnotationAlphaProvidedIPAddr cfg)),
        (FlagDisableVmiController, bool_string (cfgDisableVMIController cfg)),
        (FlagShowFullHelpOnError, bool_string (cfgShowFullHelpOnError cfg))]))"

section \<open>Network names and address lists\<close>

definition NormalizeNetworkName :: "string \<Rightarrow> string \<Rightarrow> go_error + string" where
  "NormalizeNetworkName networkType networkName =
     (if networkName = [] then Inl (Errorf ''network type %s: network name is empty'' [FStr networkType])
      else case split_byte (CHR ''/'') networkName of
        [_] \<Rightarrow> Inr (DefaultNamespace @ ''/'' @ networkName)
      | [p0, p1] \<Rightarrow>
          if p0 = [] \<or> p1 = []
          then Inl (Errorf (''invalid network type %s format %q, expected 'namespace/name'' @ [CHR 0x27])
                 [FStr networkType, FQuote networkName])
          else Inr networkName
      | _ \<Rightarrow> Inl (Errorf ''network type %s name %q has too many slashes''
                 [FStr networkType, FQuote networkName]))"

definition parseStringToIPPrefix :: "string \<Rightarrow> go_error + ip_prefix" where
  "parseStringToIPPrefix s = (case ParsePrefix s of
     Some p \<Rightarrow> Inr p
   | None \<Rightarrow> (case ParseAddr s of
       Some a \<Rightarrow> Inr (PrefixFrom a (BitLen a))
     | None \<Rightarrow> Inl (Errorf ''invalid IP or CIDR format: %q'' [FQuote s])))"

text \<open>Step 1 of the loop body of \<open>validateAndParseNodeIPCIDR\<close>: the prefix and its address.\<close>

definition cidr_entry :: "string \<Rightarrow> (ip_prefix \<times> addr) option" where
  "cidr_entry trimmed = (case ParsePrefix trimmed of
     Some p \<Rightarrow> Some (p, pfx_ip p)
   | None \<Rightarrow> (case ParseAddr trimmed of
       Some a \<Rightarrow> Some (PrefixFrom a (BitLen a), a)
     | None \<Rightarrow> None))"

definition broadcast :: addr where
  "broadcast = Addr4 0xFFFFFFFF"

text \<open>Steps 2 to 4: the family count and the safety checks on the address.\<close>

definition cidr_addr_error :: "string \<Rightarrow> string \<Rightarrow> bool \<Rightarrow> bool \<Rightarrow> addr \<Rightarrow> go_error option" where
  "cidr_addr_error cidrFilter trimmed hasIPv4 hasIPv6 a =
     (if Is4 a \<and> hasIPv4
      then Some (Errorf ''invalid configuration for --%s: multiple IPv4 entries in %q'' [FStr FlagNodeIPCIDR, FQuote cidrFilter])
      else if \<not> Is4 a \<and> Is6 a \<and> hasIPv6
      then Some (Errorf ''invalid configuration for --%s: multiple IPv6 entries in %q'' [FStr FlagNodeIPCIDR, FQuote cidrFilter])
      else if \<not> Is4 a \<and> \<not> Is6 a
      then Some (Errorf ''invalid configuration for --%s (%q): unsupported IP family'' [FStr FlagNodeIPCIDR, FQuote trimmed])
      else if IsLoopback a
      then Some (Errorf ''invalid configuration for --%s (%q): loopback addresses not allowed'' [FStr FlagNodeIPCIDR, FQuote trimmed])
      else if IsLinkLocalUnicast a \<or> IsLinkLocalMulticast a
      then Some (Errorf ''invalid configuration for --%s (%q): link-local addresses not allowed'' [FStr FlagNodeIPCIDR, FQuote trimmed])
      else if IsMulticast a \<or> IsUnspecified a
      then Some (Errorf ''invalid configuration for --%s (%q): must be a valid unicast address'' [FStr FlagNodeIPCIDR, FQuote trimmed])
      else if Is4 a \<and> a = broadcast
      then Some (Errorf ''invalid configuration for --%s (%q): broadcast address not allowed'' [FStr FlagNodeIPCIDR, FQuote trimmed])
      else None)"

text \<open>The variables of the loop: the two family flags, \<open>configured\<close>, and the two result slices.\<close>

record cidr_state =
  hasIPv4 :: bool
  hasIPv6 :: bool
  configured :: bool
  prefixes :: "ip_prefix list"
  updatedCidr :: "string list"

fun nodeIPCIDRLoop :: "string \<Rightarrow> cidr_state \<Rightarrow> string list \<Rightarrow> go_error + cidr_state" where
  "nodeIPCIDRLoop cidrFilter st [] = Inr st"
| "nodeIPCIDRLoop cidrFilter st (part # parts) =
     (let trimmed = trim_space part in
      if trimmed = [] then nodeIPCIDRLoop cidrFilter st parts
      else case cidr_entry trimmed of
        None \<Rightarrow> Inl (Errorf ''invalid configuration for --%s: invalid CIDR or IP format %q'' [FStr FlagNodeIPCIDR, FQuote trimmed])
      | Some (p, a) \<Rightarrow>
          (case cidr_addr_error cidrFilter trimmed (hasIPv4 st) (hasIPv6 st) a of
             Some e \<Rightarrow> Inl e
           | None \<Rightarrow> nodeIPCIDRLoop cidrFilter
               (st\<lparr>configured := True,
                   hasIPv4 := hasIPv4 st \<or> Is4 a, hasIPv6 := hasIPv6 st \<or> Is6 a,
                   updatedCidr := updatedCidr st @ [trimmed],
                   prefixes := prefixes st @ [p]\<rparr>) parts))"

definition cidr_init :: cidr_state where
  "cidr_init = \<lparr>hasIPv4 = False, hasIPv6 = False, configured = False, prefixes = [], updatedCidr = []\<rparr>"

definition validateAndParseNodeIPCIDR :: "config \<Rightarrow> go_error + config" where
  "validateAndParseNodeIPCIDR cfg =
     (case nodeIPCIDRLoop (cfgNodeIPCIDR cfg) cidr_init (split_byte (CHR '','') (cfgNodeIPCIDR cfg)) of
        Inl e \<Rightarrow> Inl e
      | Inr st \<Rightarrow>
          if configured st \<and> prefixes st = []
          then Inl (Errorf ''invalid configuration for --%s (%q): no valid CIDR or IP entries found'' [FStr FlagNodeIPCIDR, FQuote (cfgNodeIPCIDR cfg)])
          else Inr (cfg\<lparr>internalNodeIPCIDRPrefixes := prefixes st,
                        cfgNodeIPCIDR := join_with '','' (updatedCidr st)\<rparr>))"

fun excludeRangesLoop :: "string list \<Rightarrow> ip_prefix list \<Rightarrow> string list \<Rightarrow> go_error + (string list \<times> ip_prefix list)" where
  "excludeRangesLoop clean pfxs [] = Inr (clean, pfxs)"
| "excludeRangesLoop clean pfxs (entry # entries) =
     (let trimmed = trim_space entry in
      if trimmed = [] then excludeRangesLoop clean pfxs entries
      else case parseStringToIPPrefix trimmed of
        Inl e \<Rightarrow> Inl (Wrapf ''invalid entry in --%s (%q): %w'' [FStr FlagNodeExcludeIPRanges, FQuote trimmed] e)
      | Inr p \<Rightarrow> excludeRangesLoop (clean @ [trimmed]) (pfxs @ [p]) entries)"

definition validateAndParseNodeExcludeIPRanges :: "config \<Rightarrow> go_error + config" where
  "validateAndParseNodeExcludeIPRanges cfg =
     (case excludeRangesLoop [] [] (cfgNodeExcludeIPRanges cfg) of
        Inl e \<Rightarrow> Inl e
      | Inr (clean, pfxs) \<Rightarrow>
          Inr (cfg\<lparr>cfgNodeExcludeIPRanges := clean, internalNodeExcludeIPPrefixes := pfxs\<rparr>))"

text \<open>
  \<open>ConvertAndFilterIPs\<close>: the closure \<open>isInternalOnly\<close>, then the loop, which stops with
  an error at the first malformed address.
\<close>

definition isInternalOnly :: "addr \<Rightarrow> bool" where
  "isInternalOnly a \<longleftrightarrow> \<not> IsValid a \<or> IsLoopback a \<or> IsMulticast a \<or> IsUnspecified a
     \<or> IsLinkLocalUnicast a \<or> IsLinkLocalMulticast a \<or> (Is4 a \<and> a = broadcast)"

fun ConvertAndFilterIPs :: "string list \<Rightarrow> go_error + addr list" where
  "ConvertAndFilterIPs [] = Inr []"
| "ConvertAndFilterIPs (ipStr # ips) = (case ParseAddr ipStr of
     None \<Rightarrow> Inl (Wrapf ''failed to parse IP %q: %w'' [FQuote ipStr] (OtherError ''ParseAddr''))
   | Some a \<Rightarrow> (case ConvertAndFilterIPs ips of
       Inl e \<Rightarrow> Inl e
     | Inr as \<Rightarrow> Inr (if isInternalOnly a then as else a # as)))"

section \<open>Cluster name and flags\<close>

datatype cluster_warning = WarnTrimmed | WarnEmptyOrDefault | WarnNotALabel

text \<open>The normalized name, and the warnings written to the logger argument.\<close>

definition normalizeAndWarnClusterName :: "string \<Rightarrow> string \<times> cluster_warning list" where
  "normalizeAndWarnClusterName rawName =
     (let normalized = trim_set ('' '' @ [CHR 0x09, CHR 0x0A, CHR 0x0D, CHR 0x22, CHR 0x27, CHR 0x60]) rawName;
          w1 = (if normalized \<noteq> rawName then [WarnTrimmed] else []);
          w2 = (if normalized = [] \<or> normalized = DefaultGuestClusterName then [WarnEmptyOrDefault] else [])
      in if normalized = [] then (normalized, w1 @ w2)
         else (normalized, w1 @ w2 @ (if IsDNS1123Label normalized \<noteq> [] then [WarnNotALabel] else [])))"

record flags =
  GetString :: "string \<Rightarrow> go_error + string"
  GetBool :: "string \<Rightarrow> go_error + bool"
  GetStringSlice :: "string \<Rightarrow> go_error + string list"

definition getStr :: "flags \<Rightarrow> string \<Rightarrow> go_error + string" where
  "getStr fl name = (case GetString fl name of
     Inl e \<Rightarrow> Inl (Wrapf ''internal error: flag %q not registered: %w'' [FQuote name] e) | Inr v \<Rightarrow> Inr v)"

definition getBool :: "flags \<Rightarrow> string \<Rightarrow> go_error + bool" where
  "getBool fl name = (case GetBool fl name of
     Inl e \<Rightarrow> Inl (Wrapf ''internal error: flag %q not registered: %w'' [FQuote name] e) | Inr v \<Rightarrow> Inr v)"

definition getStrSlice :: "flags \<Rightarrow> string \<Rightarrow> go_error + string list" where
  "getStrSlice fl name = (case GetStringSlice fl name of
     Inl e \<Rightarrow> Inl (Wrapf ''internal error: flag %q not registered as stringSlice: %w'' [FQuote name] e) | Inr v \<Rightarrow> Inr v)"

text \<open>
  \<open>if cfg.X, err = get(flag); err != nil { return err }\<close>: the field is assigned in both
  cases, with the zero value on an error.
\<close>

definition assign ::
  "go_error + 'a \<Rightarrow> 'a \<Rightarrow> ('a \<Rightarrow> config \<Rightarrow> config) \<Rightarrow> config \<Rightarrow> (config \<Rightarrow> go_error option \<times> config)
   \<Rightarrow> go_error option \<times> config" where
  "assign r zero upd cfg k = (case r of Inl e \<Rightarrow> (Some e, upd zero cfg) | Inr v \<Rightarrow> k (upd v cfg))"

text \<open>Steps 4 to 6: strict validation of the network settings.\<close>

definition validate_network_settings :: "config \<Rightarrow> go_error option \<times> config" where
  "validate_network_settings cfg =
     (case (if cfgManagementNetwork cfg \<noteq> []
            then (case NormalizeNetworkName NetworkTypeManagement (cfgManagementNetwork cfg) of
                    Inl e \<Rightarrow> Inl (Wrapf ''invalid configuration for --%s: %w'' [FStr FlagManagementNetwork] e)
                  | Inr n \<Rightarrow> Inr (cfg\<lparr>cfgManagementNetwork := n\<rparr>))
            else Inr cfg) of
        Inl e \<Rightarrow> (Some e, cfg)
      | Inr cfg1 \<Rightarrow>
          (case validateAndParseNodeIPCIDR cfg1 of
             Inl e \<Rightarrow> (Some e, cfg1)
           | Inr cfg2 \<Rightarrow>
               (case validateAndParseNodeExcludeIPRanges cfg2 of
                  Inl e \<Rightarrow> (Some e, cfg2)
                | Inr cfg3 \<Rightarrow> (None, cfg3))))"

definition SyncAndValidateHarvesterConfig :: "flags \<Rightarrow> config \<Rightarrow> go_error option \<times> config" where
  "SyncAndValidateHarvesterConfig fl c0 =
     assign (getStr fl FlagClusterName) [] (\<lambda>v c. c\<lparr>cfgClusterName := v\<rparr>) c0 (\<lambda>c1.
     (case getStr fl FlagClusterName of Inl e \<Rightarrow> (Some e, c1) | Inr rawClusterName \<Rightarrow>
     assign (getStr fl FlagManagementNetwork) [] (\<lambda>v c. c\<lparr>cfgManagementNetwork := v\<rparr>) c1 (\<lambda>c2.
     assign (getStr fl FlagNodeIPCIDR) [] (\<lambda>v c. c\<lparr>cfgNodeIPCIDR := v\<rparr>) c2 (\<lambda>c3.
     assign (getStrSlice fl FlagNodeExcludeIPRanges) [] (\<lambda>v c. c\<lparr>cfgNodeExcludeIPRanges := v\<rparr>) c3 (\<lambda>c4.
     assign (getBool fl FlagDisableAnnotationAlphaProvidedIPAddr) False
       (\<lambda>v c. c\<lparr>cfgDisableAnnotationAlphaProvidedIPAddr := v\<rparr>) c4 (\<lambda>c5.
     assign (getBool fl FlagDisableVmiController) False (\<lambda>v c. c\<lparr>cfgDisableVMIController := v\<rparr>) c5 (\<lambda>c6.
     assign (getBool fl FlagShowFullHelpOnError) False (\<lambda>v c. c\<lparr>cfgShowFullHelpOnError := v\<rparr>) c6 (\<lambda>c7.
     (case getStrSlice fl FlagCloudProviderControllers of Inl e \<Rightarrow> (Some e, c7) | Inr controllerSlice \<Rightarrow>
     validate_network_settings
       (c7\<lparr>cfgCloudProviderControllers := join_with '','' controllerSlice,
           cfgClusterName := fst (normalizeAndWarnClusterName rawClusterName)\<rparr>))))))))))"

end
