(* ===== verification/Config_Facts.thy ===== *)
theory Config_Facts
  imports Config
begin

text \<open>
  What the boot-time validation guarantees: trimming is idempotent, network names are
  normalized to \<open>namespace/name\<close>, the CIDR list is accepted exactly when every entry is an
  acceptable address and no family occurs twice, and the effective configuration is a fixed
  point of the validation.
\<close>

section \<open>Trimming\<close>

definition not_strippable :: "string list \<Rightarrow> string \<Rightarrow> bool" where
  "not_strippable encs s \<longleftrightarrow> (\<forall>e\<in>set encs. e \<noteq> [] \<longrightarrow> take (length e) s \<noteq> e)"

lemma strip_front_None:
  "find (\<lambda>e. e \<noteq> [] \<and> take (length e) s = e) encs = None \<Longrightarrow> strip_front encs s = s"
  by (subst strip_front.simps) simp

lemma strip_front_Some:
  "find (\<lambda>e. e \<noteq> [] \<and> take (length e) s = e) encs = Some e \<Longrightarrow>
   strip_front encs s = strip_front encs (drop (length e) s)"
  by (subst strip_front.simps) simp

lemma not_strippable_find:
  "not_strippable encs s \<longleftrightarrow> find (\<lambda>e. e \<noteq> [] \<and> take (length e) s = e) encs = None"
  by (auto simp: not_strippable_def find_None_iff)

lemma strip_front_id: "not_strippable encs s \<Longrightarrow> strip_front encs s = s"
  by (simp only: not_strippable_find strip_front_None)

lemma strip_front_stops: "not_strippable encs (strip_front encs s)"
proof (induction encs s rule: strip_front.induct)
  case (1 encs s)
  show ?case
  proof (cases "find (\<lambda>e. e \<noteq> [] \<and> take (length e) s = e) encs")
    case None
    then show ?thesis by (simp only: strip_front_None not_strippable_find)
  next
    case (Some e)
    then show ?thesis using 1 by (simp only: strip_front_Some)
  qed
qed

lemma strip_front_suffix: "\<exists>t. s = t @ strip_front encs s"
proof (induction encs s rule: strip_front.induct)
  case (1 encs s)
  show ?case
  proof (cases "find (\<lambda>e. e \<noteq> [] \<and> take (length e) s = e) encs")
    case None
    then show ?thesis by (simp add: strip_front_None)
  next
    case (Some e)
    then obtain t where "drop (length e) s = t @ strip_front encs s"
      using 1 [OF Some] unfolding strip_front_Some [OF Some] by blast
    then have "take (length e) s @ drop (length e) s = (take (length e) s @ t) @ strip_front encs s"
      by simp
    then show ?thesis unfolding append_take_drop_id by blast
  qed
qed

lemma not_strippable_prefix: "not_strippable encs (b @ t) \<Longrightarrow> not_strippable encs b"
  unfolding not_strippable_def
proof (intro ballI impI)
  fix e
  assume h: "\<forall>e\<in>set encs. e \<noteq> [] \<longrightarrow> take (length e) (b @ t) \<noteq> e" and e: "e \<in> set encs" "e \<noteq> []"
  have "length e \<le> length b" if "take (length e) b = e" using that by (metis length_take min.cobounded1)
  then show "take (length e) b \<noteq> e" using h e by auto
qed

lemma trim_space_prefix: "\<exists>t. strip_front space_encodings s = trim_space s @ t"
proof -
  let ?a = "strip_front space_encodings s"
  obtain u where "rev ?a = u @ strip_front (map rev space_encodings) (rev ?a)"
    using strip_front_suffix by blast
  then have "?a = trim_space s @ rev u"
    unfolding trim_space_def by (metis rev_append rev_rev_ident)
  then show ?thesis by blast
qed

lemma trim_space_idem [simp]: "trim_space (trim_space s) = trim_space s"
proof -
  obtain t where "strip_front space_encodings s = trim_space s @ t" using trim_space_prefix by blast
  then have "not_strippable space_encodings (trim_space s)"
    using strip_front_stops not_strippable_prefix by metis
  then have 1: "strip_front space_encodings (trim_space s) = trim_space s" by (rule strip_front_id)
  have "not_strippable (map rev space_encodings) (rev (trim_space s))"
    unfolding trim_space_def rev_rev_ident by (rule strip_front_stops)
  then show ?thesis
    unfolding trim_space_def [of "trim_space s"] 1 by (simp add: strip_front_id)
qed

lemma trim_space_subset: "set (trim_space s) \<subseteq> set s"
proof -
  obtain t u where "s = u @ strip_front space_encodings s" "strip_front space_encodings s = trim_space s @ t"
    using strip_front_suffix trim_space_prefix by metis
  then have "s = u @ trim_space s @ t" by simp
  then have "set s = set u \<union> set (trim_space s) \<union> set t" by (metis set_append Un_assoc)
  then show ?thesis by blast
qed

lemma trim_space_Nil [simp]: "trim_space [] = []"
  using trim_space_subset [of "[]"] by simp

section \<open>Network names\<close>

lemma split_byte_two: "split_byte c s = [p, q] \<longleftrightarrow> s = p @ c # q \<and> c \<notin> set p \<and> c \<notin> set q"
proof
  assume h: "split_byte c s = [p, q]"
  then have "s = join_with [c] [p, q]" using join_split_byte [of c s] by simp
  moreover have "c \<notin> set p" "c \<notin> set q" using split_byte_parts_no_sep [of _ c s] h by auto
  ultimately show "s = p @ c # q \<and> c \<notin> set p \<and> c \<notin> set q" by simp
qed (simp add: split_byte_append split_byte_no_sep)

definition qualified_name :: "string \<Rightarrow> bool" where
  "qualified_name r \<longleftrightarrow> (\<exists>ns nm. r = ns @ CHR ''/'' # nm \<and> ns \<noteq> [] \<and> nm \<noteq> [] \<and>
     CHR ''/'' \<notin> set ns \<and> CHR ''/'' \<notin> set nm)"

lemma NormalizeNetworkName_qualified:
  "qualified_name r \<Longrightarrow> NormalizeNetworkName t r = Inr r"
  by (auto simp: qualified_name_def NormalizeNetworkName_def split_byte_append split_byte_no_sep)

lemma NormalizeNetworkName_bare:
  "n \<noteq> [] \<Longrightarrow> CHR ''/'' \<notin> set n \<Longrightarrow> NormalizeNetworkName t n = Inr (''default/'' @ n)"
  by (simp add: NormalizeNetworkName_def split_byte_no_sep DefaultNamespace_def)

lemma default_qualified: "n \<noteq> [] \<Longrightarrow> CHR ''/'' \<notin> set n \<Longrightarrow> qualified_name (''default/'' @ n)"
  unfolding qualified_name_def by (intro exI [of _ "''default''"] exI [of _ n]) simp

lemma NormalizeNetworkName_cases:
  assumes "NormalizeNetworkName t n = Inr r"
  shows "(n \<noteq> [] \<and> CHR ''/'' \<notin> set n \<and> r = ''default/'' @ n) \<or> (qualified_name n \<and> r = n)"
proof -
  have "n \<noteq> []" using assms by (auto simp: NormalizeNetworkName_def)
  show ?thesis
  proof (cases "split_byte (CHR ''/'') n")
    case (Cons p ps)
    show ?thesis
    proof (cases ps)
      case Nil
      with \<open>split_byte (CHR ''/'') n = p # ps\<close> have "CHR ''/'' \<notin> set n"
        using split_byte_single by auto
      with \<open>n \<noteq> []\<close> assms show ?thesis by (simp add: NormalizeNetworkName_bare)
    next
      case (Cons q qs)
      with \<open>split_byte (CHR ''/'') n = p # ps\<close> \<open>n \<noteq> []\<close> assms
      have "qs = []" "p \<noteq> []" "q \<noteq> []" "r = n"
        by (auto simp: NormalizeNetworkName_def split: list.splits if_splits)
      with Cons \<open>split_byte (CHR ''/'') n = p # ps\<close> show ?thesis
        unfolding qualified_name_def by (auto simp: split_byte_two)
    qed
  qed simp
qed

lemma NormalizeNetworkName_result: "NormalizeNetworkName t n = Inr r \<Longrightarrow> qualified_name r"
  using NormalizeNetworkName_cases default_qualified by blast

section \<open>The CIDR list\<close>

text \<open>The entries of the flag: the trimmed, non-empty parts between commas.\<close>

definition cidr_entries :: "string \<Rightarrow> string list" where
  "cidr_entries s = filter (\<lambda>t. t \<noteq> []) (map trim_space (split_byte (CHR '','') s))"

abbreviation entry_addr :: "string \<Rightarrow> addr" where
  "entry_addr e \<equiv> snd (the (cidr_entry e))"

abbreviation entry_prefix :: "string \<Rightarrow> ip_prefix" where
  "entry_prefix e \<equiv> fst (the (cidr_entry e))"

text \<open>The documented policy: every entry is a usable unicast address, at most one per family.\<close>

definition cidr_policy :: "string list \<Rightarrow> bool" where
  "cidr_policy es \<longleftrightarrow>
     (\<forall>e\<in>set es. cidr_entry e \<noteq> None \<and> \<not> isInternalOnly (entry_addr e)) \<and>
     length (filter (\<lambda>e. Is4 (entry_addr e)) es) \<le> 1 \<and>
     length (filter (\<lambda>e. Is6 (entry_addr e)) es) \<le> 1"

lemma cidr_entry_valid: "cidr_entry e = Some (p, a) \<Longrightarrow> IsValid a"
  by (auto simp: cidr_entry_def split: option.splits dest: ParseAddr_valid ParsePrefix_Some)

lemma cidr_addr_error_None:
  "IsValid a \<Longrightarrow> cidr_addr_error f t h4 h6 a = None \<longleftrightarrow>
   \<not> isInternalOnly a \<and> \<not> (Is4 a \<and> h4) \<and> \<not> (Is6 a \<and> h6)"
  using addr_family [of a] by (auto simp: cidr_addr_error_def isInternalOnly_def)

definition cidr_result :: "cidr_state \<Rightarrow> string list \<Rightarrow> cidr_state" where
  "cidr_result st es = st\<lparr>configured := configured st \<or> es \<noteq> [],
     hasIPv4 := hasIPv4 st \<or> (\<exists>e\<in>set es. Is4 (entry_addr e)),
     hasIPv6 := hasIPv6 st \<or> (\<exists>e\<in>set es. Is6 (entry_addr e)),
     updatedCidr := updatedCidr st @ es, prefixes := prefixes st @ map entry_prefix es\<rparr>"

definition cidr_policy_from :: "cidr_state \<Rightarrow> string list \<Rightarrow> bool" where
  "cidr_policy_from st es \<longleftrightarrow>
     (\<forall>e\<in>set es. cidr_entry e \<noteq> None \<and> \<not> isInternalOnly (entry_addr e)) \<and>
     length (filter (\<lambda>e. Is4 (entry_addr e)) es) + (if hasIPv4 st then 1 else 0) \<le> 1 \<and>
     length (filter (\<lambda>e. Is6 (entry_addr e)) es) + (if hasIPv6 st then 1 else 0) \<le> 1"

lemma cidr_policy_reject:
  assumes "cidr_entry t = Some (p, a)" "cidr_addr_error f t (hasIPv4 st) (hasIPv6 st) a = Some e"
  shows "\<not> cidr_policy_from st (t # es)"
  using cidr_addr_error_None [OF cidr_entry_valid [OF assms(1)], of f t "hasIPv4 st" "hasIPv6 st"] assms
  by (auto simp: cidr_policy_from_def)

lemma cidr_policy_step:
  assumes "cidr_entry t = Some (p, a)" "cidr_addr_error f t (hasIPv4 st) (hasIPv6 st) a = None"
    and st': "hasIPv4 st' = (hasIPv4 st \<or> Is4 a)" "hasIPv6 st' = (hasIPv6 st \<or> Is6 a)"
  shows "cidr_policy_from st' es \<longleftrightarrow> cidr_policy_from st (t # es)"
  using cidr_addr_error_None [OF cidr_entry_valid [OF assms(1)], of f t "hasIPv4 st" "hasIPv6 st"] assms
    addr_family [OF cidr_entry_valid [OF assms(1)]]
  by (auto simp: cidr_policy_from_def)

lemma nodeIPCIDRLoop_spec:
  "let es = filter (\<lambda>t. t \<noteq> []) (map trim_space parts) in
   (cidr_policy_from st es \<longrightarrow> nodeIPCIDRLoop f st parts = Inr (cidr_result st es)) \<and>
   (\<not> cidr_policy_from st es \<longrightarrow> (\<exists>e. nodeIPCIDRLoop f st parts = Inl e))"
proof (induction f st parts rule: nodeIPCIDRLoop.induct)
  case (1 f st)
  show ?case by (simp add: cidr_policy_from_def cidr_result_def)
next
  case (2 f st part parts)
  let ?t = "trim_space part" and ?es = "filter (\<lambda>t. t \<noteq> []) (map trim_space parts)"
  show ?case
  proof (cases "?t = []")
    case True
    with 2(1) show ?thesis by simp
  next
    case t: False
    show ?thesis
    proof (cases "cidr_entry ?t")
      case None
      with t show ?thesis by (simp add: cidr_policy_from_def)
    next
      case (Some pa)
      obtain p a where pa: "pa = (p, a)" by (cases pa)
      with Some have entry: "cidr_entry ?t = Some (p, a)" by simp
      show ?thesis
      proof (cases "cidr_addr_error f ?t (hasIPv4 st) (hasIPv6 st) a")
        case (Some e)
        with t entry cidr_policy_reject [OF entry Some] show ?thesis by (simp add: Let_def)
      next
        case None
        let ?st = "st\<lparr>configured := True, hasIPv4 := hasIPv4 st \<or> Is4 a, hasIPv6 := hasIPv6 st \<or> Is6 a,
           updatedCidr := updatedCidr st @ [?t], prefixes := prefixes st @ [p]\<rparr>"
        have "cidr_policy_from ?st ?es \<longleftrightarrow> cidr_policy_from st (?t # ?es)"
          using cidr_policy_step [OF entry None] by simp
        moreover have "cidr_result ?st ?es = cidr_result st (?t # ?es)"
          using entry by (simp add: cidr_result_def)
        moreover have "nodeIPCIDRLoop f st (part # parts) = nodeIPCIDRLoop f ?st parts"
          using t entry None by simp
        ultimately show ?thesis
          using 2(2) [OF refl t entry refl None] t by (simp only: Let_def list.map filter.simps) simp
      qed
    qed
  qed
qed

lemma cidr_policy_init: "cidr_policy_from cidr_init es \<longleftrightarrow> cidr_policy es"
  by (simp add: cidr_policy_from_def cidr_policy_def cidr_init_def)

lemma cidr_result_init:
  "configured (cidr_result cidr_init es) \<longleftrightarrow> es \<noteq> []"
  "prefixes (cidr_result cidr_init es) = map entry_prefix es"
  "updatedCidr (cidr_result cidr_init es) = es"
  by (simp_all add: cidr_result_def cidr_init_def)

text \<open>Acceptance is the policy; the last error branch of the source is never taken.\<close>

lemma validateAndParseNodeIPCIDR_spec:
  "let es = cidr_entries (cfgNodeIPCIDR cfg) in
   (cidr_policy es \<longrightarrow> validateAndParseNodeIPCIDR cfg =
      Inr (cfg\<lparr>internalNodeIPCIDRPrefixes := map entry_prefix es, cfgNodeIPCIDR := join_with '','' es\<rparr>)) \<and>
   (\<not> cidr_policy es \<longrightarrow> (\<exists>e. validateAndParseNodeIPCIDR cfg = Inl e))"
  using nodeIPCIDRLoop_spec [of "split_byte (CHR '','') (cfgNodeIPCIDR cfg)" cidr_init "cfgNodeIPCIDR cfg"]
  unfolding cidr_entries_def [symmetric] Let_def cidr_policy_init
  by (auto simp: validateAndParseNodeIPCIDR_def cidr_result_init)

lemma cidr_entries_props:
  "e \<in> set (cidr_entries s) \<Longrightarrow> e \<noteq> [] \<and> trim_space e = e \<and> CHR '','' \<notin> set e"
  using split_byte_parts_no_sep trim_space_subset by (fastforce simp: cidr_entries_def)

lemma cidr_entries_join:
  assumes "\<forall>e\<in>set es. e \<noteq> [] \<and> trim_space e = e \<and> CHR '','' \<notin> set e"
  shows "cidr_entries (join_with '','' es) = es"
proof (cases es)
  case Nil
  then show ?thesis by (simp add: cidr_entries_def)
next
  case (Cons x xs)
  then have "split_byte (CHR '','') (join_with '','' es) = es"
    using split_join_byte [of es "CHR '',''"] assms by simp
  then show ?thesis using assms by (simp add: cidr_entries_def map_idI filter_id_conv)
qed

lemma cidr_entries_idem: "cidr_entries (join_with '','' (cidr_entries s)) = cidr_entries s"
  using cidr_entries_join cidr_entries_props by blast

section \<open>The exclude list\<close>

definition exclude_entries :: "string list \<Rightarrow> string list" where
  "exclude_entries xs = filter (\<lambda>t. t \<noteq> []) (map trim_space xs)"

lemma excludeRangesLoop_spec:
  "excludeRangesLoop clean pfxs xs = Inr (c, ps) \<longleftrightarrow>
   (\<forall>e\<in>set (exclude_entries xs). \<exists>p. parseStringToIPPrefix e = Inr p) \<and>
   c = clean @ exclude_entries xs \<and> ps = pfxs @ map (\<lambda>e. projr (parseStringToIPPrefix e)) (exclude_entries xs)"
  by (induction clean pfxs xs rule: excludeRangesLoop.induct)
    (auto simp: exclude_entries_def Let_def split: sum.splits)

lemma exclude_entries_idem [simp]: "exclude_entries (exclude_entries xs) = exclude_entries xs"
  by (induction xs) (auto simp: exclude_entries_def)

lemma validateExclude_spec:
  "validateAndParseNodeExcludeIPRanges cfg = Inr cfg' \<longleftrightarrow>
   (\<forall>e\<in>set (exclude_entries (cfgNodeExcludeIPRanges cfg)). \<exists>p. parseStringToIPPrefix e = Inr p) \<and>
   cfg' = cfg\<lparr>cfgNodeExcludeIPRanges := exclude_entries (cfgNodeExcludeIPRanges cfg),
              internalNodeExcludeIPPrefixes :=
                map (\<lambda>e. projr (parseStringToIPPrefix e)) (exclude_entries (cfgNodeExcludeIPRanges cfg))\<rparr>"
proof -
  let ?es = "exclude_entries (cfgNodeExcludeIPRanges cfg)"
  let ?ps = "map (\<lambda>e. projr (parseStringToIPPrefix e)) ?es"
  note spec = excludeRangesLoop_spec [of "[]" "[]" "cfgNodeExcludeIPRanges cfg", simplified]
  show ?thesis
  proof (cases "\<forall>e\<in>set ?es. \<exists>p. parseStringToIPPrefix e = Inr p")
    case True
    then have "excludeRangesLoop [] [] (cfgNodeExcludeIPRanges cfg) = Inr (?es, ?ps)"
      by (simp only: spec simp_thms)
    then show ?thesis using True by (auto simp: validateAndParseNodeExcludeIPRanges_def)
  next
    case False
    then have "\<nexists>c ps. excludeRangesLoop [] [] (cfgNodeExcludeIPRanges cfg) = Inr (c, ps)"
      using spec by blast
    then obtain e where "excludeRangesLoop [] [] (cfgNodeExcludeIPRanges cfg) = Inl e"
      by (cases "excludeRangesLoop [] [] (cfgNodeExcludeIPRanges cfg)") auto
    with False show ?thesis by (auto simp: validateAndParseNodeExcludeIPRanges_def)
  qed
qed

section \<open>The effective configuration\<close>

text \<open>What the components rely on after boot.\<close>

definition config_ok :: "config \<Rightarrow> bool" where
  "config_ok cfg \<longleftrightarrow>
     (cfgManagementNetwork cfg = [] \<or> qualified_name (cfgManagementNetwork cfg)) \<and>
     cidr_policy (cidr_entries (cfgNodeIPCIDR cfg)) \<and>
     join_with '','' (cidr_entries (cfgNodeIPCIDR cfg)) = cfgNodeIPCIDR cfg \<and>
     internalNodeIPCIDRPrefixes cfg = map entry_prefix (cidr_entries (cfgNodeIPCIDR cfg)) \<and>
     exclude_entries (cfgNodeExcludeIPRanges cfg) = cfgNodeExcludeIPRanges cfg \<and>
     (\<forall>e\<in>set (cfgNodeExcludeIPRanges cfg). \<exists>p. parseStringToIPPrefix e = Inr p) \<and>
     internalNodeExcludeIPPrefixes cfg =
       map (\<lambda>e. projr (parseStringToIPPrefix e)) (cfgNodeExcludeIPRanges cfg)"

lemma validateCIDR_ok:
  assumes "validateAndParseNodeIPCIDR cfg = Inr cfg'"
  shows "cidr_policy (cidr_entries (cfgNodeIPCIDR cfg))"
    "cfg' = cfg\<lparr>internalNodeIPCIDRPrefixes := map entry_prefix (cidr_entries (cfgNodeIPCIDR cfg)),
       cfgNodeIPCIDR := join_with '','' (cidr_entries (cfgNodeIPCIDR cfg))\<rparr>"
  using validateAndParseNodeIPCIDR_spec [of cfg] assms by (auto simp: Let_def)

lemma validate_network_settings_ok:
  assumes "validate_network_settings cfg = (None, cfg')"
  shows "config_ok cfg'" "cfgClusterName cfg' = cfgClusterName cfg"
    "cfgCloudProviderControllers cfg' = cfgCloudProviderControllers cfg"
    "cfgDisableAnnotationAlphaProvidedIPAddr cfg' = cfgDisableAnnotationAlphaProvidedIPAddr cfg"
    "cfgDisableVMIController cfg' = cfgDisableVMIController cfg"
    "cfgShowFullHelpOnError cfg' = cfgShowFullHelpOnError cfg"
proof -
  obtain cfg1 cfg2 where
    1: "cfg1 = cfg \<and> cfgManagementNetwork cfg = [] \<or>
        (\<exists>n. NormalizeNetworkName NetworkTypeManagement (cfgManagementNetwork cfg) = Inr n \<and>
         cfg1 = cfg\<lparr>cfgManagementNetwork := n\<rparr>)"
    and 2: "validateAndParseNodeIPCIDR cfg1 = Inr cfg2"
    and 3: "validateAndParseNodeExcludeIPRanges cfg2 = Inr cfg'"
    using assms by (auto simp: validate_network_settings_def split: sum.splits if_splits)
  have m: "cfgManagementNetwork cfg1 = [] \<or> qualified_name (cfgManagementNetwork cfg1)"
    using 1 NormalizeNetworkName_result by auto
  show "config_ok cfg'"
    using m validateCIDR_ok [OF 2] 3 [unfolded validateExclude_spec]
    by (auto simp: config_ok_def cidr_entries_idem)
  show "cfgClusterName cfg' = cfgClusterName cfg"
    "cfgCloudProviderControllers cfg' = cfgCloudProviderControllers cfg"
    "cfgDisableAnnotationAlphaProvidedIPAddr cfg' = cfgDisableAnnotationAlphaProvidedIPAddr cfg"
    "cfgDisableVMIController cfg' = cfgDisableVMIController cfg"
    "cfgShowFullHelpOnError cfg' = cfgShowFullHelpOnError cfg"
    using 1 validateCIDR_ok(2) [OF 2] 3 [unfolded validateExclude_spec] by auto
qed

text \<open>Validation leaves a valid configuration unchanged.\<close>

lemma validate_network_settings_fixpoint:
  assumes "config_ok cfg"
  shows "validate_network_settings cfg = (None, cfg)"
proof -
  have "validateAndParseNodeIPCIDR cfg = Inr cfg"
    using assms validateAndParseNodeIPCIDR_spec [of cfg] by (simp add: config_ok_def Let_def)
  moreover have "validateAndParseNodeExcludeIPRanges cfg = Inr cfg"
    using assms unfolding validateExclude_spec by (simp add: config_ok_def)
  moreover have "cfgManagementNetwork cfg \<noteq> [] \<Longrightarrow>
      NormalizeNetworkName NetworkTypeManagement (cfgManagementNetwork cfg) = Inr (cfgManagementNetwork cfg)"
    using assms NormalizeNetworkName_qualified by (auto simp: config_ok_def)
  ultimately show ?thesis by (simp add: validate_network_settings_def)
qed

lemma Sync_success:
  assumes "SyncAndValidateHarvesterConfig fl c0 = (None, cfg)"
  shows "\<exists>c raw. validate_network_settings c = (None, cfg) \<and>
    cfgClusterName c = fst (normalizeAndWarnClusterName raw)"
  using assms unfolding SyncAndValidateHarvesterConfig_def assign_def
  by (simp split: sum.splits) (rule exI, rule conjI, assumption, auto)

lemma normalize_cluster_idem:
  "fst (normalizeAndWarnClusterName (fst (normalizeAndWarnClusterName raw))) =
   fst (normalizeAndWarnClusterName raw)"
  by (simp add: normalizeAndWarnClusterName_def Let_def trim_set_idem)

end
