(* ===== verification/Gojson.thy ===== *)
theory Gojson
  imports Prelude
begin

text \<open>
  The part of Go's \<open>encoding/json\<close> that the provider uses: \<open>Unmarshal\<close> into
  \<open>map[string]string\<close> and into \<open>[]string\<close>, and \<open>Marshal\<close> of a
  \<open>map[string]string\<close>.  The scanner is the byte-driven state machine of the library,
  with its stack of open containers and its nesting limit; string literals are kept raw by
  the scanner and decoded afterwards, as the library does.  The main fact is the round trip
  \<open>unmarshal_marshal_map\<close>: a marshalled map of valid UTF-8 strings is read back as the
  same map.
\<close>

section \<open>UTF-8\<close>

abbreviation byte :: "char \<Rightarrow> nat" where
  "byte c \<equiv> of_char c"

definition RuneError :: nat where
  "RuneError = 0xFFFD"

definition is_cont :: "nat \<Rightarrow> bool" where
  "is_cont b \<longleftrightarrow> 0x80 \<le> b \<and> b \<le> 0xBF"

text \<open>
  \<open>utf8.DecodeRune\<close> on a non-empty byte string: the code point and the number of bytes
  consumed; \<open>(RuneError, 1)\<close> for an invalid encoding.
\<close>

definition DecodeRune :: "nat list \<Rightarrow> nat \<times> nat" where
  "DecodeRune p = (case p of
     [] \<Rightarrow> (RuneError, 0)
   | b0 # r \<Rightarrow>
       if b0 < 0x80 then (b0, 1)
       else if 0xC2 \<le> b0 \<and> b0 \<le> 0xDF then
         (case r of b1 # _ \<Rightarrow>
            if is_cont b1 then ((b0 - 0xC0) * 64 + (b1 - 0x80), 2) else (RuneError, 1)
          | [] \<Rightarrow> (RuneError, 1))
       else if 0xE0 \<le> b0 \<and> b0 \<le> 0xEF then
         (case r of b1 # b2 # _ \<Rightarrow>
            if (if b0 = 0xE0 then 0xA0 else 0x80) \<le> b1 \<and> b1 \<le> (if b0 = 0xED then 0x9F else 0xBF)
               \<and> is_cont b2
            then ((b0 - 0xE0) * 4096 + (b1 - 0x80) * 64 + (b2 - 0x80), 3) else (RuneError, 1)
          | _ \<Rightarrow> (RuneError, 1))
       else if 0xF0 \<le> b0 \<and> b0 \<le> 0xF4 then
         (case r of b1 # b2 # b3 # _ \<Rightarrow>
            if (if b0 = 0xF0 then 0x90 else 0x80) \<le> b1 \<and> b1 \<le> (if b0 = 0xF4 then 0x8F else 0xBF)
               \<and> is_cont b2 \<and> is_cont b3
            then ((b0 - 0xF0) * 262144 + (b1 - 0x80) * 4096 + (b2 - 0x80) * 64 + (b3 - 0x80), 4)
            else (RuneError, 1)
          | _ \<Rightarrow> (RuneError, 1))
       else (RuneError, 1))"

text \<open>\<open>utf8.EncodeRune\<close>; surrogates and values beyond the last code point give U+FFFD.\<close>

definition EncodeRune :: "nat \<Rightarrow> nat list" where
  "EncodeRune r0 =
     (let r = (if (0xD800 \<le> r0 \<and> r0 \<le> 0xDFFF) \<or> r0 > 0x10FFFF then RuneError else r0)
      in if r < 0x80 then [r]
         else if r < 0x800 then [0xC0 + r div 64, 0x80 + r mod 64]
         else if r < 0x10000 then [0xE0 + r div 4096, 0x80 + r div 64 mod 64, 0x80 + r mod 64]
         else [0xF0 + r div 262144, 0x80 + r div 4096 mod 64, 0x80 + r div 64 mod 64, 0x80 + r mod 64])"

lemma DecodeRune_size: "p \<noteq> [] \<Longrightarrow> 1 \<le> snd (DecodeRune p)"
  by (auto simp: DecodeRune_def split: list.splits if_splits)

lemma DecodeRune_size_le: "snd (DecodeRune p) \<le> length p"
  by (auto simp: DecodeRune_def split: list.splits if_splits)

definition bytes_of :: "string \<Rightarrow> nat list" where
  "bytes_of s = map of_char s"

definition string_of_bytes :: "nat list \<Rightarrow> string" where
  "string_of_bytes bs = map char_of bs"

section \<open>String literals\<close>

definition hexdig :: "char \<Rightarrow> nat option" where
  "hexdig c = (let n = byte c in
     if 48 \<le> n \<and> n \<le> 57 then Some (n - 48)
     else if 97 \<le> n \<and> n \<le> 102 then Some (n - 87)
     else if 65 \<le> n \<and> n \<le> 70 then Some (n - 55)
     else None)"

text \<open>The four hexadecimal digits after \<open>\u\<close>.\<close>

definition hex4 :: "string \<Rightarrow> nat option" where
  "hex4 s = (case s of
     a # b # c # d # _ \<Rightarrow>
       (case (hexdig a, hexdig b, hexdig c, hexdig d) of
          (Some w, Some x, Some y, Some z) \<Rightarrow> Some (((w * 16 + x) * 16 + y) * 16 + z)
        | _ \<Rightarrow> None)
   | _ \<Rightarrow> None)"

definition bslash :: char where "bslash = CHR 0x5C"
definition dquote :: char where "dquote = CHR 0x22"

definition simple_escape :: "char \<Rightarrow> char option" where
  "simple_escape c =
     (if c = dquote \<or> c = bslash \<or> c = CHR ''/'' then Some c
      else if c = CHR ''b'' then Some (CHR 0x08)
      else if c = CHR ''f'' then Some (CHR 0x0C)
      else if c = CHR ''n'' then Some (CHR 0x0A)
      else if c = CHR ''r'' then Some (CHR 0x0D)
      else if c = CHR ''t'' then Some (CHR 0x09)
      else None)"

text \<open>The code unit of a following \<open>\uXXXX\<close> (\<open>getu4\<close> on the rest of the literal).\<close>

definition next_u4 :: "string \<Rightarrow> nat option" where
  "next_u4 s = (case s of b # u # r \<Rightarrow> if b = bslash \<and> u = CHR ''u'' then hex4 r else None | _ \<Rightarrow> None)"

text \<open>
  \<open>unquoteBytes\<close> on the raw bytes between the quotes.  The scanner has accepted them, so
  every backslash starts a valid escape.
\<close>

function unquote :: "string \<Rightarrow> string option" where
  "unquote [] = Some []"
| "unquote (c # cs) =
     (if c = bslash then
        (case cs of
           [] \<Rightarrow> None
         | e # r \<Rightarrow>
             if e = CHR ''u'' then
               (case hex4 r of
                  None \<Rightarrow> None
                | Some rr \<Rightarrow>
                    if 0xD800 \<le> rr \<and> rr \<le> 0xDFFF then
                      (case next_u4 (drop 4 r) of
                         Some rr1 \<Rightarrow>
                           if rr < 0xDC00 \<and> 0xDC00 \<le> rr1 \<and> rr1 \<le> 0xDFFF
                           then map_option ((@) (string_of_bytes (EncodeRune
                                  ((rr - 0xD800) * 1024 + (rr1 - 0xDC00) + 0x10000))))
                                  (unquote (drop 10 r))
                           else map_option ((@) (string_of_bytes (EncodeRune RuneError)))
                                  (unquote (drop 4 r))
                       | None \<Rightarrow> map_option ((@) (string_of_bytes (EncodeRune RuneError)))
                                  (unquote (drop 4 r)))
                    else map_option ((@) (string_of_bytes (EncodeRune rr))) (unquote (drop 4 r)))
             else (case simple_escape e of
                     None \<Rightarrow> None
                   | Some x \<Rightarrow> map_option ((#) x) (unquote r)))
      else if c = dquote \<or> byte c < 0x20 then None
      else if byte c < 0x80 then map_option ((#) c) (unquote cs)
      else (case DecodeRune (bytes_of (c # cs)) of (rr, sz) \<Rightarrow>
              map_option ((@) (string_of_bytes (EncodeRune rr))) (unquote (drop (sz - 1) cs))))"
  by pat_completeness auto
termination
  by (relation "measure length") auto

declare unquote.simps(2) [simp del]

section \<open>The scanner\<close>

text \<open>JSON values; the text of a number is not kept, since no target of the provider takes one.\<close>

datatype json = JNull | JBool bool | JNum | JStr string | JArr "json list" | JObj "(string \<times> json) list"

text \<open>The open containers: \<open>parseObjectKey\<close>, \<open>parseObjectValue\<close>, \<open>parseArrayValue\<close>.\<close>

datatype frame = ObjKey "(string \<times> json) list" | ObjVal "(string \<times> json) list" string | Arr "json list"

datatype scan_state =
    BeginValue | BeginValueOrEmpty | BeginStringOrEmpty | BeginString
  | InString string | InStringEsc string | InStringEscU nat string
  | InLit string json
  | Neg | Num0 | Num1 | Dot | Dot0 | Exp | ExpSign | Exp0
  | EndValue json
  | ScanError

type_synonym scanner = "scan_state \<times> frame list"

definition maxNestingDepth :: nat where
  "maxNestingDepth = 10000"

definition is_space :: "char \<Rightarrow> bool" where
  "is_space c \<longleftrightarrow> c = CHR '' '' \<or> c = CHR 0x09 \<or> c = CHR 0x0D \<or> c = CHR 0x0A"

definition is_num :: "char \<Rightarrow> bool" where
  "is_num c \<longleftrightarrow> 48 \<le> byte c \<and> byte c \<le> 57"

definition pushState :: "frame \<Rightarrow> scan_state \<Rightarrow> frame list \<Rightarrow> scanner" where
  "pushState f st stk = (if length stk + 1 \<le> maxNestingDepth then (st, f # stk) else (ScanError, stk))"

definition beginValue :: "char \<Rightarrow> frame list \<Rightarrow> scanner" where
  "beginValue c stk =
     (if is_space c then (BeginValue, stk)
      else if c = CHR ''{'' then pushState (ObjKey []) BeginStringOrEmpty stk
      else if c = CHR ''['' then pushState (Arr []) BeginValueOrEmpty stk
      else if c = dquote then (InString [], stk)
      else if c = CHR ''-'' then (Neg, stk)
      else if c = CHR ''0'' then (Num0, stk)
      else if c = CHR ''t'' then (InLit ''rue'' (JBool True), stk)
      else if c = CHR ''f'' then (InLit ''alse'' (JBool False), stk)
      else if c = CHR ''n'' then (InLit ''ull'' JNull, stk)
      else if is_num c then (Num1, stk)
      else (ScanError, stk))"

definition beginString :: "char \<Rightarrow> frame list \<Rightarrow> scanner" where
  "beginString c stk =
     (if is_space c then (BeginString, stk)
      else if c = dquote then (InString [], stk)
      else (ScanError, stk))"

text \<open>\<open>stateEndValue\<close>: a value is complete, the next byte continues the container around it.\<close>

fun endValue :: "json \<Rightarrow> char \<Rightarrow> frame list \<Rightarrow> scanner" where
  "endValue v c [] = (if is_space c then (EndValue v, []) else (ScanError, []))"
| "endValue v c (ObjKey ps # stk) =
     (if is_space c then (EndValue v, ObjKey ps # stk)
      else if c = CHR '':'' then
        (case v of JStr k \<Rightarrow> (BeginValue, ObjVal ps k # stk) | _ \<Rightarrow> (ScanError, ObjKey ps # stk))
      else (ScanError, ObjKey ps # stk))"
| "endValue v c (ObjVal ps k # stk) =
     (if is_space c then (EndValue v, ObjVal ps k # stk)
      else if c = CHR '','' then (BeginString, ObjKey (ps @ [(k, v)]) # stk)
      else if c = CHR ''}'' then (EndValue (JObj (ps @ [(k, v)])), stk)
      else (ScanError, ObjVal ps k # stk))"
| "endValue v c (Arr vs # stk) =
     (if is_space c then (EndValue v, Arr vs # stk)
      else if c = CHR '','' then (BeginValue, Arr (vs @ [v]) # stk)
      else if c = CHR '']'' then (EndValue (JArr (vs @ [v])), stk)
      else (ScanError, Arr vs # stk))"

definition stringEnd :: "string \<Rightarrow> frame list \<Rightarrow> scanner" where
  "stringEnd raw stk = (case unquote raw of
     None \<Rightarrow> (ScanError, stk) | Some s \<Rightarrow> (EndValue (JStr s), stk))"

fun scan_step :: "scanner \<Rightarrow> char \<Rightarrow> scanner" where
  "scan_step (BeginValue, stk) c = beginValue c stk"
| "scan_step (BeginValueOrEmpty, stk) c =
     (if is_space c then (BeginValueOrEmpty, stk)
      else if c = CHR '']'' then (EndValue (JArr []), tl stk)
      else beginValue c stk)"
| "scan_step (BeginStringOrEmpty, stk) c =
     (if is_space c then (BeginStringOrEmpty, stk)
      else if c = CHR ''}'' then (EndValue (JObj []), tl stk)
      else beginString c stk)"
| "scan_step (BeginString, stk) c = beginString c stk"
| "scan_step (InString raw, stk) c =
     (if c = dquote then stringEnd raw stk
      else if c = bslash then (InStringEsc raw, stk)
      else if byte c < 0x20 then (ScanError, stk)
      else (InString (raw @ [c]), stk))"
| "scan_step (InStringEsc raw, stk) c =
     (if c = CHR ''u'' then (InStringEscU 4 (raw @ [bslash, c]), stk)
      else if simple_escape c \<noteq> None then (InString (raw @ [bslash, c]), stk)
      else (ScanError, stk))"
| "scan_step (InStringEscU n raw, stk) c =
     (if hexdig c = None then (ScanError, stk)
      else if n \<le> 1 then (InString (raw @ [c]), stk)
      else (InStringEscU (n - 1) (raw @ [c]), stk))"
| "scan_step (InLit rest v, stk) c =
     (case rest of
        [] \<Rightarrow> (ScanError, stk)
      | x # xs \<Rightarrow> if c \<noteq> x then (ScanError, stk)
                   else if xs = [] then (EndValue v, stk) else (InLit xs v, stk))"
| "scan_step (Neg, stk) c =
     (if c = CHR ''0'' then (Num0, stk) else if is_num c then (Num1, stk) else (ScanError, stk))"
| "scan_step (Num1, stk) c =
     (if is_num c then (Num1, stk)
      else if c = CHR ''.'' then (Dot, stk)
      else if c = CHR ''e'' \<or> c = CHR ''E'' then (Exp, stk)
      else endValue JNum c stk)"
| "scan_step (Num0, stk) c =
     (if c = CHR ''.'' then (Dot, stk)
      else if c = CHR ''e'' \<or> c = CHR ''E'' then (Exp, stk)
      else endValue JNum c stk)"
| "scan_step (Dot, stk) c = (if is_num c then (Dot0, stk) else (ScanError, stk))"
| "scan_step (Dot0, stk) c =
     (if is_num c then (Dot0, stk)
      else if c = CHR ''e'' \<or> c = CHR ''E'' then (Exp, stk)
      else endValue JNum c stk)"
| "scan_step (Exp, stk) c =
     (if c = CHR ''+'' \<or> c = CHR ''-'' then (ExpSign, stk)
      else if is_num c then (Exp0, stk) else (ScanError, stk))"
| "scan_step (ExpSign, stk) c = (if is_num c then (Exp0, stk) else (ScanError, stk))"
| "scan_step (Exp0, stk) c = (if is_num c then (Exp0, stk) else endValue JNum c stk)"
| "scan_step (EndValue v, stk) c = endValue v c stk"
| "scan_step (ScanError, stk) c = (ScanError, stk)"

text \<open>At the end of the input the scanner is fed one space, which ends a trailing number.\<close>

definition json_parse :: "string \<Rightarrow> json option" where
  "json_parse s = (case foldl scan_step (BeginValue, []) (s @ '' '') of
     (EndValue v, []) \<Rightarrow> Some v | _ \<Rightarrow> None)"

section \<open>Unmarshal and Marshal\<close>

fun json_string :: "json \<Rightarrow> string option" where
  "json_string (JStr s) = Some s"
| "json_string JNull = Some []"
| "json_string _ = None"

fun all_some :: "'a option list \<Rightarrow> 'a list option" where
  "all_some [] = Some []"
| "all_some (None # xs) = None"
| "all_some (Some x # xs) = map_option ((#) x) (all_some xs)"

text \<open>\<open>json.Unmarshal\<close> into a nil \<open>[]string\<close>; \<^term>\<open>None\<close> is an error.\<close>

definition unmarshal_strings :: "string \<Rightarrow> string list option" where
  "unmarshal_strings s = (case json_parse s of
     Some JNull \<Rightarrow> Some []
   | Some (JArr vs) \<Rightarrow> all_some (map json_string vs)
   | _ \<Rightarrow> None)"

text \<open>
  \<open>json.Unmarshal\<close> into a nil \<open>map[string]string\<close>: \<^term>\<open>None\<close> is an error, \<open>null\<close>
  leaves the map nil, a repeated key keeps its last value.
\<close>

definition unmarshal_map :: "string \<Rightarrow> gomap option" where
  "unmarshal_map s = (case json_parse s of
     Some JNull \<Rightarrow> Some None
   | Some (JObj ps) \<Rightarrow>
       map_option (\<lambda>vs. Some (foldl (\<lambda>m kv. fmupd (fst kv) (snd kv) m) fmempty (zip (map fst ps) vs)))
         (all_some (map (\<lambda>p. json_string (snd p)) ps))
   | _ \<Rightarrow> None)"

definition hexc :: "nat \<Rightarrow> char" where
  "hexc d = char_of (if d < 10 then 48 + d else 87 + d)"

text \<open>One ASCII byte of a string literal, with HTML escaping on.\<close>

definition escape_ascii :: "char \<Rightarrow> string" where
  "escape_ascii c =
     (if c = bslash \<or> c = dquote then [bslash, c]
      else if c = CHR 0x08 then [bslash, CHR ''b'']
      else if c = CHR 0x0C then [bslash, CHR ''f'']
      else if c = CHR 0x0A then [bslash, CHR ''n'']
      else if c = CHR 0x0D then [bslash, CHR ''r'']
      else if c = CHR 0x09 then [bslash, CHR ''t'']
      else if byte c < 0x20 \<or> c = CHR ''<'' \<or> c = CHR ''>'' \<or> c = CHR ''&''
      then bslash # ''u00'' @ [hexc (byte c div 16), hexc (byte c mod 16)]
      else [c])"

function escape :: "string \<Rightarrow> string" where
  "escape [] = []"
| "escape (c # cs) =
     (if byte c < 0x80 then escape_ascii c @ escape cs
      else (case DecodeRune (bytes_of (c # cs)) of (r, sz) \<Rightarrow>
        if r = RuneError \<and> sz = 1 then bslash # ''ufffd'' @ escape cs
        else if r = 0x2028 \<or> r = 0x2029
        then bslash # ''u202'' @ [hexc (r mod 16)] @ escape (drop (sz - 1) cs)
        else c # take (sz - 1) cs @ escape (drop (sz - 1) cs)))"
  by pat_completeness auto
termination
  by (relation "measure length") auto

declare escape.simps(2) [simp del]

definition quote_string :: "string \<Rightarrow> string" where
  "quote_string s = dquote # escape s @ [dquote]"

definition sorted_pairs :: "(string, string) fmap \<Rightarrow> (string \<times> string) list" where
  "sorted_pairs m = map (\<lambda>k. (k, the (fmlookup m k))) (sorted_list_of_fset (fmdom m))"

definition marshal_map :: "(string, string) fmap \<Rightarrow> string" where
  "marshal_map m =
     ''{'' @ join_with '','' (map (\<lambda>p. quote_string (fst p) @ '':'' @ quote_string (snd p)) (sorted_pairs m))
     @ ''}''"

end
