(* ===== verification/Gojson_Facts.thy ===== *)
theory Gojson_Facts
  imports Gojson
begin

text \<open>
  Facts on the JSON model: valid UTF-8 text survives escaping and unquoting, the scanner
  consumes an escaped literal as one literal, and a marshalled map is read back unchanged.
\<close>

section \<open>Valid UTF-8\<close>

text \<open>\<open>utf8.ValidString\<close>\<close>

function utf8_valid :: "string \<Rightarrow> bool" where
  "utf8_valid [] = True"
| "utf8_valid (c # cs) =
     (if byte c < 0x80 then utf8_valid cs
      else 1 < snd (DecodeRune (bytes_of (c # cs))) \<and>
           utf8_valid (drop (snd (DecodeRune (bytes_of (c # cs))) - 1) cs))"
  by pat_completeness auto
termination
  by (relation "measure length") auto

declare utf8_valid.simps(2) [simp del]

lemma utf8_valid_ascii: "\<forall>c\<in>set s. byte c < 0x80 \<Longrightarrow> utf8_valid s"
  by (induction s) (auto simp: utf8_valid.simps(2))

lemma char_of_byte [simp]: "char_of (byte c) = c"
  by simp

lemma string_of_bytes_of [simp]: "string_of_bytes (bytes_of s) = s"
  by (simp add: string_of_bytes_def bytes_of_def comp_def)

lemma take_bytes_of: "take n (bytes_of s) = bytes_of (take n s)"
  by (simp add: bytes_of_def take_map)

lemma two_digits: "(x * 64 + y) div 64 = x" "(x * 64 + y) mod 64 = y" if "y < 64" for x y :: nat
  using that by auto

lemma encode2:
  "2 \<le> x \<Longrightarrow> x < 32 \<Longrightarrow> y < 64 \<Longrightarrow> EncodeRune (x * 64 + y) = [0xC0 + x, 0x80 + y]"
  by (simp add: EncodeRune_def two_digits)

lemma encode3:
  assumes "x < 16" "y < 64" "z < 64" "x = 0 \<longrightarrow> 32 \<le> y" "x = 13 \<longrightarrow> y < 32"
  shows "EncodeRune (x * 4096 + y * 64 + z) = [0xE0 + x, 0x80 + y, 0x80 + z]"
proof -
  let ?r = "x * 4096 + y * 64 + z"
  have "?r = (x * 64 + y) * 64 + z" by simp
  then have d: "?r div 64 = x * 64 + y" "?r mod 64 = z" using assms(3) by (simp_all only: two_digits)
  have "?r div 4096 = ?r div 64 div 64" by (simp flip: div_mult2_eq)
  then have d2: "?r div 4096 = x" using d assms(2) by (simp only: two_digits)
  have "0x800 \<le> ?r" "?r < 0x10000" "\<not> (0xD800 \<le> ?r \<and> ?r \<le> 0xDFFF)"
    using assms by (cases "x = 0"; cases "x < 13"; cases "x = 13"; simp)+
  then show ?thesis using d d2 assms by (auto simp: EncodeRune_def Let_def two_digits)
qed

lemma encode4:
  assumes "x < 5" "y < 64" "z < 64" "w < 64" "x = 0 \<longrightarrow> 16 \<le> y" "x = 4 \<longrightarrow> y < 16"
  shows "EncodeRune (x * 262144 + y * 4096 + z * 64 + w) = [0xF0 + x, 0x80 + y, 0x80 + z, 0x80 + w]"
proof -
  let ?r = "x * 262144 + y * 4096 + z * 64 + w"
  have "?r = ((x * 64 + y) * 64 + z) * 64 + w" by simp
  then have d: "?r div 64 = (x * 64 + y) * 64 + z" "?r mod 64 = w" using assms(4) by (simp_all only: two_digits)
  have d1: "?r div 64 mod 64 = z" using d assms(3) by (simp only: two_digits)
  have "?r div 4096 = ?r div 64 div 64" by (simp flip: div_mult2_eq)
  then have d2: "?r div 4096 = x * 64 + y" using d assms(3) by (simp only: two_digits)
  have "?r div 262144 = ?r div 4096 div 64" by (simp flip: div_mult2_eq)
  then have d3: "?r div 262144 = x" using d2 assms(2) by (simp only: two_digits)
  have "0x10000 \<le> ?r" "?r \<le> 0x10FFFF"
    using assms by (cases "x = 0"; cases "x = 4"; simp)+
  moreover have "?r div 4096 mod 64 = y" using d2 assms(2) by (simp only: two_digits)
  ultimately show ?thesis using d(2) d1 d3 by (simp add: EncodeRune_def)
qed

text \<open>A multi-byte decoding: the bytes are above ASCII, and encoding gives them back.\<close>

lemma DecodeRune_multi:
  assumes "DecodeRune p = (r, n)" "1 < n"
  shows "EncodeRune r = take n p \<and> (\<forall>b\<in>set (take n p). 0x80 \<le> b) \<and> (\<forall>q. DecodeRune (take n p @ q) = (r, n))"
proof -
  obtain b0 p1 where p: "p = b0 # p1" using assms by (cases p) (auto simp: DecodeRune_def)
  have hi: "\<not> b0 < 0x80" using assms p by (auto simp: DecodeRune_def split: if_splits)
  consider (two) "0xC2 \<le> b0" "b0 \<le> 0xDF" | (three) "0xE0 \<le> b0" "b0 \<le> 0xEF" | (four) "0xF0 \<le> b0" "b0 \<le> 0xF4"
    using assms p hi by (force simp: DecodeRune_def split: if_splits)
  then show ?thesis
  proof cases
    case two
    with assms p obtain b1 p2 where q: "p1 = b1 # p2" "is_cont b1" "n = 2"
      "r = (b0 - 0xC0) * 64 + (b1 - 0x80)"
      by (cases p1) (auto simp: DecodeRune_def split: if_splits)
    then show ?thesis using two p encode2 [of "b0 - 0xC0" "b1 - 0x80"]
      by (auto simp: is_cont_def DecodeRune_def)
  next
    case three
    with assms p obtain b1 b2 p3 where q: "p1 = b1 # b2 # p3" "n = 3"
      "(if b0 = 0xE0 then 0xA0 else 0x80) \<le> b1 \<and> b1 \<le> (if b0 = 0xED then 0x9F else 0xBF) \<and> is_cont b2"
      "r = (b0 - 0xE0) * 4096 + (b1 - 0x80) * 64 + (b2 - 0x80)"
      by (cases p1; cases "tl p1") (auto simp: DecodeRune_def split: if_splits)
    then have "EncodeRune r = [b0, b1, b2]"
      using three encode3 [of "b0 - 0xE0" "b1 - 0x80" "b2 - 0x80"]
      by (auto simp: is_cont_def split: if_splits)
    with q three p show ?thesis by (auto simp: DecodeRune_def is_cont_def split: if_splits)
  next
    case four
    with assms p obtain b1 b2 b3 p4 where q: "p1 = b1 # b2 # b3 # p4" "n = 4"
      "(if b0 = 0xF0 then 0x90 else 0x80) \<le> b1 \<and> b1 \<le> (if b0 = 0xF4 then 0x8F else 0xBF) \<and> is_cont b2 \<and> is_cont b3"
      "r = (b0 - 0xF0) * 262144 + (b1 - 0x80) * 4096 + (b2 - 0x80) * 64 + (b3 - 0x80)"
      by (cases p1; cases "tl p1"; cases "tl (tl p1)") (auto simp: DecodeRune_def split: if_splits)
    then have "EncodeRune r = [b0, b1, b2, b3]"
      using four encode4 [of "b0 - 0xF0" "b1 - 0x80" "b2 - 0x80" "b3 - 0x80"]
      by (auto simp: is_cont_def split: if_splits)
    with q four p show ?thesis by (auto simp: DecodeRune_def is_cont_def split: if_splits)
  qed
qed

section \<open>Literals are read back\<close>

lemma byte_less_256 [simp]: "byte c < 256"
  by (metis of_char_mod_256 mod_less_divisor zero_less_numeral)

lemma hexdig_hexc [simp]: "d < 16 \<Longrightarrow> hexdig (hexc d) = Some d"
  by (auto simp: hexdig_def hexc_def Let_def)

lemma hex_digit_consts [simp]:
  "hexdig (CHR ''0'') = Some 0" "hexdig (CHR ''2'') = Some 2" "hexdig (CHR ''f'') = Some 15"
  "hexdig (CHR ''d'') = Some 13"
  by (simp_all add: hexdig_def)

lemma byte_split: "byte c div 16 < 16" "byte c mod 16 < 16" "byte c div 16 * 16 + byte c mod 16 = byte c"
  using byte_less_256 [of c] less_mult_imp_div_less [of "byte c" 16 16] by auto

lemma escape_ascii_cases:
  "(\<exists>x. escape_ascii c = [bslash, x] \<and> simple_escape x = Some c \<and> x \<noteq> CHR ''u'') \<or>
   escape_ascii c = bslash # ''u00'' @ [hexc (byte c div 16), hexc (byte c mod 16)] \<or>
   escape_ascii c = [c] \<and> c \<noteq> bslash \<and> c \<noteq> dquote \<and> \<not> byte c < 0x20"
  by (auto simp: escape_ascii_def simple_escape_def bslash_def dquote_def)

lemma append_single: "(@) [c] = (#) c"
  by (simp add: fun_eq_iff)

lemma unquote_escape_ascii:
  assumes "byte c < 0x80"
  shows "unquote (escape_ascii c @ r) = map_option ((#) c) (unquote r)"
proof -
  consider (simple) x where "escape_ascii c = [bslash, x]" "simple_escape x = Some c" "x \<noteq> CHR ''u''"
    | (u) "escape_ascii c = bslash # ''u00'' @ [hexc (byte c div 16), hexc (byte c mod 16)]"
    | (plain) "escape_ascii c = [c]" "c \<noteq> bslash" "c \<noteq> dquote" "\<not> byte c < 0x20"
    using escape_ascii_cases [of c] by blast
  then show ?thesis
  proof cases
    case simple
    then show ?thesis by (simp add: unquote.simps(2) [of bslash])
  next
    case u
    have "hex4 ([CHR ''0'', CHR ''0'', hexc (byte c div 16), hexc (byte c mod 16)] @ r) = Some (byte c)"
      using byte_split [of c] by (simp add: hex4_def)
    moreover have "EncodeRune (byte c) = [byte c]" using assms by (simp add: EncodeRune_def)
    ultimately show ?thesis using u assms
      by (simp add: unquote.simps(2) [of bslash] string_of_bytes_def append_single)
  next
    case plain
    then show ?thesis using assms by (simp add: unquote.simps(2) [of c])
  qed
qed

text \<open>The cases of \<open>escape\<close> on a byte above ASCII.\<close>

lemma DecodeRune_single: "DecodeRune (b # p) = (r, n) \<Longrightarrow> 0x80 \<le> b \<Longrightarrow> n \<le> 1 \<Longrightarrow> r = RuneError \<and> n = 1"
  by (auto simp: DecodeRune_def split: if_splits list.splits)

lemma bytes_of_simps [simp]: "bytes_of [] = []" "bytes_of (c # cs) = byte c # bytes_of cs" "bytes_of (s @ t) = bytes_of s @ bytes_of t"
  by (simp_all add: bytes_of_def)

lemma DecodeRune_string:
  assumes "DecodeRune (bytes_of (c # cs)) = (r, n)" "1 < n"
  shows "string_of_bytes (EncodeRune r) = c # take (n - 1) cs"
    "\<forall>x\<in>set (c # take (n - 1) cs). 0x80 \<le> byte x"
    "DecodeRune (bytes_of (c # take (n - 1) cs @ t)) = (r, n)"
proof -
  note d = DecodeRune_multi [OF assms]
  have t: "take n (c # cs) = c # take (n - 1) cs" using assms(2) by (cases n) auto
  then have tb: "take n (bytes_of (c # cs)) = bytes_of (c # take (n - 1) cs)"
    by (simp only: take_bytes_of)
  show "string_of_bytes (EncodeRune r) = c # take (n - 1) cs"
    using d tb by (simp only: string_of_bytes_of)
  have "\<forall>b\<in>set (bytes_of (c # take (n - 1) cs)). 0x80 \<le> b" using d tb by simp
  then show "\<forall>x\<in>set (c # take (n - 1) cs). 0x80 \<le> byte x" by (simp add: bytes_of_def)
  show "DecodeRune (bytes_of (c # take (n - 1) cs @ t)) = (r, n)"
    using d tb by (metis append_Cons bytes_of_simps(3))
qed

lemma high_not_special: "0x80 \<le> byte c \<Longrightarrow> c \<noteq> bslash \<and> c \<noteq> dquote \<and> \<not> byte c < 0x20"
  by (auto simp: bslash_def dquote_def)

lemma unquote_high:
  assumes "DecodeRune (bytes_of (c # cs)) = (r, n)" "1 < n" "0x80 \<le> byte c" "length cs \<ge> n - 1"
  shows "unquote (c # take (n - 1) cs @ t) = map_option ((@) (c # take (n - 1) cs)) (unquote t)"
  using DecodeRune_string [OF assms(1,2)] assms(3,4) high_not_special [OF assms(3)]
  by (simp add: unquote.simps(2) [of c] del: bytes_of_simps)

lemma unquote_u4:
  assumes "hex4 (s @ t) = Some rr" "length s = 4" "\<not> (0xD800 \<le> rr \<and> rr \<le> 0xDFFF)"
  shows "unquote (bslash # CHR ''u'' # s @ t) = map_option ((@) (string_of_bytes (EncodeRune rr))) (unquote t)"
  using assms by (auto simp: unquote.simps(2) [of bslash])

lemma unquote_escape: "utf8_valid s \<Longrightarrow> unquote (escape s) = Some s"
proof (induction s rule: utf8_valid.induct)
  case (2 c cs)
  obtain r n where d: "DecodeRune (bytes_of (c # cs)) = (r, n)" by (cases "DecodeRune (bytes_of (c # cs))")
  show ?case
  proof (cases "byte c < 0x80")
    case True
    with 2 show ?thesis by (simp add: escape.simps(2) unquote_escape_ascii utf8_valid.simps(2))
  next
    case False
    with 2 d have n: "1 < n" and v: "utf8_valid (drop (n - 1) cs)"
      by (auto simp: utf8_valid.simps(2))
    have len: "n - 1 \<le> length cs" using DecodeRune_size_le [of "bytes_of (c # cs)"] d
      by (simp add: bytes_of_def)
    have ih: "unquote (escape (drop (n - 1) cs)) = Some (drop (n - 1) cs)"
      using 2(2) False n v d by simp
    consider (line) "r = 0x2028 \<or> r = 0x2029" | (other) "\<not> (r = 0x2028 \<or> r = 0x2029)" by blast
    then show ?thesis
    proof cases
      case line
      then have "escape (c # cs) = bslash # CHR ''u'' # (''202'' @ [hexc (r mod 16)]) @ escape (drop (n - 1) cs)"
        using False n d by (auto simp: escape.simps(2) RuneError_def)
      moreover have h: "hex4 ((''202'' @ [hexc (r mod 16)]) @ escape (drop (n - 1) cs)) = Some r"
        using line by (auto simp: hex4_def)
      have "\<not> (0xD800 \<le> r \<and> r \<le> 0xDFFF)" using line by auto
      ultimately show ?thesis
        using unquote_u4 [OF h] ih DecodeRune_string(1) [OF d n] by simp
    next
      case other
      then have "escape (c # cs) = c # take (n - 1) cs @ escape (drop (n - 1) cs)"
        using False n d by (simp add: escape.simps(2))
      then show ?thesis using unquote_high [OF d n _ len] False ih by simp
    qed
  qed
qed simp

section \<open>The scanner on marshalled maps\<close>

abbreviation scan :: "scanner \<Rightarrow> string \<Rightarrow> scanner" where
  "scan st s \<equiv> foldl scan_step st s"

lemma scan_plain:
  "\<forall>c\<in>set s. c \<noteq> bslash \<and> c \<noteq> dquote \<and> \<not> byte c < 0x20 \<Longrightarrow>
   scan (InString raw, stk) s = (InString (raw @ s), stk)"
  by (induction s arbitrary: raw) auto

lemma escape_ascii_scan:
  "byte c < 0x80 \<Longrightarrow> scan (InString raw, stk) (escape_ascii c) = (InString (raw @ escape_ascii c), stk)"
  using byte_split [of c]
  by (auto simp: escape_ascii_def simple_escape_def bslash_def dquote_def)

lemma scan_escape: "scan (InString raw, stk) (escape s) = (InString (raw @ escape s), stk)"
proof (induction s arbitrary: raw rule: length_induct)
  case (1 s)
  then have IH: "scan (InString raw', stk) (escape t) = (InString (raw' @ escape t), stk)"
    if "length t < length s" for raw' t using that by blast
  show ?case
  proof (cases s)
    case (Cons c cs)
    obtain r n where d: "DecodeRune (bytes_of (c # cs)) = (r, n)" by (cases "DecodeRune (bytes_of (c # cs))")
    have IH': "scan (InString raw', stk) (escape (drop k cs)) = (InString (raw' @ escape (drop k cs)), stk)"
      for raw' k using Cons IH [of "drop k cs"] by simp
    consider (ascii) "byte c < 0x80" | (err) "0x80 \<le> byte c" "r = RuneError" "n = 1"
      | (line) "0x80 \<le> byte c" "1 < n" "r = 0x2028 \<or> r = 0x2029"
      | (copy) "0x80 \<le> byte c" "1 < n" "\<not> (r = 0x2028 \<or> r = 0x2029)"
      using DecodeRune_single [of "byte c" "bytes_of cs" r n] d by fastforce
    then show ?thesis
    proof cases
      case ascii
      then show ?thesis using IH' [of "raw @ escape_ascii c" 0] Cons
        by (simp add: escape.simps(2) [of c] escape_ascii_scan)
    next
      case err
      have "scan (InString raw, stk) (bslash # ''ufffd'') = (InString (raw @ bslash # ''ufffd''), stk)"
        by (simp add: bslash_def dquote_def)
      then show ?thesis using err IH' [of "raw @ bslash # ''ufffd''" 0] d Cons
        by (simp add: escape.simps(2) [of c])
    next
      case line
      then have "scan (InString raw, stk) (bslash # ''u202'' @ [hexc (r mod 16)]) =
          (InString (raw @ bslash # ''u202'' @ [hexc (r mod 16)]), stk)"
        by (auto simp: bslash_def dquote_def)
      then show ?thesis using line d Cons IH' [of "raw @ bslash # ''u202'' @ [hexc (r mod 16)]" "n - 1"]
        by (simp add: escape.simps(2) [of c])
    next
      case copy
      have "scan (InString raw, stk) (c # take (n - 1) cs) = (InString (raw @ c # take (n - 1) cs), stk)"
        using DecodeRune_string(2) [OF d copy(2)] high_not_special by (intro scan_plain) blast
      then show ?thesis using copy d Cons IH' [of "raw @ c # take (n - 1) cs" "n - 1"]
        by (simp add: escape.simps(2) [of c])
    qed
  qed simp
qed

lemma scan_quote:
  assumes "utf8_valid s" "scan_step (st, stk) dquote = (InString [], stk)"
  shows "scan (st, stk) (quote_string s) = (EndValue (JStr s), stk)"
  using assms scan_escape [of "[]" stk s]
  by (simp add: quote_string_def stringEnd_def unquote_escape)

lemma dquote_steps [simp]:
  "scan_step (BeginValue, stk) dquote = (InString [], stk)"
  "scan_step (BeginString, stk) dquote = (InString [], stk)"
  "scan_step (BeginStringOrEmpty, stk) dquote = (InString [], stk)"
  by (simp_all add: beginValue_def beginString_def is_space_def dquote_def)

lemma scan_pair:
  assumes "utf8_valid k" "utf8_valid v" "scan_step (st, ObjKey ps # stk) dquote = (InString [], ObjKey ps # stk)"
  shows "scan (st, ObjKey ps # stk) (quote_string k @ '':'' @ quote_string v) =
         (EndValue (JStr v), ObjVal ps k # stk)"
  using scan_quote [OF assms(1,3)] scan_quote [OF assms(2) dquote_steps(1)]
  by (simp add: is_space_def)

abbreviation pair_text :: "string \<times> string \<Rightarrow> string" where
  "pair_text p \<equiv> quote_string (fst p) @ '':'' @ quote_string (snd p)"

abbreviation str_pairs :: "(string \<times> string) list \<Rightarrow> (string \<times> json) list" where
  "str_pairs ps \<equiv> map (\<lambda>p. (fst p, JStr (snd p))) ps"

lemma scan_pairs:
  "ps \<noteq> [] \<Longrightarrow> \<forall>p\<in>set ps. utf8_valid (fst p) \<and> utf8_valid (snd p) \<Longrightarrow>
   st = BeginString \<or> st = BeginStringOrEmpty \<Longrightarrow>
   scan (st, ObjKey done # stk) (join_with '','' (map pair_text ps) @ ''}'') =
   (EndValue (JObj (done @ str_pairs ps)), stk)"
proof (induction ps arbitrary: st "done")
  case (Cons p ps)
  have s: "scan (st, ObjKey done # stk) (pair_text p) = (EndValue (JStr (snd p)), ObjVal done (fst p) # stk)"
    using Cons.prems dquote_steps(2,3) by (intro scan_pair) (auto simp del: scan_step.simps)
  show ?case
  proof (cases ps)
    case Nil
    then show ?thesis using s by (simp add: is_space_def)
  next
    case (Cons q qs)
    then have "join_with '','' (map pair_text (p # ps)) @ ''}'' =
      pair_text p @ '','' @ (join_with '','' (map pair_text ps) @ ''}'')" by simp
    moreover have "scan (BeginString, ObjKey (done @ [(fst p, JStr (snd p))]) # stk)
        (join_with '','' (map pair_text ps) @ ''}'') =
        (EndValue (JObj ((done @ [(fst p, JStr (snd p))]) @ str_pairs ps)), stk)"
      using Cons Cons.prems by (intro Cons.IH) auto
    ultimately show ?thesis using s
      by (simp only: foldl_append) (simp add: is_space_def)
  qed
qed simp

lemma all_some_map_Some: "all_some (map (\<lambda>x. Some (f x)) xs) = Some (map f xs)"
  by (induction xs) auto

lemma fmlookup_foldl_upd:
  "fmlookup (foldl (\<lambda>m kv. fmupd (fst kv) (snd kv) m) m0 ps) k =
   (case map_of (rev ps) k of None \<Rightarrow> fmlookup m0 k | Some v \<Rightarrow> Some v)"
  by (induction ps arbitrary: m0) (auto simp: map_add_def split: option.splits)

lemma sorted_pairs_props:
  "distinct (map fst (sorted_pairs m))" "map_of (sorted_pairs m) = fmlookup m"
  "\<And>p. p \<in> set (sorted_pairs m) \<Longrightarrow> fmlookup m (fst p) = Some (snd p)"
proof -
  let ?ks = "sorted_list_of_fset (fmdom m)"
  have ks: "set ?ks = fset (fmdom m)" "distinct ?ks" by (simp_all add: sorted_list_of_fset.rep_eq)
  have m: "map fst (sorted_pairs m) = ?ks" by (simp add: sorted_pairs_def comp_def)
  with ks show d: "distinct (map fst (sorted_pairs m))" by simp
  show p: "p \<in> set (sorted_pairs m) \<Longrightarrow> fmlookup m (fst p) = Some (snd p)" for p
    using ks(1) by (auto simp: sorted_pairs_def fmlookup_dom_iff)
  show "map_of (sorted_pairs m) = fmlookup m"
  proof
    fix k
    show "map_of (sorted_pairs m) k = fmlookup m k"
    proof (cases "fmlookup m k")
      case None
      then have "k \<notin> set ?ks" using ks(1) by (simp add: fmlookup_dom_iff)
      then show ?thesis using None m by (simp add: map_of_eq_None_iff flip: set_map)
    next
      case (Some v)
      then have "(k, v) \<in> set (sorted_pairs m)"
        using ks(1) by (auto simp: sorted_pairs_def image_iff fmlookup_dom_iff)
      then show ?thesis using Some d by simp
    qed
  qed
qed

lemma map_of_rev_distinct: "distinct (map fst ps) \<Longrightarrow> map_of (rev ps) = map_of ps"
  by (rule map_of_inject_set [THEN iffD2]) (auto simp: rev_map [symmetric])

lemma foldl_upd_sorted_pairs:
  "foldl (\<lambda>m kv. fmupd (fst kv) (snd kv) m) fmempty (sorted_pairs m) = m"
  using sorted_pairs_props(1,2) [of m]
  by (intro fmap_ext) (simp add: fmlookup_foldl_upd map_of_rev_distinct split: option.split)

definition utf8_map :: "(string, string) fmap \<Rightarrow> bool" where
  "utf8_map m \<longleftrightarrow> (\<forall>k v. fmlookup m k = Some v \<longrightarrow> utf8_valid k \<and> utf8_valid v)"

theorem unmarshal_marshal_map:
  assumes "m \<noteq> fmempty" "utf8_map m"
  shows "unmarshal_map (marshal_map m) = Some (Some m)"
proof -
  let ?ps = "sorted_pairs m"
  have ne: "?ps \<noteq> []"
  proof
    assume "?ps = []"
    then have "fmlookup m = Map.empty" using sorted_pairs_props(2) [of m] by simp
    then show False using assms(1) by (metis fmap_ext fmempty_lookup)
  qed
  have v: "\<forall>p\<in>set ?ps. utf8_valid (fst p) \<and> utf8_valid (snd p)"
    using assms(2) sorted_pairs_props(3) unfolding utf8_map_def by blast
  have "scan (BeginValue, []) ''{'' = (BeginStringOrEmpty, [ObjKey []])"
    by (simp add: beginValue_def is_space_def pushState_def maxNestingDepth_def dquote_def)
  moreover have "marshal_map m @ '' '' = ''{'' @ (join_with '','' (map pair_text ?ps) @ ''}'') @ '' ''"
    by (simp add: marshal_map_def)
  ultimately have "scan (BeginValue, []) (marshal_map m @ '' '') = (EndValue (JObj (str_pairs ?ps)), [])"
    using scan_pairs [OF ne v, of BeginStringOrEmpty "[]" "[]"]
    by (simp only: foldl_append) (simp add: is_space_def)
  then have "json_parse (marshal_map m) = Some (JObj (str_pairs ?ps))"
    by (simp add: json_parse_def)
  then show ?thesis
    by (simp add: unmarshal_map_def comp_def all_some_map_Some zip_map_fst_snd foldl_upd_sorted_pairs)
qed

end
