(* ===== verification/Retry.thy ===== *)
theory Retry
  imports Kube
begin

text \<open>
  What a retried operation does: lemmas on \<open>RetryOnConflict\<close>, stated for any operation
  that only appends to the history (the locale \<open>retried\<close>).  The two nested functions of
  the client library are first shown equal to one loop, \<open>retry_loop\<close>.
\<close>

section \<open>One loop\<close>

fun retry_loop ::
  "nat \<Rightarrow> go_error option \<Rightarrow> ('s \<Rightarrow> (go_error option \<times> 's) io) \<Rightarrow> 's \<Rightarrow> go_error option io" where
  "retry_loop 0 lastErr fn s = ret lastErr"
| "retry_loop (Suc n) lastErr fn s = do {
     x \<leftarrow> fn s;
     (case x of
        (None, s') \<Rightarrow> ret None
      | (Some e, s') \<Rightarrow>
          if IsConflict e then
            (if n = 0 then ret (Some e) else do { _ \<leftarrow> sleep; retry_loop n (Some e) fn s' })
          else ret (if e = ErrWaitTimeout then lastErr else Some e))
   }"

lemma bind_cong_io: "(\<And>a. k a = k' a) \<Longrightarrow> State_Monad.bind m k = State_Monad.bind m k'"
  by (simp add: State_Monad.bind_def)

lemma io_monad [simp]:
  "State_Monad.bind (State_Monad.bind m k) l = State_Monad.bind m (\<lambda>a. State_Monad.bind (k a) l)"
  "State_Monad.bind (ret a) k = k a"
  by (auto simp: State_Monad.bind_def ret_def State_Monad.return_def split: prod.splits)

lemma RetryOnConflict_loop: "RetryOnConflict n fn s = retry_loop n None fn s"
proof -
  have "State_Monad.bind (ExponentialBackoff n
       (\<lambda>(lastErr, s). do {
          x \<leftarrow> fn s;
          (case x of
             (None, s') \<Rightarrow> ret (Inr True, (lastErr, s'))
           | (Some e, s') \<Rightarrow>
               if IsConflict e then ret (Inr False, (Some e, s'))
               else ret (Inl e, (lastErr, s')))
        }) (le, s))
     (\<lambda>r. case r of (err, (lastErr, _)) \<Rightarrow> if err = Some ErrWaitTimeout then ret lastErr else ret err)
     = retry_loop n le fn s" for le
    by (induction n arbitrary: le s)
      (auto intro!: bind_cong_io split: prod.split option.split)
  then show ?thesis by (simp add: RetryOnConflict_def OnError_def)
qed

section \<open>Retried operations\<close>

locale retried =
  fixes fn :: "'s \<Rightarrow> (go_error option \<times> 's) io"
  assumes fn_appends: "appends (fn s)"
begin

lemma appends_loop: "appends (retry_loop n le fn s)"
  by (induction n arbitrary: le s) (auto simp: fn_appends split: prod.split option.split)

lemma appends_retry [simp]: "appends (RetryOnConflict n fn s)"
  by (simp add: RetryOnConflict_loop appends_loop)

text \<open>Unfolding of one attempt.\<close>

lemma loop_step:
  assumes "result_of (fn s) h = (r, s')" and "trace_of (fn s) h = t"
  shows "trace_of (retry_loop (Suc n) le fn s) h = t @
      (case r of Some e \<Rightarrow> if IsConflict e \<and> n \<noteq> 0
         then Sleep # trace_of (retry_loop n (Some e) fn s') (h @ t @ [Sleep]) else [] | None \<Rightarrow> [])"
    and "result_of (retry_loop (Suc n) le fn s) h =
      (case r of None \<Rightarrow> None
       | Some e \<Rightarrow> if IsConflict e
           then (if n = 0 then Some e else result_of (retry_loop n (Some e) fn s') (h @ t @ [Sleep]))
           else if e = ErrWaitTimeout then le else Some e)"
proof -
  have a: "appends (case x of (None, s') \<Rightarrow> ret None
      | (Some e, s') \<Rightarrow>
          if IsConflict e then
            (if n = 0 then ret (Some e) else do { _ \<leftarrow> sleep; retry_loop n (Some e) fn s' })
          else ret (if e = ErrWaitTimeout then le else Some e))" for x
    by (auto simp: appends_loop split: prod.split option.split)
  show "trace_of (retry_loop (Suc n) le fn s) h = t @
      (case r of Some e \<Rightarrow> if IsConflict e \<and> n \<noteq> 0
         then Sleep # trace_of (retry_loop n (Some e) fn s') (h @ t @ [Sleep]) else [] | None \<Rightarrow> [])"
    using assms a by (simp add: fn_appends appends_loop split: option.split)
  show "result_of (retry_loop (Suc n) le fn s) h =
      (case r of None \<Rightarrow> None
       | Some e \<Rightarrow> if IsConflict e
           then (if n = 0 then Some e else result_of (retry_loop n (Some e) fn s') (h @ t @ [Sleep]))
           else if e = ErrWaitTimeout then le else Some e)"
    using assms by (simp add: fn_appends split: option.split)
qed

text \<open>Every event satisfies what the events of each attempt and the sleeps satisfy.\<close>

lemma loop_events:
  assumes "\<And>s h. list_all P (trace_of (fn s) h)" "P Sleep"
  shows "list_all P (trace_of (retry_loop n le fn s) h)"
proof (induction n arbitrary: le s h)
  case (Suc n)
  obtain r s' where r: "result_of (fn s) h = (r, s')" by fastforce
  show ?case using assms Suc by (simp add: loop_step [OF r refl] del: retry_loop.simps split: option.split)
qed simp

lemma retry_events:
  "\<lbrakk>\<And>s h. list_all P (trace_of (fn s) h); P Sleep\<rbrakk> \<Longrightarrow> list_all P (trace_of (RetryOnConflict n fn s) h)"
  by (simp add: RetryOnConflict_loop loop_events)

text \<open>At most \<open>n\<close> times the events of one attempt.\<close>

lemma loop_count:
  assumes "\<And>s h. length (filter Q (trace_of (fn s) h)) \<le> k" "\<not> Q Sleep"
  shows "length (filter Q (trace_of (retry_loop n le fn s) h)) \<le> n * k"
proof (induction n arbitrary: le s h)
  case (Suc n)
  obtain r s' where r: "result_of (fn s) h = (r, s')" by fastforce
  show ?case
    using assms Suc by (auto simp: loop_step [OF r refl] simp del: retry_loop.simps
        intro: add_mono trans_le_add1 split: option.split)
qed simp

lemma retry_count:
  "\<lbrakk>\<And>s h. length (filter Q (trace_of (fn s) h)) \<le> k; \<not> Q Sleep\<rbrakk> \<Longrightarrow>
   length (filter Q (trace_of (RetryOnConflict n fn s) h)) \<le> n * k"
  by (simp add: RetryOnConflict_loop loop_count)

text \<open>
  Success: the trace ends with an attempt that succeeded.  An attempt that fails with the
  timeout error of the library itself is the one exception.
\<close>

lemma loop_success:
  assumes "\<And>s h. fst (result_of (fn s) h) \<noteq> Some ErrWaitTimeout"
    and "result_of (retry_loop (Suc n) le fn s) h = None"
  shows "\<exists>t s'. fst (result_of (fn s') (h @ t)) = None \<and>
    trace_of (retry_loop (Suc n) le fn s) h = t @ trace_of (fn s') (h @ t)"
  using assms(2)
proof (induction n arbitrary: le s h)
  case 0
  obtain r s' where r: "result_of (fn s) h = (r, s')" by fastforce
  moreover have "r \<noteq> Some ErrWaitTimeout" using assms(1) [of s h] r by simp
  ultimately have "r = None"
    using 0 unfolding loop_step(2) [OF r refl] by (simp split: option.splits if_splits)
  with r show ?case by (intro exI [of _ "[]"] exI [of _ s]) (simp add: loop_step [OF r refl] del: retry_loop.simps)
next
  case (Suc n)
  obtain r s' where r: "result_of (fn s) h = (r, s')" by fastforce
  show ?case
  proof (cases r)
    case None
    with r show ?thesis by (intro exI [of _ "[]"] exI [of _ s]) (simp add: loop_step [OF r refl] del: retry_loop.simps)
  next
    case (Some e)
    have "e \<noteq> ErrWaitTimeout" using assms(1) [of s h] r Some by simp
    with Suc(2) Some have c: "IsConflict e"
      and *: "result_of (retry_loop (Suc n) (Some e) fn s') (h @ trace_of (fn s) h @ [Sleep]) = None"
      unfolding loop_step(2) [OF r refl] by (simp_all split: if_splits del: retry_loop.simps)
    from Suc(1) [OF *] obtain t s'' where "fst (result_of (fn s'') ((h @ trace_of (fn s) h @ [Sleep]) @ t)) = None"
      "trace_of (retry_loop (Suc n) (Some e) fn s') (h @ trace_of (fn s) h @ [Sleep]) =
       t @ trace_of (fn s'') ((h @ trace_of (fn s) h @ [Sleep]) @ t)" by blast
    then show ?thesis
      using Some c by (intro exI [of _ "trace_of (fn s) h @ Sleep # t"] exI [of _ s''])
        (simp add: loop_step(1) [OF r refl] del: retry_loop.simps)
  qed
qed

lemma retry_success:
  assumes "\<And>s h. fst (result_of (fn s) h) \<noteq> Some ErrWaitTimeout" "0 < n"
    and "result_of (RetryOnConflict n fn s) h = None"
  shows "\<exists>t s'. fst (result_of (fn s') (h @ t)) = None \<and>
    trace_of (RetryOnConflict n fn s) h = t @ trace_of (fn s') (h @ t)"
proof -
  obtain m where "n = Suc m" using assms(2) by (cases n) auto
  with assms(1,3) show ?thesis using loop_success unfolding RetryOnConflict_loop by blast
qed

text \<open>The first attempt decides when it does not end in a conflict.\<close>

lemma retry_no_conflict:
  assumes "result_of (fn s) h = (r, s')" "0 < n" "\<And>e. r = Some e \<Longrightarrow> \<not> IsConflict e \<and> e \<noteq> ErrWaitTimeout"
  shows "result_of (RetryOnConflict n fn s) h = r" "trace_of (RetryOnConflict n fn s) h = trace_of (fn s) h"
proof -
  obtain m where "n = Suc m" using assms(2) by (cases n) auto
  then show "result_of (RetryOnConflict n fn s) h = r" "trace_of (RetryOnConflict n fn s) h = trace_of (fn s) h"
    using assms(3) by (simp_all add: RetryOnConflict_loop loop_step [OF assms(1) refl] del: retry_loop.simps
        split: option.split)
qed

end

end
