(* ===== verification/NAD.thy ===== *)
theory NAD
  imports Config_Facts Gojson_Facts Retry
begin

text \<open>
  The mapping from network attachment definitions (NADs) to the interfaces of the guests:
  \<open>pkg/utils/vmi.go\<close> computes the mapping all virtual machines agree on,
  \<open>pkg/utils/configmap.go\<close> reads the stored one.  Writing and reading meet in the
  locale \<open>mapping_codec\<close>, interpreted with the JSON encoder and decoder.
\<close>

section \<open>Definitions\<close>

definition Running :: string where
  "Running = ''Running''"

definition NamespaceSystem :: string where
  "NamespaceSystem = ''kube-system''"

definition IsRunning :: "vmi \<Rightarrow> bool" where
  "IsRunning v \<longleftrightarrow> vmiPhase v = Running"

definition IsMigrationCompleted :: "vmi \<Rightarrow> bool" where
  "IsMigrationCompleted v = (case vmiMigration v of None \<Rightarrow> True | Some completed \<Rightarrow> completed)"

fun nameToNADLoop :: "(string, string) fmap \<Rightarrow> vmi_network list \<Rightarrow> (string, string) fmap" where
  "nameToNADLoop nameToNAD [] = nameToNAD"
| "nameToNADLoop nameToNAD (net # nets) = (case netMultus net of
     None \<Rightarrow> nameToNADLoop nameToNAD nets
   | Some networkName \<Rightarrow> nameToNADLoop (fmupd (netName net) networkName nameToNAD) nets)"

fun interfaceLoop ::
  "(string, string) fmap \<Rightarrow> (string, string) fmap \<Rightarrow> vmi_interface list \<Rightarrow> (string, string) fmap" where
  "interfaceLoop nameToNAD result [] = result"
| "interfaceLoop nameToNAD result (iface # ifaces) =
     (if ifInterfaceName iface = [] \<or> ifName iface = [] then interfaceLoop nameToNAD result ifaces
      else case fmlookup nameToNAD (ifName iface) of
        Some nad \<Rightarrow> interfaceLoop nameToNAD (fmupd nad (ifInterfaceName iface) result) ifaces
      | None \<Rightarrow> interfaceLoop nameToNAD result ifaces)"

definition getNADToInterfaceMapping :: "vmi \<Rightarrow> (string, string) fmap" where
  "getNADToInterfaceMapping v = interfaceLoop (nameToNADLoop fmempty (vmiNetworks v)) fmempty (vmiInterfaces v)"

text \<open>
  The inner loop over \<open>result\<close> deletes every entry that \<open>curr\<close> does not have; the order
  in which Go visits the entries does not matter.  A missing key of \<open>curr\<close> reads as the
  empty string.
\<close>

definition dropUnequal :: "(string, string) fmap \<Rightarrow> (string, string) fmap \<Rightarrow> (string, string) fmap" where
  "dropUnequal cur result = fmfilter (\<lambda>nad. fmlookup result nad = Some (mget (Some cur) nad)) result"

definition isQualifying :: "vmi \<Rightarrow> bool" where
  "isQualifying v \<longleftrightarrow> IsRunning v \<and> IsMigrationCompleted v \<and> vmiInterfaces v \<noteq> []"

text \<open>The argument is a slice of pointers, so an element may be nil.\<close>

fun activeVMIs :: "vmi option list \<Rightarrow> vmi list" where
  "activeVMIs [] = []"
| "activeVMIs (None # vs) = activeVMIs vs"
| "activeVMIs (Some v # vs) = (if isQualifying v then v # activeVMIs vs else activeVMIs vs)"

definition GetCommonVMINADs :: "vmi option list \<Rightarrow> gomap" where
  "GetCommonVMINADs vmis = (case activeVMIs vmis of
     [] \<Rightarrow> None
   | v # vs \<Rightarrow> Some (foldl (\<lambda>result u. dropUnequal (getNADToInterfaceMapping u) result)
                    (getNADToInterfaceMapping v) vs))"

text \<open>The part of \<open>GetNADInterfaceMapping\<close> after the lookup.\<close>

definition decodeNADMapping :: "configmap \<Rightarrow> go_error + gomap" where
  "decodeNADMapping cm =
     (let mappingStr = mget (cmData cm) ConfigMapKeyNADMapping in
      if mappingStr = [] then Inr (Some fmempty)
      else case unmarshal_map mappingStr of
        None \<Rightarrow> Inl (Wrapf ''invalid %s in ConfigMap %s/%s: %w''
          [FStr ConfigMapKeyNADMapping, FStr (cmNamespace cm), FStr (cmName cm)] (OtherError ''json''))
      | Some mapping \<Rightarrow> Inr mapping)"

definition GetNADInterfaceMapping :: "env \<Rightarrow> (go_error + gomap) io" where
  "GetNADInterfaceMapping E = do {
     r \<leftarrow> cmCacheGet E NamespaceSystem ConfigMapNADMapping;
     ret (case r of
        Fail err _ \<Rightarrow> if IsNotFound err then Inr None
                     else Inl (Wrapf ''get NAD mapping ConfigMap: %w'' [] err)
      | Ok cm \<Rightarrow> decodeNADMapping cm)
   }"

section \<open>The mapping of one machine\<close>

lemma nameToNADLoop_lookup:
  "fmlookup (nameToNADLoop m nets) k = Some nad \<Longrightarrow>
   fmlookup m k = Some nad \<or> (\<exists>net\<in>set nets. netName net = k \<and> netMultus net = Some nad)"
  by (induction m nets rule: nameToNADLoop.induct) (auto split: option.splits if_splits)

lemma interfaceLoop_lookup:
  "fmlookup (interfaceLoop nn m ifs) nad = Some ifc \<Longrightarrow>
   fmlookup m nad = Some ifc \<or>
   (\<exists>i\<in>set ifs. ifInterfaceName i = ifc \<and> ifc \<noteq> [] \<and> fmlookup nn (ifName i) = Some nad)"
  by (induction nn m ifs rule: interfaceLoop.induct) (auto split: option.splits if_splits)

lemma mapping_sound:
  "fmlookup (getNADToInterfaceMapping v) nad = Some ifc \<Longrightarrow>
   ifc \<noteq> [] \<and> (\<exists>i\<in>set (vmiInterfaces v). \<exists>net\<in>set (vmiNetworks v).
     ifInterfaceName i = ifc \<and> ifName i = netName net \<and> netMultus net = Some nad)"
proof -
  assume "fmlookup (getNADToInterfaceMapping v) nad = Some ifc"
  then obtain i where i: "i \<in> set (vmiInterfaces v)" "ifInterfaceName i = ifc" "ifc \<noteq> []"
    and "fmlookup (nameToNADLoop fmempty (vmiNetworks v)) (ifName i) = Some nad"
    using interfaceLoop_lookup unfolding getNADToInterfaceMapping_def by fastforce
  from nameToNADLoop_lookup [OF this(4)] obtain net where
    "net \<in> set (vmiNetworks v)" "netName net = ifName i" "netMultus net = Some nad" by auto
  with i show ?thesis by metis
qed

section \<open>The common mapping\<close>

lemma dropUnequal_lookup:
  assumes "\<And>k. fmlookup cur k \<noteq> Some []" "\<And>k. fmlookup result k \<noteq> Some []"
  shows "fmlookup (dropUnequal cur result) k = Some x \<longleftrightarrow> fmlookup result k = Some x \<and> fmlookup cur k = Some x"
  using assms [of k] by (auto simp: dropUnequal_def mget_def split: option.splits)

lemma foldl_dropUnequal_lookup:
  assumes "\<And>k. fmlookup m k \<noteq> Some []"
  shows "fmlookup (foldl (\<lambda>result u. dropUnequal (getNADToInterfaceMapping u) result) m vs) k = Some x \<longleftrightarrow>
    fmlookup m k = Some x \<and> (\<forall>u\<in>set vs. fmlookup (getNADToInterfaceMapping u) k = Some x)"
  using assms
proof (induction vs arbitrary: m)
  case (Cons u vs)
  have u: "fmlookup (getNADToInterfaceMapping u) k' \<noteq> Some []" for k' using mapping_sound by blast
  note * = dropUnequal_lookup [OF u Cons.prems]
  then have "fmlookup (dropUnequal (getNADToInterfaceMapping u) m) k' \<noteq> Some []" for k'
    using u by simp
  from Cons.IH [OF this] * show ?case by auto
qed simp

lemma set_activeVMIs: "set (activeVMIs vmis) = {v. Some v \<in> set vmis \<and> isQualifying v}"
  by (induction vmis rule: activeVMIs.induct) auto

lemma common_lookup:
  "GetCommonVMINADs vmis = Some m \<Longrightarrow> fmlookup m nad = Some ifc \<longleftrightarrow>
   (\<forall>v. Some v \<in> set vmis \<and> isQualifying v \<longrightarrow> fmlookup (getNADToInterfaceMapping v) nad = Some ifc)"
proof -
  assume m: "GetCommonVMINADs vmis = Some m"
  then obtain v vs where act: "activeVMIs vmis = v # vs"
    and "m = foldl (\<lambda>result u. dropUnequal (getNADToInterfaceMapping u) result) (getNADToInterfaceMapping v) vs"
    by (auto simp: GetCommonVMINADs_def split: list.splits)
  moreover have "fmlookup (getNADToInterfaceMapping v) k \<noteq> Some []" for k using mapping_sound by blast
  ultimately have "fmlookup m nad = Some ifc \<longleftrightarrow>
      (\<forall>u\<in>set (activeVMIs vmis). fmlookup (getNADToInterfaceMapping u) nad = Some ifc)"
    by (simp add: foldl_dropUnequal_lookup)
  then show ?thesis by (simp add: set_activeVMIs)
qed

lemma common_None: "GetCommonVMINADs vmis = None \<longleftrightarrow> (\<forall>v. Some v \<in> set vmis \<longrightarrow> \<not> isQualifying v)"
  using set_activeVMIs [of vmis] by (auto simp: GetCommonVMINADs_def split: list.splits)

section \<open>Storing and reading back\<close>

text \<open>
  The writer stores the empty string for a nil or empty mapping and the encoding of any
  other; the reader takes the empty string for an empty mapping and decodes any other.
\<close>

locale mapping_codec =
  fixes enc :: "(string, string) fmap \<Rightarrow> string"
    and dec :: "string \<Rightarrow> gomap option"
    and good :: "(string, string) fmap \<Rightarrow> bool"
  assumes dec_enc: "m \<noteq> fmempty \<Longrightarrow> good m \<Longrightarrow> dec (enc m) = Some (Some m)"
    and enc_not_empty: "enc m \<noteq> []"
begin

definition stored :: "gomap \<Rightarrow> string" where
  "stored m = (case m of None \<Rightarrow> [] | Some f \<Rightarrow> if f = fmempty then [] else enc f)"

definition loaded :: "string \<Rightarrow> gomap option" where
  "loaded s = (if s = [] then Some (Some fmempty) else dec s)"

lemma loaded_stored:
  "(\<And>f. m = Some f \<Longrightarrow> good f) \<Longrightarrow> loaded (stored m) = Some (made m)"
  by (auto simp: stored_def loaded_def made_def dec_enc enc_not_empty split: option.split)

lemma stored_inj:
  assumes "\<And>f. m = Some f \<Longrightarrow> good f" "\<And>f. m' = Some f \<Longrightarrow> good f" "stored m = stored m'"
  shows "made m = made m'"
  using assms loaded_stored by (metis option.inject)

end

interpretation json: mapping_codec marshal_map unmarshal_map utf8_map
  by unfold_locales (rule unmarshal_marshal_map, assumption+, simp add: marshal_map_def)

lemma decodeNADMapping_loaded:
  "decodeNADMapping cm = Inr m \<longleftrightarrow> json.loaded (mget (cmData cm) ConfigMapKeyNADMapping) = Some m"
  by (auto simp: decodeNADMapping_def json.loaded_def Let_def split: option.splits)

section \<open>Properties\<close>

text \<open>The common mapping has exactly the pairs of NAD and interface that every qualifying
  machine has: running, not migrating, with interfaces reported by its guest agent.  It is nil
  exactly when no machine qualifies.\<close>

lemma GetCommonVMINADs_intersection:
  "case GetCommonVMINADs vmis of
     None \<Rightarrow> {v. Some v \<in> set vmis \<and> isQualifying v} = {}
   | Some m \<Rightarrow> {v. Some v \<in> set vmis \<and> isQualifying v} \<noteq> {} \<and>
       {(nad, ifc). fmlookup m nad = Some ifc} =
       \<Inter> ((\<lambda>v. {(nad, ifc). fmlookup (getNADToInterfaceMapping v) nad = Some ifc}) `
         {v. Some v \<in> set vmis \<and> isQualifying v})"
proof (cases "GetCommonVMINADs vmis")
  case None
  then show ?thesis using common_None [of vmis] by simp
next
  case (Some m)
  then have "\<exists>v. Some v \<in> set vmis \<and> isQualifying v" using common_None [of vmis] by auto
  with Some common_lookup [OF Some] show ?thesis by auto
qed

text \<open>The common mapping does not depend on the order in which the machines are listed, nor
  on repetitions.\<close>

lemma GetCommonVMINADs_order:
  assumes "set vmis = set vmis'"
  shows "GetCommonVMINADs vmis = GetCommonVMINADs vmis'"
proof (cases "GetCommonVMINADs vmis")
  case None
  moreover from this have "GetCommonVMINADs vmis' = None" using assms by (simp add: common_None)
  ultimately show ?thesis by simp
next
  case (Some m)
  then have "GetCommonVMINADs vmis' \<noteq> None" using assms common_None by (metis option.distinct(1))
  then obtain m' where m': "GetCommonVMINADs vmis' = Some m'" by blast
  have "fmlookup m nad = Some ifc \<longleftrightarrow> fmlookup m' nad = Some ifc" for nad ifc
    using common_lookup [OF Some] common_lookup [OF m'] assms by simp
  then have "m = m'" by (intro fmap_ext) (metis not_Some_eq)
  with Some m' show ?thesis by simp
qed

definition demo_guest :: "string \<Rightarrow> vmi" where
  "demo_guest nic = \<lparr>vmiNamespace = ''default'', vmiName = ''vm'', vmiAnnotations = None, vmiLabels = None,
     vmiDeleted = False, vmiNetworks = [\<lparr>netName = ''n0'', netMultus = Some ''default/mgmt''\<rparr>, \<lparr>netName = ''n1'', netMultus = Some ''default/net1''\<rparr>],
     vmiPhase = ''Running'',
     vmiInterfaces = [\<lparr>ifName = ''n0'', ifIP = [], ifIPs = [], ifInterfaceName = ''enp1s0''\<rparr>,
       \<lparr>ifName = ''n1'', ifIP = [], ifIPs = [], ifInterfaceName = nic\<rparr>],
     vmiMigration = None\<rparr>"

text \<open>Every pair of the mapping of one machine comes from a multus network of its spec and an
  interface of its status with the same name, and the interface name is not empty.\<close>

lemma getNADToInterfaceMapping_sound:
  assumes "fmlookup (getNADToInterfaceMapping v) nad = Some ifc"
  shows "ifc \<noteq> [] \<and> (\<exists>i\<in>set (vmiInterfaces v). \<exists>net\<in>set (vmiNetworks v).
     ifInterfaceName i = ifc \<and> ifName i = netName net \<and> netMultus net = Some nad)"
  using assms by (rule mapping_sound)

end
