(* ===== verification/LBName.thy ===== *)
theory LBName
  imports Netip_Facts DNSLabel
begin

text \<open>
  The name of the load balancer of a service, \<open>loadBalancerName\<close> of
  \<open>pkg/cloud-controller-manager/loadbalancer.go\<close>, with the CRC-32 checksum of
  \<open>hash/crc32\<close> and the verb \<open>%08x\<close> of \<open>fmt\<close>.
\<close>

unbundle bit_operations_syntax

section \<open>Definitions\<close>

definition IEEE :: "32 word" where
  "IEEE = 0xEDB88320"

definition crc_step :: "32 word \<Rightarrow> 32 word" where
  "crc_step x = (if bit x 0 then drop_bit 1 x XOR IEEE else drop_bit 1 x)"

definition byte_of :: "char \<Rightarrow> 32 word" where
  "byte_of c = word_of_nat (of_char c)"

definition crc_update :: "32 word \<Rightarrow> char \<Rightarrow> 32 word" where
  "crc_update crc c = (crc_step ^^ 8) (crc XOR byte_of c)"

definition ChecksumIEEE :: "string \<Rightarrow> 32 word" where
  "ChecksumIEEE s = NOT (foldl crc_update 0xFFFFFFFF s)"

text \<open>\<open>%08x\<close>\<close>

definition hex8 :: "32 word \<Rightarrow> string" where
  "hex8 w = (let h = hex (unat w) in replicate (8 - length h) (CHR ''0'') @ h)"

definition maxNameLength :: nat where "maxNameLength = 63"
definition lenOfSuffix :: nat where "lenOfSuffix = 8"

definition loadBalancerName :: "string \<Rightarrow> string \<Rightarrow> string \<Rightarrow> string \<Rightarrow> string" where
  "loadBalancerName clusterName serviceNamespace serviceName serviceUID =
     (let clusterName' = (if IsDNS1035Label clusterName \<noteq> [] then ''a'' @ clusterName else clusterName);
          base = clusterName' @ ''-'' @ serviceNamespace @ ''-'' @ serviceName @ ''-'';
          digest = ChecksumIEEE (base @ serviceUID);
          suffix = hex8 digest;
          base' = (if length base > maxNameLength - lenOfSuffix
                   then take (maxNameLength - lenOfSuffix) base else base)
      in base' @ suffix)"

section \<open>The checksum\<close>

lemma IEEE_bit31: "bit IEEE 31"
  by (simp add: IEEE_def)

lemma crc_step_top: "bit (crc_step x) 31 = bit x 0"
proof -
  have "\<not> bit x 32" using not_bit_length [of x] by simp
  then have "\<not> bit (drop_bit 1 x) 31" unfolding bit_drop_bit_eq o_def by simp
  then show ?thesis by (simp only: crc_step_def bit_xor_iff IEEE_bit31 split: if_split) simp
qed

lemma xor_right_inj: "(a :: 32 word) XOR c = b XOR c \<Longrightarrow> a = b"
  by (drule arg_cong [of _ _ "\<lambda>x. x XOR c"]) (simp add: xor.assoc)

lemma xor_left_inj: "(c :: 32 word) XOR a = c XOR b \<Longrightarrow> a = b"
  using xor_right_inj [of a c b] by (simp add: xor.commute)

lemma drop_bit_1_inj:
  fixes x y :: "32 word"
  assumes "drop_bit 1 x = drop_bit 1 y" "bit x 0 = bit y 0"
  shows "x = y"
proof (rule bit_eqI)
  fix n
  show "bit x n = bit y n"
  proof (cases n)
    case (Suc m)
    have "bit (drop_bit 1 x) m = bit (drop_bit 1 y) m" using assms(1) by simp
    then show ?thesis using Suc by (simp add: bit_drop_bit_eq)
  qed (use assms(2) in simp)
qed

lemma crc_step_inj: "crc_step x = crc_step y \<Longrightarrow> x = y"
proof -
  assume eq: "crc_step x = crc_step y"
  then have b: "bit x 0 = bit y 0" using crc_step_top by metis
  with eq have "drop_bit 1 x = drop_bit 1 y"
    unfolding crc_step_def by (cases "bit y 0") (auto dest: xor_right_inj)
  from drop_bit_1_inj [OF this b] show ?thesis .
qed

lemma crc_steps_inj: "(crc_step ^^ n) x = (crc_step ^^ n) y \<Longrightarrow> x = y"
  by (induction n) (auto dest: crc_step_inj)

lemma byte_of_inj: "byte_of c = byte_of d \<Longrightarrow> c = d"
proof -
  assume "byte_of c = byte_of d"
  moreover have "(of_char x :: nat) < 2 ^ 32" for x
    by (rule less_trans [OF nat_of_char_less_256]) simp
  ultimately have "(of_char c :: nat) = of_char d"
    unfolding byte_of_def by (simp add: word_of_nat_eq_iff take_bit_nat_eq_self)
  then show ?thesis by simp
qed

lemma crc_update_inj_crc: "crc_update x c = crc_update y c \<Longrightarrow> x = y"
  unfolding crc_update_def by (drule crc_steps_inj) (rule xor_right_inj)

lemma crc_update_inj_byte: "crc_update x c = crc_update x d \<Longrightarrow> c = d"
  unfolding crc_update_def by (drule crc_steps_inj, drule xor_left_inj, rule byte_of_inj)

lemma foldl_crc_inj: "foldl crc_update x s = foldl crc_update y s \<Longrightarrow> x = y"
  by (induction s arbitrary: x y) (auto dest: crc_update_inj_crc)

lemma checksum_one_byte: "ChecksumIEEE (p @ c # s) = ChecksumIEEE (p @ d # s) \<Longrightarrow> c = d"
  unfolding ChecksumIEEE_def
  by (auto dest!: foldl_crc_inj crc_update_inj_byte)

section \<open>The suffix\<close>

lemma hex_length: "n < 16 ^ k \<Longrightarrow> 0 < k \<Longrightarrow> length (hex n) \<le> k"
proof (induction k arbitrary: n)
  case (Suc k)
  show ?case
  proof (cases "n < 16")
    case False
    then have "0 < k" using Suc.prems by (cases k) auto
    moreover have "n div 16 < 16 ^ k" using Suc.prems by (simp add: less_mult_imp_div_less)
    ultimately show ?thesis using Suc.IH False by (simp add: hex_step not_less)
  qed (simp add: hex_1)
qed simp

lemma hex8_length [simp]: "length (hex8 w) = 8"
proof -
  have "unat w < 16 ^ 8" using unsigned_less [of w, where ?'a = nat] by simp
  then have "length (hex (unat w)) \<le> 8" by (intro hex_length) auto
  then show ?thesis by (simp add: hex8_def Let_def)
qed

definition hex_value :: "string \<Rightarrow> nat" where
  "hex_value s = foldl (\<lambda>a c. 16 * a + the (hex_val c)) 0 s"

lemma hex_value_hex: "hex_value (hex n) = n"
proof (induction n rule: hex.induct)
  case (1 n)
  then show ?case
    by (cases "n < 16") (simp_all add: hex_1 hex_step hex_value_def not_less)
qed

lemma digit_char_0: "digit_char 0 = CHR ''0''"
  by code_simp

lemma hex_val_0: "hex_val (CHR ''0'') = Some 0"
  using hex_val_digit_char [of 0] by (simp add: digit_char_0)

lemma hex_value_zeros: "hex_value (replicate k (CHR ''0'') @ s) = hex_value s"
  by (induction k) (simp_all add: hex_value_def hex_val_0)

lemma hex8_inj: "hex8 v = hex8 w \<Longrightarrow> v = w"
  by (metis hex8_def hex_value_hex hex_value_zeros word_unat_eq_iff)

lemma alnum_digit_char: "d < 16 \<Longrightarrow> alnum (digit_char d)"
  by (simp add: alnum_def lower_alpha_def digit_c_def digit_char_def)

lemma hex8_alnum: "c \<in> set (hex8 w) \<Longrightarrow> alnum c"
  using hex_digits [of c "unat w"] alnum_digit_char alnum_digit_char [of 0]
  by (auto simp: hex8_def Let_def digit_char_0 split: if_splits)

section \<open>Properties\<close>

lemma label_char_alnum: "alnum c \<Longrightarrow> label_char c"
  by (simp add: label_char_def)

lemma loadBalancerName_parts:
  obtains base u where "loadBalancerName cl ns n uid = take 55 base @ hex8 (ChecksumIEEE (base @ uid))"
    "base = u @ ''-'' @ ns @ ''-'' @ n @ ''-''"
    "u = (if IsDNS1035Label cl \<noteq> [] then ''a'' @ cl else cl)"
  by (simp add: loadBalancerName_def maxNameLength_def lenOfSuffix_def Let_def)

lemma loadBalancerName_length: "length (loadBalancerName cl ns n uid) \<le> 63"
  by (rule loadBalancerName_parts [of cl ns n uid]) (simp del: take_append)

text \<open>The name of a load balancer has at most 63 characters, whatever the inputs are, and
  ends with the eight hexadecimal digits of the checksum.\<close>

lemma loadBalancerName_bounds:
  "length (loadBalancerName cl ns n uid) \<le> 63 \<and>
   (\<exists>base w. loadBalancerName cl ns n uid = base @ hex8 w \<and> length base \<le> 55 \<and> length (hex8 w) = 8)"
  by (rule loadBalancerName_parts [of cl ns n uid]) (auto simp del: take_append)

text \<open>The name is a valid RFC 1035 label whenever the cluster name, the namespace and the
  name of the service are made of lower case letters, digits and dashes, even if the cluster
  name starts with a digit or is too long.\<close>

lemma loadBalancerName_valid_label:
  assumes "list_all label_char cl" "list_all label_char ns" "list_all label_char n"
  shows "IsDNS1035Label (loadBalancerName cl ns n uid) = []"
proof (rule loadBalancerName_parts [of cl ns n uid])
  fix base u
  assume name: "loadBalancerName cl ns n uid = take 55 base @ hex8 (ChecksumIEEE (base @ uid))"
    and base: "base = u @ ''-'' @ ns @ ''-'' @ n @ ''-''"
    and u: "u = (if IsDNS1035Label cl \<noteq> [] then ''a'' @ cl else cl)"
  let ?h = "hex8 (ChecksumIEEE (base @ uid))"
  have h: "?h \<noteq> []" "list_all label_char ?h"
    using hex8_length hex8_alnum label_char_alnum by (auto simp: list_all_iff simp flip: length_greater_0_conv)
  then have l: "alnum (last ?h)" using hex8_alnum by (metis last_in_set)
  have u': "u \<noteq> []" "lower_alpha (hd u)" "list_all label_char u"
    using assms u by (auto simp: IsDNS1035Label_ok dns1035LabelRegexp_def lower_alpha_def label_char_def alnum_def)
  then have "list_all label_char base" using assms base by (simp add: label_char_def)
  then have t: "list_all label_char (take 55 base)" by (auto simp: list_all_iff dest: in_set_takeD)
  have "hd (take 55 base @ ?h) = hd u" "take 55 base \<noteq> []" using u' base by (cases u; simp)+
  then show ?thesis
    using h l u' t loadBalancerName_length [of cl ns n uid] unfolding name IsDNS1035Label_ok dns1035LabelRegexp_def
    by simp
qed

text \<open>The checksum tells apart services whose identifiers differ in one character: two
  services with the same namespace and name whose UIDs differ in exactly one position get
  different load balancer names.\<close>

lemma loadBalancerName_uid_change:
  assumes "c \<noteq> d"
  shows "loadBalancerName cl ns n (p @ c # s) \<noteq> loadBalancerName cl ns n (p @ d # s)"
proof
  let ?base = "(if IsDNS1035Label cl \<noteq> [] then ''a'' @ cl else cl) @ ''-'' @ ns @ ''-'' @ n @ ''-''"
  assume "loadBalancerName cl ns n (p @ c # s) = loadBalancerName cl ns n (p @ d # s)"
  then have "hex8 (ChecksumIEEE ((?base @ p) @ c # s)) = hex8 (ChecksumIEEE ((?base @ p) @ d # s))"
    by (simp add: loadBalancerName_def Let_def)
  then show False using assms checksum_one_byte hex8_inj by blast
qed

end
