(* ===== verification/LoadBalancer.thy ===== *)
theory LoadBalancer
  imports NAD LBName
begin

text \<open>
  The load balancer manager, \<open>pkg/cloud-controller-manager/loadbalancer.go\<close>.  The struct
  \<open>LoadBalancerManager\<close> holds clients and caches, which are the \<open>env\<close>, and the
  namespace of the guest cluster in Harvester; the process-wide configuration, which
  \<open>patchLB\<close> reads, is a third field.  A function that returns a pointer and an error
  returns the pair of both.  Of the log lines only the warning about the
  cluster name is modelled.
\<close>

section \<open>Definitions\<close>

record lb_manager =
  lmClients :: env
  lmNamespace :: string
  lmConfig :: config

definition AnnotationKeyNetwork :: string where
  "AnnotationKeyNetwork = ''loadbalancer.harvesterhci.io/network''"
definition AnnotationKeyProject :: string where
  "AnnotationKeyProject = ''loadbalancer.harvesterhci.io/project''"
definition AnnotationKeyNamespace :: string where
  "AnnotationKeyNamespace = ''loadbalancer.harvesterhci.io/namespace''"
definition AnnotationKeyCluster :: string where
  "AnnotationKeyCluster = ''loadbalancer.harvesterhci.io/cluster''"

lemmas lb_key_defs = AnnotationKeyNetwork_def AnnotationKeyProject_def AnnotationKeyNamespace_def
  AnnotationKeyCluster_def

definition retryTimes :: nat where "retryTimes = 10"
definition NamespaceAll :: string where "NamespaceAll = []"

definition resp_err :: "'a resp \<Rightarrow> go_error option" where
  "resp_err r = (case r of Ok _ \<Rightarrow> None | Fail e _ \<Rightarrow> Some e)"

definition resp_obj :: "'a resp \<Rightarrow> 'a option" where
  "resp_obj r = (case r of Ok a \<Rightarrow> Some a | Fail _ x \<Rightarrow> x)"

text \<open>\<open>err != nil && !errors.IsNotFound(err)\<close>\<close>

definition other_error :: "'a resp \<Rightarrow> go_error option" where
  "other_error r = (case resp_err r of Some e \<Rightarrow> if IsNotFound e then None else Some e | None \<Rightarrow> None)"

definition svc_key :: "service \<Rightarrow> fmt_arg list" where
  "svc_key s = [FStr (svcNamespace s), FStr (svcName s)]"

definition primaryServiceLabelValue :: "service \<Rightarrow> string" where
  "primaryServiceLabelValue svc = svcNamespace svc @ ''.'' @ svcName svc"

definition getPrimaryService :: "lb_manager \<Rightarrow> service \<Rightarrow> (go_error + service option) io" where
  "getPrimaryService l svc = (case mlookup (svcAnnotations svc) KeyPrimaryService of
     None \<Rightarrow> ret (Inr None)
   | Some primary \<Rightarrow>
      (case split_n2 (CHR ''/'') primary of
         [f0, f1] \<Rightarrow> do {
           r \<leftarrow> svcCacheGet (lmClients l) f0 f1;
           ret (case r of
              Fail err _ \<Rightarrow> Inl (Wrapf ''get service %s failed: %w'' [FStr primary] err)
            | Ok primarySvc \<Rightarrow>
                if mget (svcAnnotations primarySvc) KeyPrimaryService \<noteq> []
                then Inl (Errorf ''service %s is not a primary service'' [FStr primary])
                else Inr (Some primarySvc))
         }
       | _ \<Rightarrow> ret (Inl (Errorf ''invalid service name %s'' [FStr primary]))))"

definition resolveNetworkInterface :: "lb_manager \<Rightarrow> service \<Rightarrow> (go_error + string) io" where
  "resolveNetworkInterface l svc =
     (let network = mget (svcAnnotations svc) KeyNetwork in
      if network = [] then ret (Inr [])
      else do {
        r \<leftarrow> GetNADInterfaceMapping (lmClients l);
        ret (case r of
           Inl err \<Rightarrow> Inl err
         | Inr None \<Rightarrow> Inr []
         | Inr (Some mapping) \<Rightarrow>
             if mapping = fmempty
             then Inl (Errorf ''there is no common NAD mapping: %s/%s is empty'' [FStr NamespaceSystem, FStr ConfigMapNADMapping])
             else case fmlookup mapping network of
               None \<Rightarrow> Inl (Errorf ''network %s not found in NAD mapping for service %s/%s'' (FStr network # svc_key svc))
             | Some iface \<Rightarrow> Inr iface)
      })"

definition GetLoadBalancerName :: "lb_manager \<Rightarrow> string \<Rightarrow> service \<Rightarrow> string io" where
  "GetLoadBalancerName l clusterName svc = do {
     r \<leftarrow> getPrimaryService l svc;
     (let s = (case r of Inr (Some p) \<Rightarrow> p | _ \<Rightarrow> svc) in
      ret (loadBalancerName clusterName (svcNamespace s) (svcName s) (svcUID s)))
   }"

text \<open>The status, whether the load balancer exists, and the error.\<close>

definition GetLoadBalancer ::
  "lb_manager \<Rightarrow> string \<Rightarrow> service \<Rightarrow> (ingress list option \<times> bool \<times> go_error option) io" where
  "GetLoadBalancer l clusterName svc = do {
     name \<leftarrow> GetLoadBalancerName l clusterName svc;
     r \<leftarrow> lbGet (lmClients l) (lmNamespace l) name;
     ret (case r of
        Fail err _ \<Rightarrow> if IsNotFound err then (None, False, None) else (None, False, Some err)
      | Ok lb \<Rightarrow> if lbAddress lb = [] then (None, False, None) else (Some (svcIngress svc), True, None))
   }"

section \<open>The load balancer object\<close>

text \<open>\<open>patchLB\<close> on an object, and with its guard for a nil pointer.\<close>

definition patchLBObject :: "config \<Rightarrow> loadbalancer \<Rightarrow> loadbalancer" where
  "patchLBObject cfg lb =
     (let annotations = made (lbAnnotations lb);
          annotations' = (case GetManagementNetwork (Some cfg) of
            Some mgmt \<Rightarrow> (case NormalizeNetworkName NetworkTypeManagement mgmt of
                Inl _ \<Rightarrow> mdelete AnnotationKeyGuestClusterManagementNetworkOnLB annotations
              | Inr target \<Rightarrow> mset_key AnnotationKeyGuestClusterManagementNetworkOnLB target annotations)
          | None \<Rightarrow> mdelete AnnotationKeyGuestClusterManagementNetworkOnLB annotations)
      in lb\<lparr>lbAnnotations := annotations'\<rparr>)"

definition patchLB :: "config \<Rightarrow> loadbalancer option \<Rightarrow> loadbalancer option" where
  "patchLB cfg lb = map_option (patchLBObject cfg) lb"

text \<open>\<open>oldLB == nil || oldLB.Name == ""\<close>\<close>

definition absentLB :: "loadbalancer option \<Rightarrow> bool" where
  "absentLB oldLB = (case oldLB of None \<Rightarrow> True | Some old \<Rightarrow> lbName old = [])"

definition newLBObject :: "lb_manager \<Rightarrow> string \<Rightarrow> loadbalancer" where
  "newLBObject l name = \<lparr>lbAPIVersion = ''loadbalancer.harvesterhci.io/v1beta1'', lbNamespace = lmNamespace l,
     lbName = name, lbAnnotations = None, lbLabels = None, lbIPAM = [], lbWorkloadType = [],
     lbAddress = [], lbAllocatedIP = [], lbConditions = []\<rparr>"

definition constructLB ::
  "lb_manager \<Rightarrow> loadbalancer option \<Rightarrow> service \<Rightarrow> string \<Rightarrow> string \<Rightarrow> loadbalancer" where
  "constructLB l oldLB svc name clusterName =
     (let sa = svcAnnotations svc;
          lb = (if absentLB oldLB then newLBObject l name else the oldLB);
          a0 = made (lbAnnotations lb);
          a1 = (if absentLB oldLB
                then mset_key AnnotationKeyNetworkOnLB (mget sa KeyNetwork)
                       (mset_key AnnotationKeyNetwork (mget sa KeyNetwork) a0)
                else a0);
          a2 = mset_key AnnotationKeyCluster clusterName
                 (mset_key AnnotationKeyNamespace (mget sa KeyNamespace)
                   (mset_key AnnotationKeyProject (mget sa KeyProject) a1));
          ls = mset_key LBServiceNameKey (svcName svc)
                 (mset_key LBServiceNamespaceKey (svcNamespace svc)
                   (mset_key LBClusterNameKey clusterName (made (lbLabels lb))));
          lb1 = patchLBObject (lmConfig l) (lb\<lparr>lbAnnotations := a2, lbLabels := ls\<rparr>);
          ipam = (case mlookup sa KeyIPAM of Some ipamStr \<Rightarrow> ipamStr | None \<Rightarrow> ''pool'');
          lb2 = lb1\<lparr>lbIPAM := ipam, lbWorkloadType := ''cluster''\<rparr>
      in (case svcIngress svc of
            i # _ \<Rightarrow> lb2\<lparr>lbAddress := ingIP i\<rparr>
          | [] \<Rightarrow> lb2))"

text \<open>The framework passes \<open>kubernetes\<close> when no cluster name is given.\<close>

definition warnClusterName :: "string \<Rightarrow> string \<Rightarrow> unit io" where
  "warnClusterName name clusterName =
     (if clusterName = [] \<or> clusterName = DefaultGuestClusterName
      then logWarn [(''loadbalancer'', name), (''cluster name'', clusterName)]
        ''The --cluster-name is empty or default; please ensure a unique name is set to avoid resource conflicts.''
      else ret ())"

definition createOrUpdateLoadBalancer ::
  "lb_manager \<Rightarrow> string \<Rightarrow> string \<Rightarrow> service \<Rightarrow> go_error option io" where
  "createOrUpdateLoadBalancer l name clusterName svc = do {
     r \<leftarrow> lbGet (lmClients l) (lmNamespace l) name;
     (case other_error r of
        Some err \<Rightarrow> ret (Some err)
      | None \<Rightarrow>
          let newLB = constructLB l (resp_obj r) svc name clusterName in
          if resp_err r \<noteq> None then do {
            _ \<leftarrow> warnClusterName name clusterName;
            c \<leftarrow> lbCreate (lmClients l) newLB;
            ret (resp_err c)
          } else do {
            u \<leftarrow> lbUpdate (lmClients l) newLB;
            ret (resp_err u)
          })
   }"

section \<open>Checks\<close>

definition hasNetworkAnnotation :: "service \<Rightarrow> bool" where
  "hasNetworkAnnotation svc \<longleftrightarrow> mget (svcAnnotations svc) KeyNetwork \<noteq> []"

definition IsNetworkChanged :: "service \<Rightarrow> loadbalancer \<Rightarrow> bool" where
  "IsNetworkChanged svc lb \<longleftrightarrow>
     mget (svcAnnotations svc) KeyNetwork \<noteq> mget (lbAnnotations lb) AnnotationKeyNetworkOnLB"

definition networkChangedError :: "service \<Rightarrow> loadbalancer option \<Rightarrow> bool \<Rightarrow> go_error option" where
  "networkChangedError svc lbo secondary = (case lbo of
     None \<Rightarrow> None
   | Some lb \<Rightarrow>
       if lbName lb = [] then None
       else if secondary \<and> mget (svcAnnotations svc) KeyNetwork = [] \<and> mget (lbAnnotations lb) AnnotationKeyNetworkOnLB \<noteq> []
       then None
       else if IsNetworkChanged svc lb
       then Some (Errorf (''network annotation of service %s/%s is not same as the load balancer %s/%s, service: '' @
           [CHR 0x27] @ ''%s'' @ [CHR 0x27] @ '', lb: '' @ [CHR 0x27] @ ''%s'' @ [CHR 0x27])
         (svc_key svc @ [FStr (lbNamespace lb), FStr (lbName lb), FStr (mget (svcAnnotations svc) KeyNetwork),
          FStr (mget (lbAnnotations lb) AnnotationKeyNetworkOnLB)]))
       else None)"

definition checkNetworkChanged :: "lb_manager \<Rightarrow> service \<Rightarrow> string \<Rightarrow> bool \<Rightarrow> go_error option io" where
  "checkNetworkChanged l svc name secondary = do {
     r \<leftarrow> lbGet (lmClients l) (lmNamespace l) name;
     ret (case other_error r of
        Some err \<Rightarrow> Some err
      | None \<Rightarrow> networkChangedError svc (resp_obj r) secondary)
   }"

text \<open>The loop over the services; \<open>portMap\<close> holds the ports of the secondary service.\<close>

fun portOverlapLoop :: "32 word set \<Rightarrow> string \<Rightarrow> service list \<Rightarrow> go_error option" where
  "portOverlapLoop portMap uid [] = None"
| "portOverlapLoop portMap uid (svc # svcs) =
     (if svcUID svc = uid then portOverlapLoop portMap uid svcs
      else case find (\<lambda>p. p \<in> portMap) (svcPorts svc) of
        Some p \<Rightarrow> Some (Errorf ''port %d has been used in service %s/%s'' (FInt (sint p) # svc_key svc))
      | None \<Rightarrow> portOverlapLoop portMap uid svcs)"

definition checkPortOverlap :: "lb_manager \<Rightarrow> service \<Rightarrow> service \<Rightarrow> go_error option io" where
  "checkPortOverlap l primary secondary = do {
     r \<leftarrow> svcCacheList (lmClients l) NamespaceAll (KeyPrimaryService, primaryServiceLabelValue primary);
     ret (case r of
        Fail err _ \<Rightarrow> Some (Wrapf ''list service failed: %w'' [] err)
      | Ok svcs \<Rightarrow> portOverlapLoop (set (svcPorts secondary)) (svcUID secondary) (svcs @ [primary]))
   }"

definition checkSecondaryServicesBeforeDeleted :: "lb_manager \<Rightarrow> service \<Rightarrow> go_error option io" where
  "checkSecondaryServicesBeforeDeleted l primary = do {
     r \<leftarrow> svcCacheList (lmClients l) NamespaceAll (KeyPrimaryService, primaryServiceLabelValue primary);
     ret (case r of
        Fail err _ \<Rightarrow> Some err
      | Ok svcs \<Rightarrow>
          if svcs \<noteq> []
          then Some (Errorf ''service %s is still used by other services %v''
                 [FStr (svcNamespace primary @ ''/'' @ svcName primary),
                  FList (map (\<lambda>s. svcNamespace s @ ''/'' @ svcName s) svcs)])
          else None)
   }"

definition deleteLoadBalancer :: "lb_manager \<Rightarrow> string \<Rightarrow> service \<Rightarrow> go_error option io" where
  "deleteLoadBalancer l clusterName svc = do {
     e \<leftarrow> checkSecondaryServicesBeforeDeleted l svc;
     (case e of
        Some err \<Rightarrow> ret (Some (Wrapf ''could not delete load balancer for service %s/%s: %w'' (svc_key svc) err))
      | None \<Rightarrow> do {
          let name = loadBalancerName clusterName (svcNamespace svc) (svcName svc) (svcUID svc);
          r \<leftarrow> lbGet (lmClients l) (lmNamespace l) name;
          (case other_error r of
             Some err \<Rightarrow> ret (Some err)
           | None \<Rightarrow>
               if resp_err r = None then lbDelete (lmClients l) (lmNamespace l) name
               else ret None)
        })
   }"

section \<open>Waiting for the address and updating the service\<close>

text \<open>\<open>LoadBalancerReady.GetMessage\<close>: the message of the first condition of that type.\<close>

definition readyMessage :: "loadbalancer \<Rightarrow> string" where
  "readyMessage lb = (case find (\<lambda>c. condType c = ''Ready'') (lbConditions lb) of
     Some c \<Rightarrow> condMessage c | None \<Rightarrow> [])"

fun waitLoop :: "nat \<Rightarrow> go_error \<Rightarrow> (go_error + 'o \<times> string) io \<Rightarrow> (go_error + 'o \<times> string) io" where
  "waitLoop 0 err callback = ret (Inl err)"
| "waitLoop (Suc n) err callback = do {
     r \<leftarrow> callback;
     (case r of
        Inr x \<Rightarrow> ret (Inr x)
      | Inl e \<Rightarrow> do { _ \<leftarrow> sleep; waitLoop n e callback })
   }"

text \<open>The initial error is nil in the source; ten rounds replace it before it is read.\<close>

definition waitForIP :: "(go_error + 'o \<times> string) io \<Rightarrow> (go_error + 'o \<times> string) io" where
  "waitForIP callback = do {
     r \<leftarrow> waitLoop retryTimes (OtherError ''nil'') callback;
     ret (case r of
        Inr x \<Rightarrow> Inr x
      | Inl err \<Rightarrow> Inl (Wrapf ''timeout waiting for IP address, last error:%w'' [] err))
   }"

definition allocatedIP :: "lb_manager \<Rightarrow> string \<Rightarrow> (go_error + loadbalancer \<times> string) io" where
  "allocatedIP l name = do {
     r \<leftarrow> lbGet (lmClients l) (lmNamespace l) name;
     ret (case r of
        Fail err _ \<Rightarrow> Inl (Wrapf ''fail to get lb %w'' [] err)
      | Ok lb \<Rightarrow>
          if lbAllocatedIP lb = []
          then Inl (Errorf ''ip is not allocated, mode: %s, message: %s'' [FStr (lbIPAM lb), FStr (readyMessage lb)])
          else Inr (lb, lbAllocatedIP lb))
   }"

type_synonym update_object = "service \<Rightarrow> string \<Rightarrow> string \<Rightarrow> service"

definition retryFunc ::
  "lb_manager \<Rightarrow> service \<Rightarrow> string \<Rightarrow> string \<Rightarrow> string \<Rightarrow> update_object \<Rightarrow> unit \<Rightarrow> (go_error option \<times> unit) io" where
  "retryFunc l svc serviceType ip primaryLabel updateServiceObject u = do {
     r \<leftarrow> svcCacheGet (lmClients l) (svcNamespace svc) (svcName svc);
     (case r of
        Fail err _ \<Rightarrow> ret (Some (Wrapf ''failed to get %s service %s/%s to update ip %s, error: %w''
          (FStr serviceType # svc_key svc @ [FStr ip]) err), u)
      | Ok newService \<Rightarrow>
          if svcUID newService \<noteq> svcUID svc
          then ret (Some (Errorf ''failed to get %s service %s/%s to update ip %s, UID %v has changed to %v''
            (FStr serviceType # svc_key svc @ [FStr ip, FStr (svcUID svc), FStr (svcUID newService)])), u)
          else do {
            s \<leftarrow> svcUpdate (lmClients l) (updateServiceObject newService ip primaryLabel);
            ret (resp_err s, u)
          })
   }"

definition retryUpdateService ::
  "lb_manager \<Rightarrow> service \<Rightarrow> string \<Rightarrow> string \<Rightarrow> string \<Rightarrow> update_object \<Rightarrow> go_error option io" where
  "retryUpdateService l svc serviceType ip primaryLabel updateServiceObject = do {
     e \<leftarrow> RetryOnConflict DefaultBackoffSteps (retryFunc l svc serviceType ip primaryLabel updateServiceObject) ();
     ret (case e of
        Some err \<Rightarrow> Some (Wrapf ''failed to update %s service %s/%s with ip %s after retry, last error: %w''
          (FStr serviceType # svc_key svc @ [FStr ip]) err)
      | None \<Rightarrow> None)
   }"

definition isPrimaryServiceUpdatedWithIP :: "service \<Rightarrow> loadbalancer \<Rightarrow> string \<Rightarrow> string \<Rightarrow> bool" where
  "isPrimaryServiceUpdatedWithIP svc lb ip resolvedIface =
     (if resolvedIface \<noteq> [] \<and> mget (svcAnnotations svc) KeyKubevipServiceInterface \<noteq> resolvedIface then False
      else svcAnnotations svc \<noteq> None \<and> mget (svcAnnotations svc) KeyKubevipLoadBalancerIP = ip \<and>
        lbAddress lb = ip \<and> svcLabels svc \<noteq> None \<and> mget (svcLabels svc) KeyPrimaryService = [])"

definition updatePrimaryServiceObject :: "string \<Rightarrow> update_object" where
  "updatePrimaryServiceObject resolvedIface s ip primaryLabel =
     (let labels = (if svcLabels s \<noteq> None \<and> mget (svcLabels s) KeyPrimaryService \<noteq> []
                    then mset_key KeyPrimaryService [] (svcLabels s) else svcLabels s);
          a1 = mset_key KeyKubevipLoadBalancerIP ip (made (svcAnnotations s));
          a2 = (if resolvedIface \<noteq> [] then mset_key KeyKubevipServiceInterface resolvedIface a1 else a1)
      in s\<lparr>svcLabels := labels, svcAnnotations := a2\<rparr>)"

definition updatePrimaryServiceLoadBalancerIP :: "lb_manager \<Rightarrow> string \<Rightarrow> service \<Rightarrow> go_error option io" where
  "updatePrimaryServiceLoadBalancerIP l name svc = do {
     i \<leftarrow> resolveNetworkInterface l svc;
     (case i of
        Inl err \<Rightarrow> ret (Some (Wrapf ''resolve interface for service %s/%s: %w'' (svc_key svc) err))
      | Inr resolvedIface \<Rightarrow> do {
          w \<leftarrow> waitForIP (allocatedIP l name);
          (case w of
             Inl err \<Rightarrow> ret (Some err)
           | Inr (lb, ip) \<Rightarrow>
               if isPrimaryServiceUpdatedWithIP svc lb ip resolvedIface then ret None
               else retryUpdateService l svc ''primary'' ip [] (updatePrimaryServiceObject resolvedIface))
        })
   }"

definition isSecondaryServiceUpdatedWithPrimary :: "service \<Rightarrow> service \<Rightarrow> string \<Rightarrow> string \<Rightarrow> bool" where
  "isSecondaryServiceUpdatedWithPrimary primary secondary ip labelValue =
     (if hasNetworkAnnotation primary \<and>
         mget (svcAnnotations secondary) KeyNetwork \<noteq> mget (svcAnnotations primary) KeyNetwork then False
      else svcAnnotations secondary \<noteq> None \<and>
        mget (svcAnnotations secondary) KeyKubevipLoadBalancerIP = ip \<and>
        mget (svcAnnotations secondary) KeyKubevipServiceInterface = [] \<and>
        mget (svcAnnotations secondary) KeyIPAM = [] \<and>
        svcLabels secondary \<noteq> None \<and>
        mget (svcLabels secondary) KeyPrimaryService = labelValue)"

definition updateSecondaryServiceObject :: "service \<Rightarrow> update_object" where
  "updateSecondaryServiceObject primary s ip primaryLabel =
     (let labels = mset_key KeyPrimaryService primaryLabel (made (svcLabels s));
          a1 = mset_key KeyKubevipLoadBalancerIP ip (made (svcAnnotations s));
          a2 = (if hasNetworkAnnotation primary
                then mset_key KeyNetwork (mget (svcAnnotations primary) KeyNetwork) a1 else a1);
          a3 = mdelete KeyIPAM (mdelete KeyKubevipServiceInterface a2)
      in s\<lparr>svcLabels := labels, svcAnnotations := a3\<rparr>)"

definition updateSecondaryServiceLoadBalancerIP ::
  "lb_manager \<Rightarrow> string \<Rightarrow> service \<Rightarrow> service \<Rightarrow> go_error option io" where
  "updateSecondaryServiceLoadBalancerIP l ip primary secondary =
     (let labelValue = primaryServiceLabelValue primary in
      if isSecondaryServiceUpdatedWithPrimary primary secondary ip labelValue then ret None
      else retryUpdateService l secondary ''secondary'' ip labelValue (updateSecondaryServiceObject primary))"

section \<open>The operations of the cloud provider interface\<close>

definition ensurePrimaryLoadBalancer ::
  "lb_manager \<Rightarrow> string \<Rightarrow> service \<Rightarrow> (ingress list option \<times> go_error option) io" where
  "ensurePrimaryLoadBalancer l clusterName svc = do {
     let name = loadBalancerName clusterName (svcNamespace svc) (svcName svc) (svcUID svc);
     e1 \<leftarrow> checkNetworkChanged l svc name False;
     (case e1 of Some err \<Rightarrow> ret (None, Some err) | None \<Rightarrow> do {
     e2 \<leftarrow> createOrUpdateLoadBalancer l name clusterName svc;
     (case e2 of
        Some err \<Rightarrow> ret (None, Some (Wrapf ''create or update lb %s/%s failed, error: %w'' [FStr (lmNamespace l), FStr name] err))
      | None \<Rightarrow> do {
     e3 \<leftarrow> updatePrimaryServiceLoadBalancerIP l name svc;
     (case e3 of
        Some err \<Rightarrow> do {
          e4 \<leftarrow> deleteLoadBalancer l clusterName svc;
          ret (None, Some (case e4 of
             Some err' \<Rightarrow> Wrapf ''delete lb %s/%s failed, error: %w'' [FStr (lmNamespace l), FStr name] err'
           | None \<Rightarrow> Wrapf ''update load balancer IP of service %s/%s failed, error: %w'' (svc_key svc) err))
        }
      | None \<Rightarrow> ret (Some (svcIngress svc), None)) }) })
   }"

definition ensureSecondaryLoadBalancer ::
  "lb_manager \<Rightarrow> string \<Rightarrow> service \<Rightarrow> service \<Rightarrow> (ingress list option \<times> go_error option) io" where
  "ensureSecondaryLoadBalancer l clusterName primary secondary = (case svcIngress primary of
     [] \<Rightarrow> ret (None, Some (Errorf ''primary service %s/%s has no ingress IP'' (svc_key primary)))
   | ing # _ \<Rightarrow> do {
     e1 \<leftarrow> checkPortOverlap l primary secondary;
     (case e1 of
        Some err \<Rightarrow> ret (None, Some (Wrapf ''check port overlap failed, primary service: %s/%s, secondary service: %s/%s, error: %w''
          (svc_key primary @ svc_key secondary) err))
      | None \<Rightarrow> do {
     let primaryLBName = loadBalancerName clusterName (svcNamespace primary) (svcName primary) (svcUID primary);
     e2 \<leftarrow> checkNetworkChanged l secondary primaryLBName True;
     (case e2 of Some err \<Rightarrow> ret (None, Some err) | None \<Rightarrow> do {
     e3 \<leftarrow> deleteLoadBalancer l clusterName secondary;
     (case e3 of Some err \<Rightarrow> ret (None, Some err) | None \<Rightarrow> do {
     e4 \<leftarrow> updateSecondaryServiceLoadBalancerIP l (ingIP ing) primary secondary;
     ret (Some (svcIngress secondary), e4) }) }) })
   })"

definition EnsureLoadBalancer ::
  "lb_manager \<Rightarrow> string \<Rightarrow> service \<Rightarrow> (ingress list option \<times> go_error option) io" where
  "EnsureLoadBalancer l clusterName svc = do {
     i \<leftarrow> resolveNetworkInterface l svc;
     (case i of Inl err \<Rightarrow> ret (None, Some err) | Inr _ \<Rightarrow> do {
     p \<leftarrow> getPrimaryService l svc;
     (case p of
        Inl err \<Rightarrow> ret (None, Some err)
      | Inr (Some primarySvc) \<Rightarrow> ensureSecondaryLoadBalancer l clusterName primarySvc svc
      | Inr None \<Rightarrow> ensurePrimaryLoadBalancer l clusterName svc) })
   }"

definition UpdateLoadBalancer :: "lb_manager \<Rightarrow> string \<Rightarrow> service \<Rightarrow> go_error option io" where
  "UpdateLoadBalancer l clusterName svc = do {
     r \<leftarrow> EnsureLoadBalancer l clusterName svc;
     ret (case snd r of
        Some err \<Rightarrow> Some (Wrapf ''update load balancer failed, error: %w'' [] err)
      | None \<Rightarrow> None)
   }"

definition EnsureLoadBalancerDeleted :: "lb_manager \<Rightarrow> string \<Rightarrow> service \<Rightarrow> go_error option io" where
  "EnsureLoadBalancerDeleted l clusterName svc = do {
     p \<leftarrow> getPrimaryService l svc;
     (case p of
        Inl err \<Rightarrow> ret (Some err)
      | Inr (Some _) \<Rightarrow> ret None
      | Inr None \<Rightarrow> deleteLoadBalancer l clusterName svc)
   }"

end
