(* ===== verification/Traces.thy ===== *)
theory Traces
  imports Retry
begin

text \<open>
  Reasoning about the traces of operations.  \<open>always P t\<close> says that every event of the
  trace satisfies \<open>P\<close> together with the events before it; \<open>holds P m\<close> says so of every
  trace of an operation.  For predicates that survive more events in front (\<open>monoP\<close>)
  this composes along the code, retries included.
\<close>

section \<open>Branches append\<close>

lemma appends_branches [simp]:
  "appends a \<Longrightarrow> (\<And>x. appends (f x)) \<Longrightarrow> appends (case opt of None \<Rightarrow> a | Some x \<Rightarrow> f x)"
  "(\<And>x. appends (g x)) \<Longrightarrow> (\<And>x. appends (f x)) \<Longrightarrow> appends (case sm of Inl x \<Rightarrow> g x | Inr x \<Rightarrow> f x)"
  "appends a \<Longrightarrow> appends b \<Longrightarrow> appends (if c then a else b)"
  "(\<And>x y. appends (k x y)) \<Longrightarrow> appends (case p of (x, y) \<Rightarrow> k x y)"
  "(\<And>x. appends (q x)) \<Longrightarrow> (\<And>x y. appends (j x y)) \<Longrightarrow> appends (case r of Ok x \<Rightarrow> q x | Fail x y \<Rightarrow> j x y)"
  "appends a \<Longrightarrow> (\<And>x xs. appends (c' x xs)) \<Longrightarrow> appends (case l of [] \<Rightarrow> a | x # xs \<Rightarrow> c' x xs)"
  by (simp_all split: option.split sum.split prod.split resp.split list.split)

section \<open>Events in context\<close>

type_synonym event_pred = "history \<Rightarrow> event \<Rightarrow> bool"

definition always :: "event_pred \<Rightarrow> history \<Rightarrow> bool" where
  "always P t \<longleftrightarrow> (\<forall>pre e post. t = pre @ e # post \<longrightarrow> P pre e)"

lemma always_Nil [simp]: "always P []"
  by (simp add: always_def)

lemma always_Cons [simp]: "always P (e # t) \<longleftrightarrow> P [] e \<and> always (\<lambda>pre. P (e # pre)) t"
  unfolding always_def by (auto simp: Cons_eq_append_conv)

lemma always_append: "always P (t @ u) \<longleftrightarrow> always P t \<and> always (\<lambda>pre. P (t @ pre)) u"
  by (induction t arbitrary: P) auto

lemma always_memD: "always P t \<Longrightarrow> e \<in> set t \<Longrightarrow> \<exists>pre post. t = pre @ e # post \<and> P pre e"
  unfolding always_def by (metis split_list)

definition monoP :: "event_pred \<Rightarrow> bool" where
  "monoP P \<longleftrightarrow> (\<forall>pre pre' e. P pre e \<longrightarrow> set pre \<subseteq> set pre' \<longrightarrow> P pre' e)"

lemma monoP_always: "monoP P \<Longrightarrow> always P t \<Longrightarrow> always (\<lambda>pre. P (u @ pre)) t"
  unfolding monoP_def always_def by (metis set_append Un_upper2)

lemma monoP_Cons:
  assumes "monoP P"
  shows "monoP (\<lambda>pre. P (e # pre))"
  unfolding monoP_def
proof (intro allI impI)
  fix pre pre' e'
  assume "P (e # pre) e'" "set pre \<subseteq> set pre'"
  moreover from this have "set (e # pre) \<subseteq> set (e # pre')" by auto
  ultimately show "P (e # pre') e'" using assms unfolding monoP_def by blast
qed

lemma monoP_const [simp]: "monoP (\<lambda>_. P)"
  by (simp add: monoP_def)

definition holds :: "event_pred \<Rightarrow> 'a io \<Rightarrow> bool" where
  "holds P m \<longleftrightarrow> appends m \<and> (\<forall>h. always P (trace_of m h))"

lemma holds_ret [simp]: "holds P (ret a)"
  by (simp add: holds_def)

lemma holds_bind:
  assumes "monoP P" "holds P m" "\<And>a. holds P (k a)"
  shows "holds P (State_Monad.bind m k)"
  using assms by (auto simp: holds_def always_append intro: monoP_always)

lemma holds_branches [simp]:
  "holds P a \<Longrightarrow> (\<And>x. holds P (f x)) \<Longrightarrow> holds P (case opt of None \<Rightarrow> a | Some x \<Rightarrow> f x)"
  "(\<And>x. holds P (g x)) \<Longrightarrow> (\<And>x. holds P (f x)) \<Longrightarrow> holds P (case sm of Inl x \<Rightarrow> g x | Inr x \<Rightarrow> f x)"
  "(c \<Longrightarrow> holds P a) \<Longrightarrow> (\<not> c \<Longrightarrow> holds P b) \<Longrightarrow> holds P (if c then a else b)"
  "(\<And>x y. holds P (k x y)) \<Longrightarrow> holds P (case p of (x, y) \<Rightarrow> k x y)"
  "(\<And>x. holds P (q x)) \<Longrightarrow> (\<And>x y. holds P (j x y)) \<Longrightarrow> holds P (case r of Ok x \<Rightarrow> q x | Fail x y \<Rightarrow> j x y)"
  "holds P a \<Longrightarrow> (\<And>x xs. holds P (c' x xs)) \<Longrightarrow> holds P (case l of [] \<Rightarrow> a | x # xs \<Rightarrow> c' x xs)"
  by (simp_all split: option.split sum.split prod.split resp.split list.split)

text \<open>A retried operation holds what each attempt holds, if sleeping is allowed.\<close>

lemma holds_retry:
  assumes "monoP P" "\<And>s. holds P (fn s)" "\<And>pre. P pre Sleep"
  shows "holds P (RetryOnConflict n fn s)"
proof -
  have a: "appends (fn s)" for s using assms(2) by (simp add: holds_def)
  have "holds P (retry_loop n le fn s)" for le s
  proof (induction n arbitrary: le s)
    case (Suc n)
    have "holds P sleep" using assms(3) by (simp add: holds_def)
    with Suc assms show ?case by (auto intro!: holds_bind holds_branches)
  qed simp
  then show ?thesis by (simp add: RetryOnConflict_loop)
qed

section \<open>Counting\<close>

definition at_most :: "nat \<Rightarrow> (event \<Rightarrow> bool) \<Rightarrow> 'a io \<Rightarrow> bool" where
  "at_most k Q m \<longleftrightarrow> appends m \<and> (\<forall>h. length (filter Q (trace_of m h)) \<le> k)"

lemma at_most_ret [simp]: "at_most k Q (ret a)"
  by (simp add: at_most_def)

lemma at_most_mono: "at_most k Q m \<Longrightarrow> k \<le> k' \<Longrightarrow> at_most k' Q m"
  by (auto simp: at_most_def intro: order_trans)

lemma at_most_bind:
  assumes "at_most i Q m" "\<And>a. at_most j Q (k a)" "i + j \<le> n"
  shows "at_most n Q (State_Monad.bind m k)"
  using assms by (auto simp: at_most_def intro: order_trans [OF add_mono])

lemma at_most_branches [simp]:
  "at_most n Q a \<Longrightarrow> (\<And>x. at_most n Q (f x)) \<Longrightarrow> at_most n Q (case opt of None \<Rightarrow> a | Some x \<Rightarrow> f x)"
  "(\<And>x. at_most n Q (g x)) \<Longrightarrow> (\<And>x. at_most n Q (f x)) \<Longrightarrow> at_most n Q (case sm of Inl x \<Rightarrow> g x | Inr x \<Rightarrow> f x)"
  "at_most n Q a \<Longrightarrow> at_most n Q b \<Longrightarrow> at_most n Q (if c then a else b)"
  "(\<And>x y. at_most n Q (k x y)) \<Longrightarrow> at_most n Q (case p of (x, y) \<Rightarrow> k x y)"
  "(\<And>x. at_most n Q (q x)) \<Longrightarrow> (\<And>x y. at_most n Q (j x y)) \<Longrightarrow> at_most n Q (case r of Ok x \<Rightarrow> q x | Fail x y \<Rightarrow> j x y)"
  "at_most n Q a \<Longrightarrow> (\<And>x xs. at_most n Q (c' x xs)) \<Longrightarrow> at_most n Q (case l of [] \<Rightarrow> a | x # xs \<Rightarrow> c' x xs)"
  by (simp_all split: option.split sum.split prod.split resp.split list.split)

lemma at_most_retry:
  assumes "\<And>s. at_most k Q (fn s)"
  shows "at_most (n * k + (if Q Sleep then n - 1 else 0)) Q (RetryOnConflict n fn s)"
proof -
  have a: "appends (fn s)" for s using assms by (simp add: at_most_def)
  have sl: "at_most (if Q Sleep then 1 else 0) Q sleep" by (simp add: at_most_def)
  have "at_most (n * k + (if Q Sleep then n - 1 else 0)) Q (retry_loop n le fn s)" for le s
  proof (induction n arbitrary: le s)
    case (Suc n)
    have *: "at_most (n * k + (if Q Sleep then n else 0)) Q
        (State_Monad.bind sleep (\<lambda>_. retry_loop n (Some e) fn s'))" if "n \<noteq> 0" for e s'
      using that by (intro at_most_bind [OF sl Suc]) auto
    show ?case
      unfolding retry_loop.simps
      by (rule at_most_bind [OF assms, where j = "n * k + (if Q Sleep then n else 0)"])
        (use * in \<open>auto split: prod.split option.split\<close>)
  qed simp
  then show ?thesis by (simp add: RetryOnConflict_loop)
qed

end
