(* ===== verification/LoadBalancer_Facts.thy ===== *)
theory LoadBalancer_Facts
  imports LoadBalancer Traces
begin

text \<open>
  Facts on the load balancer manager: the traces of its operations, what they may write and
  when, what success means, and the properties.
\<close>

section \<open>Appending\<close>

lemma appends_NAD [simp]: "appends (GetNADInterfaceMapping E)"
  by (simp add: GetNADInterfaceMapping_def)

lemma appends_reads [simp]:
  "appends (getPrimaryService l svc)" "appends (resolveNetworkInterface l svc)"
  "appends (GetLoadBalancerName l cl svc)" "appends (GetLoadBalancer l cl svc)"
  "appends (checkNetworkChanged l svc n sec)" "appends (checkPortOverlap l p svc)"
  "appends (checkSecondaryServicesBeforeDeleted l svc)" "appends (allocatedIP l n)"
  by (simp_all add: getPrimaryService_def resolveNetworkInterface_def GetLoadBalancerName_def
      GetLoadBalancer_def checkNetworkChanged_def checkPortOverlap_def
      checkSecondaryServicesBeforeDeleted_def allocatedIP_def Let_def split: list.split option.split)

lemma appends_waitLoop [simp]: "appends cb \<Longrightarrow> appends (waitLoop n e cb)"
  by (induction n arbitrary: e) simp_all

lemma appends_waitForIP [simp]: "appends cb \<Longrightarrow> appends (waitForIP cb)"
  by (simp add: waitForIP_def)

lemma appends_retryFunc [simp]: "appends (retryFunc l svc ty ip lab upd u)"
  by (simp add: retryFunc_def)

interpretation svc_retry: retried "retryFunc l svc ty ip lab upd" for l svc ty ip lab upd
  by unfold_locales simp

lemma warnClusterName_simps [simp]:
  "appends (warnClusterName n cl)"
  "trace_of (warnClusterName n cl) h = (if cl = [] \<or> cl = DefaultGuestClusterName
     then [LogWarn [(''loadbalancer'', n), (''cluster name'', cl)]
       ''The --cluster-name is empty or default; please ensure a unique name is set to avoid resource conflicts.'']
     else [])"
  by (simp_all add: warnClusterName_def)

lemma appends_writes [simp]:
  "appends (createOrUpdateLoadBalancer l n cl svc)" "appends (deleteLoadBalancer l cl svc)"
  "appends (retryUpdateService l svc ty ip lab upd)"
  by (simp_all add: createOrUpdateLoadBalancer_def deleteLoadBalancer_def retryUpdateService_def Let_def)

lemma appends_updates [simp]:
  "appends (updatePrimaryServiceLoadBalancerIP l n svc)"
  "appends (updateSecondaryServiceLoadBalancerIP l ip p svc)"
  by (simp_all add: updatePrimaryServiceLoadBalancerIP_def updateSecondaryServiceLoadBalancerIP_def Let_def)

lemma appends_ensure [simp]:
  "appends (ensurePrimaryLoadBalancer l cl svc)" "appends (ensureSecondaryLoadBalancer l cl p svc)"
  "appends (EnsureLoadBalancer l cl svc)" "appends (EnsureLoadBalancerDeleted l cl svc)"
  "appends (UpdateLoadBalancer l cl svc)"
  by (simp_all add: ensurePrimaryLoadBalancer_def ensureSecondaryLoadBalancer_def EnsureLoadBalancer_def
      EnsureLoadBalancerDeleted_def UpdateLoadBalancer_def Let_def)

section \<open>Reads\<close>

text \<open>An event predicate that every read and every sleep satisfies.\<close>

definition allows_reads :: "event_pred \<Rightarrow> bool" where
  "allows_reads P \<longleftrightarrow> (\<forall>pre e. \<not> is_write e \<longrightarrow> P pre e)"

lemma holds_call:
  "allows_reads P \<Longrightarrow> holds P (lbGet E ns n)" "allows_reads P \<Longrightarrow> holds P (svcCacheGet E ns n)"
  "allows_reads P \<Longrightarrow> holds P (svcCacheList E ns sel)" "allows_reads P \<Longrightarrow> holds P (cmCacheGet E ns n)"
  "allows_reads P \<Longrightarrow> holds P sleep"
  by (simp_all add: holds_def allows_reads_def)

lemma holds_reads:
  assumes "monoP P" "allows_reads P"
  shows "holds P (getPrimaryService l svc)" "holds P (resolveNetworkInterface l svc)"
    "holds P (checkNetworkChanged l svc n sec)" "holds P (checkPortOverlap l p svc)"
    "holds P (checkSecondaryServicesBeforeDeleted l svc)" "holds P (allocatedIP l n)"
  using assms
  by (auto simp: getPrimaryService_def resolveNetworkInterface_def GetNADInterfaceMapping_def
      checkNetworkChanged_def checkPortOverlap_def checkSecondaryServicesBeforeDeleted_def allocatedIP_def
      Let_def intro!: holds_bind holds_branches holds_call split: list.split)

lemma holds_waitForIP:
  assumes "monoP P" "allows_reads P" "holds P cb"
  shows "holds P (waitForIP cb)"
proof -
  have "holds P (waitLoop n e cb)" for n e
    using assms by (induction n arbitrary: e) (auto intro!: holds_bind holds_branches holds_call)
  then show ?thesis using assms by (auto simp: waitForIP_def intro!: holds_bind)
qed

lemma read_only_holds: "holds (\<lambda>_ e. \<not> is_write e) m \<Longrightarrow> read_only (trace_of m h)"
  unfolding holds_def read_only_def using always_memD by blast

lemma no_write_pred: "monoP (\<lambda>_ e. \<not> is_write e)" "allows_reads (\<lambda>_ e. \<not> is_write e)"
  by (simp_all add: allows_reads_def)

lemmas read_only_reads [simp] = holds_reads [OF no_write_pred, THEN read_only_holds]

section \<open>Writes\<close>

text \<open>The writes of the manager, each with the reads that must come before it.\<close>

definition lb_name_of :: "string \<Rightarrow> service \<Rightarrow> string" where
  "lb_name_of cl svc = loadBalancerName cl (svcNamespace svc) (svcName svc) (svcUID svc)"

definition same_elsewhere :: "string set \<Rightarrow> gomap \<Rightarrow> gomap \<Rightarrow> bool" where
  "same_elsewhere ks m m' \<longleftrightarrow> (\<forall>k. k \<notin> ks \<longrightarrow> mlookup m' k = mlookup m k)"

definition svc_update_ok :: "service \<Rightarrow> service \<Rightarrow> bool" where
  "svc_update_ok old new \<longleftrightarrow>
     new = old\<lparr>svcLabels := svcLabels new, svcAnnotations := svcAnnotations new\<rparr> \<and>
     same_elsewhere {KeyPrimaryService} (svcLabels old) (svcLabels new) \<and>
     same_elsewhere {KeyKubevipLoadBalancerIP, KeyKubevipServiceInterface, KeyNetwork, KeyIPAM}
       (svcAnnotations old) (svcAnnotations new)"

fun write_ok :: "lb_manager \<Rightarrow> string \<Rightarrow> service \<Rightarrow> event_pred" where
  "write_ok l cl svc pre (LbDelete ns n r) \<longleftrightarrow>
     ns = lmNamespace l \<and> n = lb_name_of cl svc \<and>
     SvcCacheList NamespaceAll (KeyPrimaryService, primaryServiceLabelValue svc) (Ok []) \<in> set pre \<and>
     (\<exists>lb. LbGet ns n (Ok lb) \<in> set pre)"
| "write_ok l cl svc pre (LbCreate lb r) \<longleftrightarrow>
     (\<exists>e old. IsNotFound e \<and> LbGet (lmNamespace l) (lb_name_of cl svc) (Fail e old) \<in> set pre \<and>
        lb = constructLB l old svc (lb_name_of cl svc) cl)"
| "write_ok l cl svc pre (LbUpdate lb r) \<longleftrightarrow>
     (\<exists>old. LbGet (lmNamespace l) (lb_name_of cl svc) (Ok old) \<in> set pre \<and>
        lb = constructLB l (Some old) svc (lb_name_of cl svc) cl)"
| "write_ok l cl svc pre (SvcUpdate s r) \<longleftrightarrow>
     (\<exists>old. SvcCacheGet (svcNamespace svc) (svcName svc) (Ok old) \<in> set pre \<and>
        svcUID old = svcUID svc \<and> svc_update_ok old s)"
| "write_ok l cl svc pre e \<longleftrightarrow> \<not> is_write e"

lemma write_ok_pred: "monoP (write_ok l cl svc)" "allows_reads (write_ok l cl svc)"
proof -
  show "monoP (write_ok l cl svc)"
    unfolding monoP_def
  proof (intro allI impI)
    fix pre pre' e
    assume "write_ok l cl svc pre e" "set pre \<subseteq> set pre'"
    then show "write_ok l cl svc pre' e" by (cases e) auto
  qed
  have "\<not> is_write e \<longrightarrow> write_ok l cl svc pre e" for pre e by (cases e) auto
  then show "allows_reads (write_ok l cl svc)" by (simp add: allows_reads_def)
qed

lemma other_error_None: "other_error r = None \<longleftrightarrow> (\<exists>a. r = Ok a) \<or> (\<exists>e x. r = Fail e x \<and> IsNotFound e)"
  by (auto simp: other_error_def resp_err_def split: resp.splits)

lemma createOrUpdate_writes:
  "holds (write_ok l cl svc) (createOrUpdateLoadBalancer l (lb_name_of cl svc) cl svc)"
  unfolding holds_def
proof (intro conjI allI)
  fix h
  show "always (write_ok l cl svc) (trace_of (createOrUpdateLoadBalancer l (lb_name_of cl svc) cl svc) h)"
    by (cases "envLbGet (lmClients l) h (lmNamespace l) (lb_name_of cl svc)")
      (auto simp: createOrUpdateLoadBalancer_def other_error_def resp_err_def resp_obj_def Let_def
        split: option.splits)
qed simp

lemma deleteLoadBalancer_writes: "holds (write_ok l cl svc) (deleteLoadBalancer l cl svc)"
  unfolding holds_def
proof (intro conjI allI)
  fix h
  show "always (write_ok l cl svc) (trace_of (deleteLoadBalancer l cl svc) h)"
    by (auto simp: deleteLoadBalancer_def checkSecondaryServicesBeforeDeleted_def other_error_def resp_err_def
        Let_def lb_name_of_def split: option.splits resp.splits)
qed simp

lemma updatePrimaryServiceObject_ok: "svc_update_ok old (updatePrimaryServiceObject ifc old ip lab)"
  by (auto simp: svc_update_ok_def updatePrimaryServiceObject_def same_elsewhere_def Let_def)

lemma updateSecondaryServiceObject_ok: "svc_update_ok old (updateSecondaryServiceObject p old ip lab)"
  by (auto simp: svc_update_ok_def updateSecondaryServiceObject_def same_elsewhere_def Let_def)

lemma retryUpdateService_writes:
  assumes "\<And>old. svc_update_ok old (upd old ip lab)"
  shows "holds (write_ok l cl svc) (retryUpdateService l svc ty ip lab upd)"
proof -
  have "holds (write_ok l cl svc) (retryFunc l svc ty ip lab upd u)" for u
    using assms by (auto simp: holds_def retryFunc_def split: resp.split)
  then show ?thesis
    unfolding retryUpdateService_def using write_ok_pred
    by (intro holds_bind holds_retry) (auto simp: allows_reads_def)
qed

lemmas write_ok_reads = holds_reads [OF write_ok_pred]

lemma ensure_writes: "holds (write_ok l cl svc) (EnsureLoadBalancer l cl svc)"
proof -
  have "holds (write_ok l cl svc) (updatePrimaryServiceLoadBalancerIP l n svc)" for n
    unfolding updatePrimaryServiceLoadBalancerIP_def
    by (intro holds_bind holds_branches write_ok_reads write_ok_pred holds_ret holds_waitForIP
        retryUpdateService_writes updatePrimaryServiceObject_ok)
  then have "holds (write_ok l cl svc) (ensurePrimaryLoadBalancer l cl svc)"
    unfolding ensurePrimaryLoadBalancer_def Let_def lb_name_of_def [symmetric]
    by (intro holds_bind holds_branches write_ok_reads write_ok_pred holds_ret createOrUpdate_writes
        deleteLoadBalancer_writes)
  moreover have "holds (write_ok l cl svc) (updateSecondaryServiceLoadBalancerIP l ip p svc)" for ip p
    unfolding updateSecondaryServiceLoadBalancerIP_def Let_def
    by (intro holds_branches holds_ret retryUpdateService_writes updateSecondaryServiceObject_ok)
  then have "holds (write_ok l cl svc) (ensureSecondaryLoadBalancer l cl p svc)" for p
    unfolding ensureSecondaryLoadBalancer_def Let_def
    by (intro holds_bind holds_branches write_ok_reads write_ok_pred holds_ret deleteLoadBalancer_writes)
  ultimately show ?thesis
    unfolding EnsureLoadBalancer_def
    by (intro holds_bind holds_branches write_ok_reads write_ok_pred holds_ret)
qed

lemma deleted_writes: "holds (write_ok l cl svc) (EnsureLoadBalancerDeleted l cl svc)"
  unfolding EnsureLoadBalancerDeleted_def
  by (intro holds_bind holds_branches write_ok_reads write_ok_pred holds_ret deleteLoadBalancer_writes)

lemma update_trace: "trace_of (UpdateLoadBalancer l cl svc) h = trace_of (EnsureLoadBalancer l cl svc) h"
  by (simp add: UpdateLoadBalancer_def)

lemma writes_split:
  assumes "holds (write_ok l cl svc) m" "trace_of m h = pre @ e # post"
  shows "write_ok l cl svc pre e"
  using assms by (auto simp: holds_def always_def)

section \<open>What success means\<close>

text \<open>The API client never answers with the timeout error of the retry library.\<close>

definition no_wait_timeout :: "env \<Rightarrow> bool" where
  "no_wait_timeout E \<longleftrightarrow> (\<forall>h s x. envSvcUpdate E h s \<noteq> Fail ErrWaitTimeout x)"

lemma waitLoop_success:
  assumes "appends cb" "result_of (waitLoop n e cb) h = Inr x"
  shows "\<exists>t. result_of cb (h @ t) = Inr x \<and> trace_of (waitLoop n e cb) h = t @ trace_of cb (h @ t)"
  using assms(2)
proof (induction n arbitrary: e h)
  case (Suc n)
  show ?case
  proof (cases "result_of cb h")
    case (Inr y)
    with Suc.prems assms(1) show ?thesis by (intro exI [of _ "[]"]) simp
  next
    case (Inl e')
    with Suc.prems assms(1) have "result_of (waitLoop n e' cb) (h @ trace_of cb h @ [Sleep]) = Inr x" by simp
    from Suc.IH [OF this] obtain t where
      "result_of cb ((h @ trace_of cb h @ [Sleep]) @ t) = Inr x"
      "trace_of (waitLoop n e' cb) (h @ trace_of cb h @ [Sleep]) = t @ trace_of cb ((h @ trace_of cb h @ [Sleep]) @ t)"
      by blast
    with Inl assms(1) show ?thesis by (intro exI [of _ "trace_of cb h @ Sleep # t"]) simp
  qed
qed simp

lemma waitForIP_success:
  assumes "result_of (waitForIP (allocatedIP l n)) h = Inr (lb, ip)"
  shows "ip = lbAllocatedIP lb \<and> ip \<noteq> [] \<and>
    (\<exists>t. trace_of (waitForIP (allocatedIP l n)) h = t @ [LbGet (lmNamespace l) n (Ok lb)])"
proof -
  have "result_of (waitLoop retryTimes (OtherError ''nil'') (allocatedIP l n)) h = Inr (lb, ip)"
    using assms by (simp add: waitForIP_def split: sum.splits)
  from waitLoop_success [OF _ this] obtain t where
    "result_of (allocatedIP l n) (h @ t) = Inr (lb, ip)"
    "trace_of (waitLoop retryTimes (OtherError ''nil'') (allocatedIP l n)) h = t @ trace_of (allocatedIP l n) (h @ t)"
    by auto
  then show ?thesis
    by (auto simp: waitForIP_def allocatedIP_def split: resp.splits if_splits)
qed

lemma retryUpdateService_success:
  assumes "no_wait_timeout (lmClients l)" "result_of (retryUpdateService l svc ty ip lab upd) h = None"
  shows "\<exists>t old r. svcUID old = svcUID svc \<and> trace_of (retryUpdateService l svc ty ip lab upd) h =
    t @ [SvcCacheGet (svcNamespace svc) (svcName svc) (Ok old), SvcUpdate (upd old ip lab) (Ok r)]"
proof -
  let ?fn = "retryFunc l svc ty ip lab upd"
  have "fst (result_of (?fn u) h) \<noteq> Some ErrWaitTimeout" for u h
    using assms(1) by (auto simp: retryFunc_def no_wait_timeout_def resp_err_def split: resp.split)
  moreover have "result_of (RetryOnConflict DefaultBackoffSteps ?fn ()) h = None"
    using assms(2) by (simp add: retryUpdateService_def split: option.splits)
  ultimately obtain t u where "fst (result_of (?fn u) (h @ t)) = None"
    "trace_of (RetryOnConflict DefaultBackoffSteps ?fn ()) h = t @ trace_of (?fn u) (h @ t)"
    using svc_retry.retry_success [of l svc ty ip lab upd DefaultBackoffSteps "()" h]
    by (auto simp: DefaultBackoffSteps_def)
  then show ?thesis
    by (auto simp: retryUpdateService_def retryFunc_def resp_err_def split: resp.splits if_splits)
qed

lemma updatePrimary_success:
  assumes "no_wait_timeout (lmClients l)" "result_of (updatePrimaryServiceLoadBalancerIP l n svc) h = None"
  shows "\<exists>t lb ifc u. trace_of (updatePrimaryServiceLoadBalancerIP l n svc) h =
      t @ LbGet (lmNamespace l) n (Ok lb) # u \<and> lbAllocatedIP lb \<noteq> [] \<and>
      (u = [] \<and> isPrimaryServiceUpdatedWithIP svc lb (lbAllocatedIP lb) ifc \<or>
       (\<exists>v old r. u = v @ [SvcCacheGet (svcNamespace svc) (svcName svc) (Ok old),
           SvcUpdate (updatePrimaryServiceObject ifc old (lbAllocatedIP lb) []) (Ok r)] \<and> svcUID old = svcUID svc))"
proof -
  obtain ifc where i: "result_of (resolveNetworkInterface l svc) h = Inr ifc"
    using assms(2) by (auto simp: updatePrimaryServiceLoadBalancerIP_def split: sum.splits)
  let ?h1 = "h @ trace_of (resolveNetworkInterface l svc) h"
  obtain lb ip where w: "result_of (waitForIP (allocatedIP l n)) ?h1 = Inr (lb, ip)"
    using assms(2) i by (auto simp: updatePrimaryServiceLoadBalancerIP_def split: sum.splits)
  from waitForIP_success [OF w] obtain t where ip: "ip = lbAllocatedIP lb" "ip \<noteq> []"
    and t: "trace_of (waitForIP (allocatedIP l n)) ?h1 = t @ [LbGet (lmNamespace l) n (Ok lb)]" by blast
  let ?t = "trace_of (resolveNetworkInterface l svc) h @ t"
  show ?thesis
  proof (cases "isPrimaryServiceUpdatedWithIP svc lb ip ifc")
    case True
    then show ?thesis using i w t ip
      by (intro exI [of _ ?t] exI [of _ lb] exI [of _ ifc] exI [of _ "[]"])
        (simp add: updatePrimaryServiceLoadBalancerIP_def)
  next
    case False
    let ?h2 = "h @ ?t @ [LbGet (lmNamespace l) n (Ok lb)]"
    have "result_of (retryUpdateService l svc ''primary'' ip [] (updatePrimaryServiceObject ifc)) ?h2 = None"
      using assms(2) i w t False by (simp add: updatePrimaryServiceLoadBalancerIP_def)
    from retryUpdateService_success [OF assms(1) this] obtain v old r where
      "svcUID old = svcUID svc" and
      v: "trace_of (retryUpdateService l svc ''primary'' ip [] (updatePrimaryServiceObject ifc)) ?h2 =
        v @ [SvcCacheGet (svcNamespace svc) (svcName svc) (Ok old), SvcUpdate (updatePrimaryServiceObject ifc old ip []) (Ok r)]"
      by blast
    then show ?thesis using i w t False ip
      by (intro exI [of _ ?t] exI [of _ lb] exI [of _ ifc] exI [of _ "v @ [SvcCacheGet (svcNamespace svc)
          (svcName svc) (Ok old), SvcUpdate (updatePrimaryServiceObject ifc old ip []) (Ok r)]"])
        (auto simp: updatePrimaryServiceLoadBalancerIP_def)
  qed
qed

lemma createOrUpdate_success:
  assumes "result_of (createOrUpdateLoadBalancer l n cl svc) h = None"
  shows "\<exists>t old lb r. trace_of (createOrUpdateLoadBalancer l n cl svc) h = t @ [lb] \<and>
     (lb = LbCreate (constructLB l old svc n cl) (Ok r) \<or> lb = LbUpdate (constructLB l old svc n cl) (Ok r))"
  using assms
  by (cases "envLbGet (lmClients l) h (lmNamespace l) n")
    (auto simp: createOrUpdateLoadBalancer_def other_error_def resp_err_def Let_def split: resp.splits if_splits)

text \<open>The stages of a primary service.\<close>

lemma primary_success_stages:
  assumes "result_of (ensurePrimaryLoadBalancer l cl svc) h = (st, None)"
  obtains h1 h2 where "st = Some (svcIngress svc)"
    "result_of (createOrUpdateLoadBalancer l (lb_name_of cl svc) cl svc) h1 = None"
    "result_of (updatePrimaryServiceLoadBalancerIP l (lb_name_of cl svc) svc) h2 = None"
    "trace_of (ensurePrimaryLoadBalancer l cl svc) h =
       trace_of (checkNetworkChanged l svc (lb_name_of cl svc) False) h @
       trace_of (createOrUpdateLoadBalancer l (lb_name_of cl svc) cl svc) h1 @
       trace_of (updatePrimaryServiceLoadBalancerIP l (lb_name_of cl svc) svc) h2"
  using assms that
  by (auto simp: ensurePrimaryLoadBalancer_def Let_def lb_name_of_def split: option.splits)

section \<open>One write of the load balancer object\<close>

lemma unique_split:
  assumes "pre @ w # post = t1 @ v # t2" "Q w" "Q v" "\<forall>e\<in>set t1. \<not> Q e" "\<forall>e\<in>set t2. \<not> Q e"
  shows "pre = t1 \<and> w = v \<and> post = t2"
  using assms by (auto simp: append_eq_append_conv2 Cons_eq_append_conv append_eq_Cons_conv)

fun is_lb_put :: "event \<Rightarrow> bool" where
  "is_lb_put (LbCreate _ _) = True"
| "is_lb_put (LbUpdate _ _) = True"
| "is_lb_put _ = False"

lemma no_put_pred: "monoP (\<lambda>_ e. \<not> is_lb_put e)" "allows_reads (\<lambda>_ e. \<not> is_lb_put e)"
proof -
  have "is_lb_put e \<Longrightarrow> is_write e" for e by (cases e) auto
  then show "monoP (\<lambda>_ e. \<not> is_lb_put e)" "allows_reads (\<lambda>_ e. \<not> is_lb_put e)"
    by (auto simp: allows_reads_def)
qed

lemma holds_no_put: "holds (\<lambda>_ e. \<not> is_lb_put e) m \<Longrightarrow> \<forall>e\<in>set (trace_of m h). \<not> is_lb_put e"
  unfolding holds_def using always_memD by blast

lemma no_put_retryUpdateService: "holds (\<lambda>_ e. \<not> is_lb_put e) (retryUpdateService l svc ty ip lab upd)"
proof -
  have "holds (\<lambda>_ e. \<not> is_lb_put e) (retryFunc l svc ty ip lab upd u)" for u
    by (auto simp: holds_def retryFunc_def split: resp.split)
  then show ?thesis
    unfolding retryUpdateService_def by (intro holds_bind holds_retry) auto
qed

lemma no_put_updatePrimary: "holds (\<lambda>_ e. \<not> is_lb_put e) (updatePrimaryServiceLoadBalancerIP l n svc)"
  unfolding updatePrimaryServiceLoadBalancerIP_def
  by (intro holds_bind holds_branches holds_reads no_put_pred holds_ret holds_waitForIP no_put_retryUpdateService)

lemma no_put_delete: "holds (\<lambda>_ e. \<not> is_lb_put e) (deleteLoadBalancer l cl svc)"
proof -
  have "holds (\<lambda>_ e. \<not> is_lb_put e) (lbDelete E ns n)" for E ns n by (simp add: holds_def)
  then show ?thesis
    unfolding deleteLoadBalancer_def Let_def
    by (intro holds_bind holds_branches holds_reads no_put_pred holds_ret holds_call)
qed

section \<open>Ports\<close>

lemma portOverlapLoop_None:
  "portOverlapLoop P uid svcs = None \<longleftrightarrow>
   (\<forall>s\<in>set svcs. svcUID s \<noteq> uid \<longrightarrow> set (svcPorts s) \<inter> P = {})"
  by (induction P uid svcs rule: portOverlapLoop.induct)
    (auto split: option.split simp: find_None_iff dest!: find_Some_mem)

section \<open>Counting\<close>

fun is_svc_update :: "event \<Rightarrow> bool" where
  "is_svc_update (SvcUpdate _ _) = True"
| "is_svc_update _ = False"

lemma at_most_holds: "holds (\<lambda>_ e. \<not> Q e) m \<Longrightarrow> at_most 0 Q m"
  unfolding holds_def at_most_def using always_memD by (force simp: filter_empty_conv)

end
