(* ===== verification/LoadBalancer_Props.thy ===== *)
theory LoadBalancer_Props
  imports LoadBalancer_Facts
begin

text \<open>
  The properties of the load balancer manager, with a small Harvester to try them on: an
  environment in which a load balancer exists once it has been created, and then has an
  allocated address.
\<close>

section \<open>A small environment\<close>

definition demo_svc :: service where
  "demo_svc = \<lparr>svcNamespace = ''default'', svcName = ''web'', svcUID = ''u1'', svcAnnotations = None,
     svcLabels = Some fmempty, svcServicePorts = [tcp_port 80], svcIngress = []\<rparr>"

definition demo_lb :: loadbalancer where
  "demo_lb = \<lparr>lbAPIVersion = [], lbNamespace = ''default'', lbName = ''lb'', lbAnnotations = None, lbLabels = None,
     lbIPAM = ''pool'', lbWorkloadType = ''cluster'', lbAddress = [], lbAllocatedIP = ''10.0.0.5'', lbConditions = []\<rparr>"

definition demo_env :: "service list \<Rightarrow> env" where
  "demo_env users = empty_env\<lparr>
     envLbGet := (\<lambda>h ns n. if list_ex is_lb_put h then Ok demo_lb else Fail not_found None),
     envSvcCacheGet := (\<lambda>h ns n. Ok demo_svc), envSvcCacheList := (\<lambda>h ns s. Ok users)\<rparr>"

definition demo_manager :: "service list \<Rightarrow> lb_manager" where
  "demo_manager users = \<lparr>lmClients = demo_env users, lmNamespace = ''default'', lmConfig = zero_config\<rparr>"

lemma no_wait_timeout_demo [simp]: "no_wait_timeout (demo_env users)"
  by (simp add: no_wait_timeout_def demo_env_def empty_env_def)

lemma waitForIP_now:
  "appends cb \<Longrightarrow> result_of cb h = Inr x \<Longrightarrow> result_of (waitForIP cb) h = Inr x"
  "appends cb \<Longrightarrow> result_of cb h = Inr x \<Longrightarrow> trace_of (waitForIP cb) h = trace_of cb h"
  by (simp_all add: waitForIP_def retryTimes_def eval_nat_numeral)

lemmas ensure_defs = EnsureLoadBalancer_def resolveNetworkInterface_def getPrimaryService_def
  ensurePrimaryLoadBalancer_def checkNetworkChanged_def networkChangedError_def other_error_def
  createOrUpdateLoadBalancer_def updatePrimaryServiceLoadBalancerIP_def resp_err_def resp_obj_def Let_def
  lb_name_of_def [symmetric] DefaultGuestClusterName_def

lemma demo_update:
  "result_of (retryUpdateService (demo_manager users) demo_svc ty ip lab upd) h = None"
proof -
  let ?fn = "retryFunc (demo_manager users) demo_svc ty ip lab upd"
  have "result_of (?fn ()) h = (None, ())"
    by (simp add: retryFunc_def demo_manager_def demo_env_def empty_env_def resp_err_def)
  then show ?thesis
    using svc_retry.retry_no_conflict(1) [of _ _ _ _ _ _ "()" h None "()" DefaultBackoffSteps]
    by (simp add: retryUpdateService_def DefaultBackoffSteps_def)
qed

lemma demo_ensure:
  "result_of (EnsureLoadBalancer (demo_manager users) ''c1'' demo_svc) [] = (Some [], None)"
proof -
  have a: "mlookup (svcAnnotations demo_svc) k = None" "mget (svcAnnotations demo_svc) k = []" for k
    by (simp_all add: demo_svc_def mlookup_def)
  have "result_of (allocatedIP (demo_manager users) n) h = Inr (demo_lb, ''10.0.0.5'')"
    if "list_ex is_lb_put h" for n h
    using that by (simp add: allocatedIP_def demo_manager_def demo_env_def empty_env_def demo_lb_def)
  then show ?thesis
    using demo_update [of users]
    by (simp add: ensure_defs a waitForIP_now demo_manager_def demo_env_def empty_env_def)
       (simp add: demo_svc_def)
qed

definition demo_updated :: service where
  "demo_updated = updatePrimaryServiceObject [] demo_svc ''10.0.0.5'' []"

definition demo_created :: loadbalancer where
  "demo_created = constructLB (demo_manager []) None demo_svc (lb_name_of ''c1'' demo_svc) ''c1''"

lemma demo_update_trace:
  "trace_of (retryUpdateService (demo_manager users) demo_svc ty ip lab upd) h =
   [SvcCacheGet ''default'' ''web'' (Ok demo_svc), SvcUpdate (upd demo_svc ip lab) (Ok (upd demo_svc ip lab))]"
proof -
  let ?fn = "retryFunc (demo_manager users) demo_svc ty ip lab upd"
  have "result_of (?fn ()) h = (None, ())" "trace_of (?fn ()) h =
     [SvcCacheGet ''default'' ''web'' (Ok demo_svc), SvcUpdate (upd demo_svc ip lab) (Ok (upd demo_svc ip lab))]"
    by (simp_all add: retryFunc_def demo_manager_def demo_env_def empty_env_def resp_err_def demo_svc_def)
  then show ?thesis
    using svc_retry.retry_no_conflict(2) [of _ _ _ _ _ _ "()" h None "()" DefaultBackoffSteps]
    by (simp add: retryUpdateService_def DefaultBackoffSteps_def)
qed

lemma demo_trace:
  "trace_of (EnsureLoadBalancer (demo_manager []) ''c1'' demo_svc) [] =
   [LbGet ''default'' (lb_name_of ''c1'' demo_svc) (Fail not_found None),
    LbGet ''default'' (lb_name_of ''c1'' demo_svc) (Fail not_found None),
    LbCreate demo_created (Ok demo_created),
    LbGet ''default'' (lb_name_of ''c1'' demo_svc) (Ok demo_lb),
    SvcCacheGet ''default'' ''web'' (Ok demo_svc)] @ SvcUpdate demo_updated (Ok demo_updated) # []"
proof -
  let ?l = "demo_manager []" and ?n = "lb_name_of ''c1'' demo_svc"
  have a: "mlookup (svcAnnotations demo_svc) k = None" "mget (svcAnnotations demo_svc) k = []" for k
    by (simp_all add: demo_svc_def mlookup_def)
  have l: "lmNamespace ?l = ''default''" "lmClients ?l = demo_env []" by (simp_all add: demo_manager_def)
  have e: "envLbGet (demo_env []) h ns n = (if list_ex is_lb_put h then Ok demo_lb else Fail not_found None)"
    "envLbCreate (demo_env []) h lb = Ok lb" for h ns n lb by (simp_all add: demo_env_def empty_env_def)
  have "result_of (allocatedIP ?l ?n) h = Inr (demo_lb, ''10.0.0.5'')"
    "trace_of (allocatedIP ?l ?n) h = [LbGet ''default'' ?n (Ok demo_lb)]" if "list_ex is_lb_put h" for h
    using that by (simp_all add: allocatedIP_def l e) (simp add: demo_lb_def)
  moreover have "\<not> isPrimaryServiceUpdatedWithIP demo_svc demo_lb ''10.0.0.5'' []"
    by (simp add: isPrimaryServiceUpdatedWithIP_def a)
  ultimately show ?thesis
    by (simp add: ensure_defs a waitForIP_now demo_update demo_update_trace l e demo_updated_def demo_created_def)
qed

section \<open>Properties\<close>

text \<open>C1: When ensuring a primary service succeeds, the load balancer object was written and the
  write acknowledged; after that the load balancer had an allocated address; and the
  kube-vip annotation of the service is that address, either because the service has it
  already or because the last call of the run updated a service with the same UID to it.  The
  client is assumed not to answer with the timeout error of the retry library.\<close>

theorem ensure_primary_success:
  assumes "no_wait_timeout (lmClients l)" "mlookup (svcAnnotations svc) KeyPrimaryService = None"
    and "result_of (EnsureLoadBalancer l cl svc) h = (st, None)"
  shows "st = Some (svcIngress svc) \<and>
    (\<exists>t1 w old r t2 lb t3.
       trace_of (EnsureLoadBalancer l cl svc) h =
         t1 @ w # t2 @ LbGet (lmNamespace l) (lb_name_of cl svc) (Ok lb) # t3 \<and>
       (w = LbCreate (constructLB l old svc (lb_name_of cl svc) cl) (Ok r) \<or>
        w = LbUpdate (constructLB l old svc (lb_name_of cl svc) cl) (Ok r)) \<and>
       lbAllocatedIP lb \<noteq> [] \<and>
       (t3 = [] \<and> mget (svcAnnotations svc) KeyKubevipLoadBalancerIP = lbAllocatedIP lb \<or>
        (\<exists>v s r'. t3 = v @ [SvcUpdate s (Ok r')] \<and> svcUID s = svcUID svc \<and>
           mget (svcAnnotations s) KeyKubevipLoadBalancerIP = lbAllocatedIP lb)))"
proof -
  let ?t0 = "trace_of (resolveNetworkInterface l svc) h"
  have p: "getPrimaryService l svc = ret (Inr None)" using assms(2) by (simp add: getPrimaryService_def)
  then have res: "result_of (ensurePrimaryLoadBalancer l cl svc) (h @ ?t0) = (st, None)"
    and tr: "trace_of (EnsureLoadBalancer l cl svc) h = ?t0 @ trace_of (ensurePrimaryLoadBalancer l cl svc) (h @ ?t0)"
    using assms(3) by (auto simp: EnsureLoadBalancer_def split: sum.splits)
  from res obtain h1 h2 where st: "st = Some (svcIngress svc)"
    and c: "result_of (createOrUpdateLoadBalancer l (lb_name_of cl svc) cl svc) h1 = None"
    and u: "result_of (updatePrimaryServiceLoadBalancerIP l (lb_name_of cl svc) svc) h2 = None"
    and tr': "trace_of (ensurePrimaryLoadBalancer l cl svc) (h @ ?t0) =
       trace_of (checkNetworkChanged l svc (lb_name_of cl svc) False) (h @ ?t0) @
       trace_of (createOrUpdateLoadBalancer l (lb_name_of cl svc) cl svc) h1 @
       trace_of (updatePrimaryServiceLoadBalancerIP l (lb_name_of cl svc) svc) h2"
    by (rule primary_success_stages)
  from createOrUpdate_success [OF c] obtain tc old w r where
    tc: "trace_of (createOrUpdateLoadBalancer l (lb_name_of cl svc) cl svc) h1 = tc @ [w]"
    and w: "w = LbCreate (constructLB l old svc (lb_name_of cl svc) cl) (Ok r) \<or>
      w = LbUpdate (constructLB l old svc (lb_name_of cl svc) cl) (Ok r)" by blast
  from updatePrimary_success [OF assms(1) u] obtain tu lb ifc t3 where
    tu: "trace_of (updatePrimaryServiceLoadBalancerIP l (lb_name_of cl svc) svc) h2 =
      tu @ LbGet (lmNamespace l) (lb_name_of cl svc) (Ok lb) # t3" "lbAllocatedIP lb \<noteq> []"
    and "t3 = [] \<and> isPrimaryServiceUpdatedWithIP svc lb (lbAllocatedIP lb) ifc \<or>
       (\<exists>v old r. t3 = v @ [SvcCacheGet (svcNamespace svc) (svcName svc) (Ok old),
           SvcUpdate (updatePrimaryServiceObject ifc old (lbAllocatedIP lb) []) (Ok r)] \<and> svcUID old = svcUID svc)"
    by blast
  then have "t3 = [] \<and> mget (svcAnnotations svc) KeyKubevipLoadBalancerIP = lbAllocatedIP lb \<or>
        (\<exists>v s r'. t3 = v @ [SvcUpdate s (Ok r')] \<and> svcUID s = svcUID svc \<and>
           mget (svcAnnotations s) KeyKubevipLoadBalancerIP = lbAllocatedIP lb)"
  proof (elim disjE exE conjE)
    fix v old r
    assume "t3 = v @ [SvcCacheGet (svcNamespace svc) (svcName svc) (Ok old),
           SvcUpdate (updatePrimaryServiceObject ifc old (lbAllocatedIP lb) []) (Ok r)]" "svcUID old = svcUID svc"
    then show ?thesis
      by (intro disjI2 exI [of _ "v @ [SvcCacheGet (svcNamespace svc) (svcName svc) (Ok old)]"])
        (auto simp: updatePrimaryServiceObject_def Let_def key_defs)
  qed (auto simp: isPrimaryServiceUpdatedWithIP_def split: if_splits)
  with st w tu tc show ?thesis unfolding tr tr'
    by (intro conjI exI [of _ "?t0 @ trace_of (checkNetworkChanged l svc (lb_name_of cl svc) False) (h @ ?t0) @ tc"]
        exI [of _ w] exI [of _ old] exI [of _ r] exI [of _ tu] exI [of _ lb] exI [of _ t3]) simp_all
qed

theorem ensure_primary_success_witness:
  "Some [] = Some (svcIngress demo_svc) \<and>
    (\<exists>t1 w old r t2 lb t3.
       trace_of (EnsureLoadBalancer (demo_manager []) ''c1'' demo_svc) [] =
         t1 @ w # t2 @ LbGet (lmNamespace (demo_manager [])) (lb_name_of ''c1'' demo_svc) (Ok lb) # t3 \<and>
       (w = LbCreate (constructLB (demo_manager []) old demo_svc (lb_name_of ''c1'' demo_svc) ''c1'') (Ok r) \<or>
        w = LbUpdate (constructLB (demo_manager []) old demo_svc (lb_name_of ''c1'' demo_svc) ''c1'') (Ok r)) \<and>
       lbAllocatedIP lb \<noteq> [] \<and>
       (t3 = [] \<and> mget (svcAnnotations demo_svc) KeyKubevipLoadBalancerIP = lbAllocatedIP lb \<or>
        (\<exists>v s r'. t3 = v @ [SvcUpdate s (Ok r')] \<and> svcUID s = svcUID demo_svc \<and>
           mget (svcAnnotations s) KeyKubevipLoadBalancerIP = lbAllocatedIP lb)))"
  by (rule ensure_primary_success) (simp_all add: demo_ensure, simp_all add: demo_manager_def demo_svc_def mlookup_def)

text \<open>A load balancer is deleted only by the service it belongs to, after the cache reported
  that no service uses that service as its primary and after the load balancer was found; this
  holds of deletion, of the rollback of a failed creation and of turning a primary service into
  a secondary one.\<close>

lemma delete_guarded:
  assumes "trace_of (EnsureLoadBalancer l cl svc) h = pre @ LbDelete ns n r # post \<or>
    trace_of (EnsureLoadBalancerDeleted l cl svc) h = pre @ LbDelete ns n r # post"
  shows "ns = lmNamespace l \<and> n = loadBalancerName cl (svcNamespace svc) (svcName svc) (svcUID svc) \<and>
    SvcCacheList NamespaceAll (KeyPrimaryService, primaryServiceLabelValue svc) (Ok []) \<in> set pre \<and>
    (\<exists>lb. LbGet ns n (Ok lb) \<in> set pre)"
  using assms writes_split [OF ensure_writes] writes_split [OF deleted_writes]
  by (fastforce simp: lb_name_of_def)

definition demo_past :: history where
  "demo_past = [LbCreate demo_lb (Ok demo_lb)]"

lemma demo_delete_trace:
  "trace_of (EnsureLoadBalancerDeleted (demo_manager []) ''c1'' demo_svc) demo_past =
   [SvcCacheList NamespaceAll (KeyPrimaryService, primaryServiceLabelValue demo_svc) (Ok []),
    LbGet ''default'' (lb_name_of ''c1'' demo_svc) (Ok demo_lb)] @
    LbDelete ''default'' (lb_name_of ''c1'' demo_svc) None # []"
  by (simp add: EnsureLoadBalancerDeleted_def getPrimaryService_def deleteLoadBalancer_def
      checkSecondaryServicesBeforeDeleted_def demo_svc_def mlookup_def demo_manager_def demo_env_def empty_env_def demo_past_def
      other_error_def resp_err_def lb_name_of_def Let_def)

text \<open>C5: A service is updated only from the object the cache has just returned, if its UID is
  still that of the service being reconciled; everything but its labels and annotations stays,
  and of those only the primary-service label and the annotations for the kube-vip address, the
  kube-vip interface, the network and the IPAM mode can change.\<close>

theorem service_update_safe:
  assumes "trace_of (EnsureLoadBalancer l cl svc) h = pre @ SvcUpdate s r # post"
  shows "\<exists>old. SvcCacheGet (svcNamespace svc) (svcName svc) (Ok old) \<in> set pre \<and> svcUID old = svcUID svc \<and>
    s = old\<lparr>svcLabels := svcLabels s, svcAnnotations := svcAnnotations s\<rparr> \<and>
    same_elsewhere {KeyPrimaryService} (svcLabels old) (svcLabels s) \<and>
    same_elsewhere {KeyKubevipLoadBalancerIP, KeyKubevipServiceInterface, KeyNetwork, KeyIPAM}
       (svcAnnotations old) (svcAnnotations s)"
  using writes_split [OF ensure_writes assms] by (auto simp: svc_update_ok_def)

theorem service_update_safe_witness:
  "\<exists>old. SvcCacheGet (svcNamespace demo_svc) (svcName demo_svc) (Ok old) \<in> set
      [LbGet ''default'' (lb_name_of ''c1'' demo_svc) (Fail not_found None),
       LbGet ''default'' (lb_name_of ''c1'' demo_svc) (Fail not_found None),
       LbCreate demo_created (Ok demo_created),
       LbGet ''default'' (lb_name_of ''c1'' demo_svc) (Ok demo_lb),
       SvcCacheGet ''default'' ''web'' (Ok demo_svc)] \<and> svcUID old = svcUID demo_svc \<and>
    demo_updated = old\<lparr>svcLabels := svcLabels demo_updated, svcAnnotations := svcAnnotations demo_updated\<rparr> \<and>
    same_elsewhere {KeyPrimaryService} (svcLabels old) (svcLabels demo_updated) \<and>
    same_elsewhere {KeyKubevipLoadBalancerIP, KeyKubevipServiceInterface, KeyNetwork, KeyIPAM}
       (svcAnnotations old) (svcAnnotations demo_updated)"
  by (rule service_update_safe [OF demo_trace])

text \<open>C8: Updating an existing load balancer never changes the network it was created with: both
  network annotations, the name and the namespace of the object that is sent are those of the
  object that was just read.\<close>

theorem lb_network_immutable:
  assumes "trace_of (EnsureLoadBalancer l cl svc) h = pre @ LbUpdate lb r # post"
  shows "\<exists>old. LbGet (lmNamespace l) (lb_name_of cl svc) (Ok old) \<in> set pre \<and>
    (lbName old = [] \<or> lbName lb = lbName old \<and> lbNamespace lb = lbNamespace old \<and>
       mget (lbAnnotations lb) AnnotationKeyNetworkOnLB = mget (lbAnnotations old) AnnotationKeyNetworkOnLB \<and>
       mget (lbAnnotations lb) AnnotationKeyNetwork = mget (lbAnnotations old) AnnotationKeyNetwork)"
proof -
  obtain old where old: "LbGet (lmNamespace l) (lb_name_of cl svc) (Ok old) \<in> set pre"
    and lb: "lb = constructLB l (Some old) svc (lb_name_of cl svc) cl"
    using writes_split [OF ensure_writes assms] by auto
  have k: "AnnotationKeyGuestClusterManagementNetworkOnLB \<notin> {AnnotationKeyNetworkOnLB, AnnotationKeyNetwork}"
    "AnnotationKeyCluster \<notin> {AnnotationKeyNetworkOnLB, AnnotationKeyNetwork}"
    "AnnotationKeyNamespace \<notin> {AnnotationKeyNetworkOnLB, AnnotationKeyNetwork}"
    "AnnotationKeyProject \<notin> {AnnotationKeyNetworkOnLB, AnnotationKeyNetwork}"
    by (simp_all add: key_defs lb_key_defs)
  show ?thesis
    by (rule exI [of _ old])
      (use old k in \<open>auto simp: lb constructLB_def absentLB_def patchLBObject_def Let_def split: list.split option.split sum.split\<close>)
qed

lemma demo_trace_existing:
  "trace_of (EnsureLoadBalancer (demo_manager []) ''c1'' demo_svc) demo_past =
   [LbGet ''default'' (lb_name_of ''c1'' demo_svc) (Ok demo_lb), LbGet ''default'' (lb_name_of ''c1'' demo_svc) (Ok demo_lb)] @
   LbUpdate (constructLB (demo_manager []) (Some demo_lb) demo_svc (lb_name_of ''c1'' demo_svc) ''c1'')
     (Ok (constructLB (demo_manager []) (Some demo_lb) demo_svc (lb_name_of ''c1'' demo_svc) ''c1'')) #
   [LbGet ''default'' (lb_name_of ''c1'' demo_svc) (Ok demo_lb),
    SvcCacheGet ''default'' ''web'' (Ok demo_svc), SvcUpdate demo_updated (Ok demo_updated)]"
proof -
  let ?l = "demo_manager []" and ?n = "lb_name_of ''c1'' demo_svc"
  have a: "mlookup (svcAnnotations demo_svc) k = None" "mget (svcAnnotations demo_svc) k = []"
    "mget (lbAnnotations demo_lb) k = []" for k
    by (simp_all add: demo_svc_def demo_lb_def mlookup_def)
  have l: "lmNamespace ?l = ''default''" "lmClients ?l = demo_env []" by (simp_all add: demo_manager_def)
  have e: "envLbGet (demo_env []) (demo_past @ h) ns n = Ok demo_lb" "envLbGet (demo_env []) demo_past ns n = Ok demo_lb"
    "envLbUpdate (demo_env []) h lb = Ok lb" for h ns n lb by (simp_all add: demo_env_def empty_env_def demo_past_def)
  have "result_of (allocatedIP ?l ?n) (demo_past @ h) = Inr (demo_lb, ''10.0.0.5'')"
    "trace_of (allocatedIP ?l ?n) (demo_past @ h) = [LbGet ''default'' ?n (Ok demo_lb)]" for h
    by (simp_all add: allocatedIP_def l e) (simp add: demo_lb_def)
  moreover have "\<not> isPrimaryServiceUpdatedWithIP demo_svc demo_lb ''10.0.0.5'' []"
    by (simp add: isPrimaryServiceUpdatedWithIP_def a)
  ultimately show ?thesis
    by (simp add: ensure_defs IsNetworkChanged_def a waitForIP_now demo_update demo_update_trace l e demo_updated_def)
qed

theorem lb_network_immutable_witness:
  "\<exists>old. LbGet (lmNamespace (demo_manager [])) (lb_name_of ''c1'' demo_svc) (Ok old) \<in>
      set [LbGet ''default'' (lb_name_of ''c1'' demo_svc) (Ok demo_lb), LbGet ''default'' (lb_name_of ''c1'' demo_svc) (Ok demo_lb)] \<and>
    (lbName old = [] \<or>
      lbName (constructLB (demo_manager []) (Some demo_lb) demo_svc (lb_name_of ''c1'' demo_svc) ''c1'') = lbName old \<and>
      lbNamespace (constructLB (demo_manager []) (Some demo_lb) demo_svc (lb_name_of ''c1'' demo_svc) ''c1'') = lbNamespace old \<and>
      mget (lbAnnotations (constructLB (demo_manager []) (Some demo_lb) demo_svc (lb_name_of ''c1'' demo_svc) ''c1''))
        AnnotationKeyNetworkOnLB = mget (lbAnnotations old) AnnotationKeyNetworkOnLB \<and>
      mget (lbAnnotations (constructLB (demo_manager []) (Some demo_lb) demo_svc (lb_name_of ''c1'' demo_svc) ''c1''))
        AnnotationKeyNetwork = mget (lbAnnotations old) AnnotationKeyNetwork)"
  by (rule lb_network_immutable [OF demo_trace_existing])

text \<open>A service whose network annotation differs from the one recorded on its existing load
  balancer is rejected: ensuring it fails and writes nothing.\<close>

lemma network_change_rejected:
  assumes "mlookup (svcAnnotations svc) KeyPrimaryService = None"
    and "envLbGet (lmClients l) (h @ trace_of (resolveNetworkInterface l svc) h) (lmNamespace l) (lb_name_of cl svc) = Ok lb"
    and "lbName lb \<noteq> []" "IsNetworkChanged svc lb"
  shows "snd (result_of (EnsureLoadBalancer l cl svc) h) \<noteq> None \<and>
    read_only (trace_of (EnsureLoadBalancer l cl svc) h)"
proof -
  have p: "getPrimaryService l svc = ret (Inr None)" using assms(1) by (simp add: getPrimaryService_def)
  let ?h = "h @ trace_of (resolveNetworkInterface l svc) h"
  have "\<exists>e. result_of (checkNetworkChanged l svc (lb_name_of cl svc) False) ?h = Some e"
    using assms(2-4) by (simp add: checkNetworkChanged_def networkChangedError_def other_error_def resp_err_def resp_obj_def)
  then have "snd (result_of (ensurePrimaryLoadBalancer l cl svc) ?h) \<noteq> None"
    "read_only (trace_of (ensurePrimaryLoadBalancer l cl svc) ?h)"
    by (auto simp: ensurePrimaryLoadBalancer_def lb_name_of_def [symmetric] Let_def)
  then show ?thesis using p by (auto simp: EnsureLoadBalancer_def split: sum.split)
qed

definition demo_annotated :: "string \<Rightarrow> string \<Rightarrow> service" where
  "demo_annotated k v = demo_svc\<lparr>svcAnnotations := Some (fmupd k v fmempty)\<rparr>"

lemma demo_annotated_simps [simp]:
  "mlookup (svcAnnotations (demo_annotated k v)) k' = (if k = k' then Some v else None)"
  "mget (svcAnnotations (demo_annotated k v)) k' = (if k = k' then v else [])"
  by (simp_all add: demo_annotated_def mlookup_def mget_def)

text \<open>A service that names a network without a common interface, or an invalid primary
  service, is rejected before anything is written.\<close>

lemma invalid_service_rejected:
  assumes "isl (result_of (resolveNetworkInterface l svc) h) \<or>
    isl (result_of (getPrimaryService l svc) (h @ trace_of (resolveNetworkInterface l svc) h))"
  shows "snd (result_of (EnsureLoadBalancer l cl svc) h) \<noteq> None \<and>
    read_only (trace_of (EnsureLoadBalancer l cl svc) h)"
  using assms by (auto simp: EnsureLoadBalancer_def isl_def split: sum.split)

text \<open>Deleting a secondary service leaves the load balancer of its primary alone: the call
  succeeds and writes nothing.\<close>

lemma secondary_delete_noop:
  assumes "result_of (getPrimaryService l svc) h = Inr (Some p)"
  shows "result_of (EnsureLoadBalancerDeleted l cl svc) h = None \<and>
    read_only (trace_of (EnsureLoadBalancerDeleted l cl svc) h)"
  using assms by (simp add: EnsureLoadBalancerDeleted_def)

lemma suffix_after:
  assumes "a @ t = pre @ w # post" "w \<notin> set t"
  shows "\<exists>u. post = u @ t"
  using assms by (auto simp: append_eq_append_conv2 Cons_eq_append_conv append_eq_Cons_conv)

fun acked_put :: "event \<Rightarrow> bool" where
  "acked_put (LbCreate _ (Ok _)) = True"
| "acked_put (LbUpdate _ (Ok _)) = True"
| "acked_put _ = False"

lemma acked_put_is_put: "acked_put e \<Longrightarrow> is_lb_put e"
  by (cases e rule: acked_put.cases) auto

lemma createOrUpdate_failed:
  "result_of (createOrUpdateLoadBalancer l n cl svc) h \<noteq> None \<Longrightarrow>
   \<forall>e\<in>set (trace_of (createOrUpdateLoadBalancer l n cl svc) h). \<not> acked_put e"
  by (auto simp: createOrUpdateLoadBalancer_def resp_err_def Let_def split: option.splits resp.splits if_splits)

text \<open>What the calls of a deletion say: it was acknowledged, or there was nothing to delete, or it failed.\<close>

definition rolled_back :: "lb_manager \<Rightarrow> string \<Rightarrow> service \<Rightarrow> history \<Rightarrow> bool" where
  "rolled_back l cl svc t \<longleftrightarrow>
     (let users = SvcCacheList NamespaceAll (KeyPrimaryService, primaryServiceLabelValue svc);
          get = LbGet (lmNamespace l) (lb_name_of cl svc) in
      (\<exists>lb. t = [users (Ok []), get (Ok lb), LbDelete (lmNamespace l) (lb_name_of cl svc) None]) \<or>
      (\<exists>e x. IsNotFound e \<and> t = [users (Ok []), get (Fail e x)]))"

definition rollback_failed :: "lb_manager \<Rightarrow> string \<Rightarrow> service \<Rightarrow> history \<Rightarrow> bool" where
  "rollback_failed l cl svc t \<longleftrightarrow>
     (let users = SvcCacheList NamespaceAll (KeyPrimaryService, primaryServiceLabelValue svc);
          get = LbGet (lmNamespace l) (lb_name_of cl svc) in
      (\<exists>a. a \<noteq> Ok [] \<and> t = [users a]) \<or>
      (\<exists>e x. \<not> IsNotFound e \<and> t = [users (Ok []), get (Fail e x)]) \<or>
      (\<exists>lb e. t = [users (Ok []), get (Ok lb), LbDelete (lmNamespace l) (lb_name_of cl svc) (Some e)]))"

lemma delete_outcome:
  "if result_of (deleteLoadBalancer l cl svc) h = None then rolled_back l cl svc (trace_of (deleteLoadBalancer l cl svc) h)
   else rollback_failed l cl svc (trace_of (deleteLoadBalancer l cl svc) h)"
proof (cases "envSvcCacheList (lmClients l) h NamespaceAll (KeyPrimaryService, primaryServiceLabelValue svc)")
  case (Ok xs)
  let ?h = "h @ [SvcCacheList NamespaceAll (KeyPrimaryService, primaryServiceLabelValue svc) (Ok xs)]"
  show ?thesis
    using Ok by (cases "envLbGet (lmClients l) ?h (lmNamespace l) (lb_name_of cl svc)")
      (auto simp: deleteLoadBalancer_def checkSecondaryServicesBeforeDeleted_def other_error_def resp_err_def rolled_back_def
        rollback_failed_def lb_name_of_def Let_def)
next
  case (Fail e x)
  then show ?thesis by (simp add: deleteLoadBalancer_def checkSecondaryServicesBeforeDeleted_def rollback_failed_def Let_def)
qed

lemma primary_failure:
  assumes "snd (result_of (ensurePrimaryLoadBalancer l cl svc) h) = Some err"
  shows "(\<forall>e\<in>set (trace_of (ensurePrimaryLoadBalancer l cl svc) h). \<not> acked_put e) \<or>
    (\<exists>t h' c. trace_of (ensurePrimaryLoadBalancer l cl svc) h = t @ trace_of (deleteLoadBalancer l cl svc) h' \<and>
      err = (case result_of (deleteLoadBalancer l cl svc) h' of
          Some d \<Rightarrow> Wrapf ''delete lb %s/%s failed, error: %w'' [FStr (lmNamespace l), FStr (lb_name_of cl svc)] d
        | None \<Rightarrow> Wrapf ''update load balancer IP of service %s/%s failed, error: %w'' (svc_key svc) c))"
proof -
  let ?n = "lb_name_of cl svc"
  let ?h1 = "h @ trace_of (checkNetworkChanged l svc ?n False) h"
  have ro: "\<forall>e\<in>set (trace_of (checkNetworkChanged l svc ?n False) h). \<not> acked_put e"
    using holds_no_put [OF holds_reads(3) [OF no_put_pred]] acked_put_is_put by blast
  show ?thesis
  proof (cases "result_of (checkNetworkChanged l svc ?n False) h = None \<and>
      result_of (createOrUpdateLoadBalancer l ?n cl svc) ?h1 = None")
    case True
    let ?h2 = "?h1 @ trace_of (createOrUpdateLoadBalancer l ?n cl svc) ?h1"
    let ?U = "updatePrimaryServiceLoadBalancerIP l ?n svc"
    let ?h3 = "?h2 @ trace_of ?U ?h2"
    obtain c where c: "result_of ?U ?h2 = Some c"
      using True assms by (auto simp: ensurePrimaryLoadBalancer_def Let_def lb_name_of_def split: option.splits)
    then have "trace_of (ensurePrimaryLoadBalancer l cl svc) h =
        (trace_of (checkNetworkChanged l svc ?n False) h @ trace_of (createOrUpdateLoadBalancer l ?n cl svc) ?h1 @ trace_of ?U ?h2) @
        trace_of (deleteLoadBalancer l cl svc) ?h3"
      using True by (simp add: ensurePrimaryLoadBalancer_def Let_def lb_name_of_def)
    moreover have "err = (case result_of (deleteLoadBalancer l cl svc) ?h3 of
          Some d \<Rightarrow> Wrapf ''delete lb %s/%s failed, error: %w'' [FStr (lmNamespace l), FStr ?n] d
        | None \<Rightarrow> Wrapf ''update load balancer IP of service %s/%s failed, error: %w'' (svc_key svc) c)"
      using True assms c by (auto simp: ensurePrimaryLoadBalancer_def Let_def lb_name_of_def split: option.splits)
    ultimately show ?thesis by blast
  next
    case False
    then have "set (trace_of (ensurePrimaryLoadBalancer l cl svc) h) \<subseteq>
        set (trace_of (checkNetworkChanged l svc ?n False) h) \<union>
        (if result_of (createOrUpdateLoadBalancer l ?n cl svc) ?h1 = None then {}
         else set (trace_of (createOrUpdateLoadBalancer l ?n cl svc) ?h1))"
      by (auto simp: ensurePrimaryLoadBalancer_def Let_def lb_name_of_def split: option.splits)
    then show ?thesis using ro createOrUpdate_failed [of l ?n cl svc ?h1] by (auto split: if_splits)
  qed
qed

text \<open>C6: A failed run rolls back or says that it could not.  If ensuring a primary service fails after its load
  balancer was written, the last calls of the run are those of the rollback: no service was listed as a
  user of the load balancer, and then either its deletion was acknowledged or it was already gone, and
  the error is that of the failed update of the service; or else users were found or could not be listed, or the
  load balancer could not be read, or its deletion failed, and the error says that the load balancer
  was not deleted.\<close>

theorem failed_ensure_rolls_back:
  assumes "mlookup (svcAnnotations svc) KeyPrimaryService = None"
    and "trace_of (EnsureLoadBalancer l cl svc) h = pre @ w # post"
    and "w = LbCreate lb (Ok r) \<or> w = LbUpdate lb (Ok r)"
    and "snd (result_of (EnsureLoadBalancer l cl svc) h) = Some err"
  shows "\<exists>u v. post = u @ v \<and>
    (rolled_back l cl svc v \<and>
       (\<exists>c. err = Wrapf ''update load balancer IP of service %s/%s failed, error: %w'' (svc_key svc) c) \<or>
     rollback_failed l cl svc v \<and>
       (\<exists>d. err = Wrapf ''delete lb %s/%s failed, error: %w'' [FStr (lmNamespace l), FStr (lb_name_of cl svc)] d))"
proof -
  let ?t0 = "trace_of (resolveNetworkInterface l svc) h" and ?D = "deleteLoadBalancer l cl svc"
  have w: "acked_put w" using assms(3) by auto
  have p: "getPrimaryService l svc = ret (Inr None)" using assms(1) by (simp add: getPrimaryService_def)
  have t0: "\<forall>e\<in>set ?t0. \<not> acked_put e"
    using holds_no_put [OF holds_reads(2) [OF no_put_pred]] acked_put_is_put by blast
  have "w \<in> set (trace_of (EnsureLoadBalancer l cl svc) h)" using assms(2) by simp
  with w t0 p obtain i where i: "result_of (resolveNetworkInterface l svc) h = Inr i"
    by (auto simp: EnsureLoadBalancer_def split: sum.splits)
  have tr: "?t0 @ trace_of (ensurePrimaryLoadBalancer l cl svc) (h @ ?t0) = pre @ w # post"
    and res: "snd (result_of (ensurePrimaryLoadBalancer l cl svc) (h @ ?t0)) = Some err"
    using assms(2,4) i p by (simp_all add: EnsureLoadBalancer_def)
  have "w \<in> set (trace_of (ensurePrimaryLoadBalancer l cl svc) (h @ ?t0))"
    using arg_cong [OF tr, of set] w t0 by auto
  with primary_failure [OF res] w obtain t h' c where
    t: "trace_of (ensurePrimaryLoadBalancer l cl svc) (h @ ?t0) = t @ trace_of ?D h'"
    and err: "err = (case result_of ?D h' of
          Some d \<Rightarrow> Wrapf ''delete lb %s/%s failed, error: %w'' [FStr (lmNamespace l), FStr (lb_name_of cl svc)] d
        | None \<Rightarrow> Wrapf ''update load balancer IP of service %s/%s failed, error: %w'' (svc_key svc) c)" by blast
  have "\<exists>u. post = u @ trace_of ?D h'"
    using tr holds_no_put [OF no_put_delete, of l cl svc h'] acked_put_is_put [OF w]
    by (intro suffix_after [of "?t0 @ t" _ pre w]) (auto simp: t)
  then show ?thesis using delete_outcome [of l cl svc h'] err by (cases "result_of ?D h'") auto
qed

text \<open>A Harvester in which the service is gone when its address is to be written.\<close>

definition failing_manager :: lb_manager where
  "failing_manager = (demo_manager [])\<lparr>lmClients := (demo_env [])\<lparr>envSvcCacheGet := (\<lambda>h ns n. Fail not_found None)\<rparr>\<rparr>"

lemma failing_update:
  "\<exists>e. result_of (retryUpdateService failing_manager demo_svc ty ip lab upd) h = Some e"
  "trace_of (retryUpdateService failing_manager demo_svc ty ip lab upd) h =
     [SvcCacheGet ''default'' ''web'' (Fail not_found None)]"
proof -
  let ?fn = "retryFunc failing_manager demo_svc ty ip lab upd"
  let ?e = "Wrapf ''failed to get %s service %s/%s to update ip %s, error: %w''
      (FStr ty # svc_key demo_svc @ [FStr ip]) not_found"
  have 1: "result_of (?fn ()) h = (Some ?e, ())"
    and 2: "trace_of (?fn ()) h = [SvcCacheGet ''default'' ''web'' (Fail not_found None)]"
    by (simp_all add: retryFunc_def failing_manager_def demo_svc_def)
  have "\<not> IsConflict ?e" by (simp add: not_found_def IsConflict_def knownReasons_def)
  then show "\<exists>e. result_of (retryUpdateService failing_manager demo_svc ty ip lab upd) h = Some e"
    "trace_of (retryUpdateService failing_manager demo_svc ty ip lab upd) h =
     [SvcCacheGet ''default'' ''web'' (Fail not_found None)]"
    using svc_retry.retry_no_conflict [OF 1, of DefaultBackoffSteps] 2
    by (auto simp: retryUpdateService_def DefaultBackoffSteps_def)
qed

lemma failing_run:
  "snd (result_of (EnsureLoadBalancer failing_manager ''c1'' demo_svc) []) \<noteq> None"
  "trace_of (EnsureLoadBalancer failing_manager ''c1'' demo_svc) [] =
   [LbGet ''default'' (lb_name_of ''c1'' demo_svc) (Fail not_found None), LbGet ''default'' (lb_name_of ''c1'' demo_svc) (Fail not_found None)] @
   LbCreate (constructLB failing_manager None demo_svc (lb_name_of ''c1'' demo_svc) ''c1'')
     (Ok (constructLB failing_manager None demo_svc (lb_name_of ''c1'' demo_svc) ''c1'')) #
   [LbGet ''default'' (lb_name_of ''c1'' demo_svc) (Ok demo_lb), SvcCacheGet ''default'' ''web'' (Fail not_found None),
    SvcCacheList NamespaceAll (KeyPrimaryService, primaryServiceLabelValue demo_svc) (Ok []),
    LbGet ''default'' (lb_name_of ''c1'' demo_svc) (Ok demo_lb), LbDelete ''default'' (lb_name_of ''c1'' demo_svc) None]"
proof -
  let ?l = failing_manager and ?n = "lb_name_of ''c1'' demo_svc"
  have a: "mlookup (svcAnnotations demo_svc) k = None" "mget (svcAnnotations demo_svc) k = []" for k
    by (simp_all add: demo_svc_def mlookup_def)
  have l: "lmNamespace ?l = ''default''" by (simp add: failing_manager_def demo_manager_def)
  have e: "envLbGet (lmClients ?l) h ns n = (if list_ex is_lb_put h then Ok demo_lb else Fail not_found None)"
    "envLbCreate (lmClients ?l) h lb = Ok lb" "envSvcCacheList (lmClients ?l) h ns sel = Ok []"
    "envLbDelete (lmClients ?l) h ns n = None" for h ns n lb sel
    by (simp_all add: failing_manager_def demo_env_def empty_env_def)
  have "result_of (allocatedIP ?l ?n) h = Inr (demo_lb, ''10.0.0.5'')"
    "trace_of (allocatedIP ?l ?n) h = [LbGet ''default'' ?n (Ok demo_lb)]" if "list_ex is_lb_put h" for h
    using that by (simp_all add: allocatedIP_def l e) (simp add: demo_lb_def)
  moreover have "\<not> isPrimaryServiceUpdatedWithIP demo_svc demo_lb ''10.0.0.5'' []"
    by (simp add: isPrimaryServiceUpdatedWithIP_def a)
  moreover obtain err where "result_of (retryUpdateService ?l demo_svc ''primary'' ''10.0.0.5'' [] (updatePrimaryServiceObject [])) h = Some (err h)" for h
    using failing_update(1) by metis
  ultimately show "snd (result_of (EnsureLoadBalancer ?l ''c1'' demo_svc) []) \<noteq> None"
    "trace_of (EnsureLoadBalancer ?l ''c1'' demo_svc) [] =
     [LbGet ''default'' ?n (Fail not_found None), LbGet ''default'' ?n (Fail not_found None)] @
     LbCreate (constructLB ?l None demo_svc ?n ''c1'') (Ok (constructLB ?l None demo_svc ?n ''c1'')) #
     [LbGet ''default'' ?n (Ok demo_lb), SvcCacheGet ''default'' ''web'' (Fail not_found None),
      SvcCacheList NamespaceAll (KeyPrimaryService, primaryServiceLabelValue demo_svc) (Ok []),
      LbGet ''default'' ?n (Ok demo_lb), LbDelete ''default'' ?n None]"
    by (simp_all add: ensure_defs a waitForIP_now failing_update(2) l e deleteLoadBalancer_def
        checkSecondaryServicesBeforeDeleted_def)
qed

theorem failed_ensure_rolls_back_witness:
  "\<exists>err. snd (result_of (EnsureLoadBalancer failing_manager ''c1'' demo_svc) []) = Some err \<and>
    (\<exists>u v. [LbGet ''default'' (lb_name_of ''c1'' demo_svc) (Ok demo_lb), SvcCacheGet ''default'' ''web'' (Fail not_found None),
      SvcCacheList NamespaceAll (KeyPrimaryService, primaryServiceLabelValue demo_svc) (Ok []),
      LbGet ''default'' (lb_name_of ''c1'' demo_svc) (Ok demo_lb), LbDelete ''default'' (lb_name_of ''c1'' demo_svc) None] = u @ v \<and>
    (rolled_back failing_manager ''c1'' demo_svc v \<and>
       (\<exists>c. err = Wrapf ''update load balancer IP of service %s/%s failed, error: %w'' (svc_key demo_svc) c) \<or>
     rollback_failed failing_manager ''c1'' demo_svc v \<and>
       (\<exists>d. err = Wrapf ''delete lb %s/%s failed, error: %w'' [FStr (lmNamespace failing_manager), FStr (lb_name_of ''c1'' demo_svc)] d)))"
proof -
  obtain err where err: "snd (result_of (EnsureLoadBalancer failing_manager ''c1'' demo_svc) []) = Some err" using failing_run(1) by blast
  have "mlookup (svcAnnotations demo_svc) KeyPrimaryService = None" by (simp add: demo_svc_def mlookup_def)
  from failed_ensure_rolls_back [OF this failing_run(2) disjI1 [OF refl] err] err show ?thesis
    by (intro exI [of _ err] conjI)
qed

lemma secondary_success_stages:
  assumes "result_of (ensureSecondaryLoadBalancer l cl p svc) h = (st, None)"
  obtains ing rest u h3 where "svcIngress p = ing # rest"
    and "result_of (checkPortOverlap l p svc) h = None"
    and "result_of (updateSecondaryServiceLoadBalancerIP l (ingIP ing) p svc) h3 = None"
    and "trace_of (ensureSecondaryLoadBalancer l cl p svc) h =
      trace_of (checkPortOverlap l p svc) h @ u @ trace_of (updateSecondaryServiceLoadBalancerIP l (ingIP ing) p svc) h3"
proof -
  obtain ing rest where ing: "svcIngress p = ing # rest"
    using assms by (cases "svcIngress p") (auto simp: ensureSecondaryLoadBalancer_def)
  let ?u = "updateSecondaryServiceLoadBalancerIP l (ingIP ing) p svc"
  let ?n = "loadBalancerName cl (svcNamespace p) (svcName p) (svcUID p)"
  let ?h1 = "h @ trace_of (checkPortOverlap l p svc) h"
  let ?h2 = "?h1 @ trace_of (checkNetworkChanged l svc ?n True) ?h1"
  let ?h3 = "?h2 @ trace_of (deleteLoadBalancer l cl svc) ?h2"
  have port: "result_of (checkPortOverlap l p svc) h = None"
    using assms ing by (auto simp: ensureSecondaryLoadBalancer_def split: option.splits)
  have net: "result_of (checkNetworkChanged l svc ?n True) ?h1 = None"
    using assms ing port by (auto simp: ensureSecondaryLoadBalancer_def Let_def split: option.splits)
  have del: "result_of (deleteLoadBalancer l cl svc) ?h2 = None"
    using assms ing port net by (auto simp: ensureSecondaryLoadBalancer_def Let_def split: option.splits)
  have upd: "result_of ?u ?h3 = None"
    using assms ing port net del by (auto simp: ensureSecondaryLoadBalancer_def Let_def)
  obtain u where tr: "trace_of (ensureSecondaryLoadBalancer l cl p svc) h =
      trace_of (checkPortOverlap l p svc) h @ u @ trace_of ?u ?h3"
    using ing port net del by (simp add: ensureSecondaryLoadBalancer_def Let_def)
  from that [OF ing port upd tr] show thesis .
qed

text \<open>When ensuring a secondary service succeeds, the primary has an ingress address; no other
  service that shares it, nor the primary itself, has a port in common with the secondary; and
  the secondary carries the address of the primary and the label that names the primary, either
  already or by an acknowledged last update of the service with the same UID.\<close>

lemma ensure_secondary_success:
  assumes "no_wait_timeout (lmClients l)"
    and "result_of (ensureSecondaryLoadBalancer l cl p svc) h = (st, None)"
  shows "\<exists>ing rest svcs t. svcIngress p = ing # rest \<and>
    trace_of (ensureSecondaryLoadBalancer l cl p svc) h =
      SvcCacheList NamespaceAll (KeyPrimaryService, primaryServiceLabelValue p) (Ok svcs) # t \<and>
    (\<forall>s\<in>set (p # svcs). svcUID s \<noteq> svcUID svc \<longrightarrow> set (svcPorts s) \<inter> set (svcPorts svc) = {}) \<and>
    (mget (svcAnnotations svc) KeyKubevipLoadBalancerIP = ingIP ing \<and>
       mget (svcLabels svc) KeyPrimaryService = primaryServiceLabelValue p \<or>
     (\<exists>t' s r. t = t' @ [SvcUpdate s (Ok r)] \<and> svcUID s = svcUID svc \<and>
        mget (svcAnnotations s) KeyKubevipLoadBalancerIP = ingIP ing \<and>
        mget (svcLabels s) KeyPrimaryService = primaryServiceLabelValue p))"
proof -
  let ?lab = "primaryServiceLabelValue p"
  obtain ing rest u h3 where ing: "svcIngress p = ing # rest"
    and port: "result_of (checkPortOverlap l p svc) h = None"
    and upd: "result_of (updateSecondaryServiceLoadBalancerIP l (ingIP ing) p svc) h3 = None"
    and tr: "trace_of (ensureSecondaryLoadBalancer l cl p svc) h =
      trace_of (checkPortOverlap l p svc) h @ u @ trace_of (updateSecondaryServiceLoadBalancerIP l (ingIP ing) p svc) h3"
    using secondary_success_stages [OF assms(2)] .
  obtain svcs where svcs: "trace_of (checkPortOverlap l p svc) h = [SvcCacheList NamespaceAll (KeyPrimaryService, ?lab) (Ok svcs)]"
    and ports: "\<forall>s\<in>set (p # svcs). svcUID s \<noteq> svcUID svc \<longrightarrow> set (svcPorts s) \<inter> set (svcPorts svc) = {}"
    using port by (auto simp: checkPortOverlap_def portOverlapLoop_None split: resp.splits)
  show ?thesis
  proof (cases "isSecondaryServiceUpdatedWithPrimary p svc (ingIP ing) ?lab")
    case True
    with ing svcs ports tr show ?thesis by (auto simp: isSecondaryServiceUpdatedWithPrimary_def split: if_splits)
  next
    case False
    then have "result_of (retryUpdateService l svc ''secondary'' (ingIP ing) ?lab (updateSecondaryServiceObject p)) h3 = None"
      using upd by (simp add: updateSecondaryServiceLoadBalancerIP_def Let_def)
    from retryUpdateService_success [OF assms(1) this] obtain v old r where uid: "svcUID old = svcUID svc"
      and v: "trace_of (updateSecondaryServiceLoadBalancerIP l (ingIP ing) p svc) h3 = v @ [SvcCacheGet (svcNamespace svc) (svcName svc) (Ok old),
        SvcUpdate (updateSecondaryServiceObject p old (ingIP ing) ?lab) (Ok r)]"
      using False by (auto simp: updateSecondaryServiceLoadBalancerIP_def Let_def)
    let ?s = "updateSecondaryServiceObject p old (ingIP ing) ?lab"
    let ?t' = "u @ v @ [SvcCacheGet (svcNamespace svc) (svcName svc) (Ok old)]"
    have "svcUID ?s = svcUID svc" "mget (svcAnnotations ?s) KeyKubevipLoadBalancerIP = ingIP ing"
      "mget (svcLabels ?s) KeyPrimaryService = ?lab"
      using uid by (simp_all add: updateSecondaryServiceObject_def Let_def key_defs)
    moreover have "u @ trace_of (updateSecondaryServiceLoadBalancerIP l (ingIP ing) p svc) h3 = ?t' @ [SvcUpdate ?s (Ok r)]" using v by simp
    ultimately show ?thesis using ing ports unfolding tr svcs by (metis append_Cons append_Nil)
  qed
qed

definition demo_primary :: service where
  "demo_primary = demo_svc\<lparr>svcName := ''main'', svcUID := ''u2'', svcServicePorts := [tcp_port 443], svcIngress := [\<lparr>ingIP = ''10.0.0.5''\<rparr>]\<rparr>"

lemma demo_secondary:
  "result_of (ensureSecondaryLoadBalancer (demo_manager []) ''c1'' demo_primary demo_svc) [] = (Some [], None)"
proof -
  have "svcIngress demo_primary = [\<lparr>ingIP = ''10.0.0.5''\<rparr>]" "svcIngress demo_svc = []"
    by (simp_all add: demo_primary_def demo_svc_def)
  moreover have "portOverlapLoop (set (svcPorts demo_svc)) (svcUID demo_svc) [demo_primary] = None"
    by (simp add: demo_primary_def demo_svc_def)
  moreover have "result_of (updateSecondaryServiceLoadBalancerIP (demo_manager []) ip demo_primary demo_svc) h = None" for ip h
    using demo_update [of "[]"] by (simp add: updateSecondaryServiceLoadBalancerIP_def Let_def)
  ultimately show ?thesis
    by (simp add: ensureSecondaryLoadBalancer_def checkPortOverlap_def checkNetworkChanged_def networkChangedError_def
        deleteLoadBalancer_def checkSecondaryServicesBeforeDeleted_def other_error_def resp_err_def resp_obj_def
        demo_manager_def demo_env_def empty_env_def Let_def)
qed

text \<open>Reconciling converges: an update of a secondary service produces an object that the next
  run accepts without writing, for any service and any address.\<close>

lemma secondary_update_converges:
  "isSecondaryServiceUpdatedWithPrimary p (updateSecondaryServiceObject p s ip lab) ip lab"
  by (simp add: isSecondaryServiceUpdatedWithPrimary_def updateSecondaryServiceObject_def Let_def key_defs
      del: not_None_eq)

text \<open>An update of a primary service is accepted by the next run exactly when the load
  balancer reports the address and the service has a label map.  A service without labels is
  therefore written again on every run: the update never creates the map that the check asks
  for.\<close>

lemma primary_update_converges_iff:
  "isPrimaryServiceUpdatedWithIP (updatePrimaryServiceObject ifc s ip lab) lb ip ifc \<longleftrightarrow>
   lbAddress lb = ip \<and> svcLabels s \<noteq> None"
  by (auto simp: isPrimaryServiceUpdatedWithIP_def updatePrimaryServiceObject_def Let_def key_defs
      simp del: not_None_eq)

text \<open>The label value that names a primary service identifies it, since a namespace has no dot:
  two services with the same label value are the same service.\<close>

lemma label_value_injective:
  assumes "CHR ''.'' \<notin> set (svcNamespace s)" "CHR ''.'' \<notin> set (svcNamespace s')"
    and "primaryServiceLabelValue s = primaryServiceLabelValue s'"
  shows "svcNamespace s = svcNamespace s' \<and> svcName s = svcName s'"
proof -
  have "takeWhile (\<lambda>c. c \<noteq> CHR ''.'') (primaryServiceLabelValue t) = svcNamespace t"
    if "CHR ''.'' \<notin> set (svcNamespace t)" for t :: service
    using that unfolding primaryServiceLabelValue_def by (subst takeWhile_append2) auto
  then have "svcNamespace s = svcNamespace s'" using assms by metis
  then show ?thesis using assms(3) by (simp add: primaryServiceLabelValue_def)
qed

lemma at_most_reads:
  "at_most 1 Q (resolveNetworkInterface l svc)" "at_most 1 Q (getPrimaryService l svc)"
  "at_most 1 Q (checkNetworkChanged l svc n sec)" "at_most 1 Q (checkPortOverlap l p svc)"
  "at_most 1 Q (allocatedIP l n)"
  by (simp_all add: at_most_def resolveNetworkInterface_def GetNADInterfaceMapping_def getPrimaryService_def
      checkNetworkChanged_def checkPortOverlap_def allocatedIP_def Let_def split: option.split list.split)

lemma at_most_createOrUpdate: "at_most 3 Q (createOrUpdateLoadBalancer l n cl svc)"
  by (simp add: at_most_def createOrUpdateLoadBalancer_def Let_def split: option.split)

lemma at_most_delete: "at_most 3 Q (deleteLoadBalancer l cl svc)"
  by (simp add: at_most_def deleteLoadBalancer_def checkSecondaryServicesBeforeDeleted_def Let_def split: option.split)

lemma at_most_waitLoop:
  assumes "at_most 1 Q cb"
  shows "at_most (2 * n) Q (waitLoop n e cb)"
proof (induction n arbitrary: e)
  case (Suc n)
  have "at_most 1 Q sleep" by (simp add: at_most_def)
  then have *: "at_most (Suc (2 * n)) Q (State_Monad.bind sleep (\<lambda>_. waitLoop n e' cb))" for e'
    by (rule at_most_bind) (auto intro: Suc)
  show ?case
    unfolding waitLoop.simps by (rule at_most_bind [OF assms]) (auto intro: * at_most_branches)
qed simp

lemma at_most_wait: "at_most 20 Q (waitForIP (allocatedIP l n))"
  unfolding waitForIP_def retryTimes_def
  by (rule at_most_bind [OF at_most_waitLoop [OF at_most_reads(5)] at_most_ret [of 0]]) simp

lemma at_most_retryUpdate: "at_most 11 Q (retryUpdateService l svc ty ip lab upd)"
proof -
  have "at_most 2 Q (retryFunc l svc ty ip lab upd u)" for u
    by (simp add: at_most_def retryFunc_def split: resp.split)
  then have "at_most 11 Q (RetryOnConflict DefaultBackoffSteps (retryFunc l svc ty ip lab upd) ())"
    using at_most_retry [of 2 Q "retryFunc l svc ty ip lab upd" DefaultBackoffSteps "()"]
    by (auto simp: DefaultBackoffSteps_def elim: at_most_mono)
  then show ?thesis unfolding retryUpdateService_def by (rule at_most_bind [OF _ at_most_ret [of 0]]) simp
qed

lemma at_most_updatePrimary: "at_most 32 Q (updatePrimaryServiceLoadBalancerIP l n svc)"
proof -
  have "at_most 31 Q (State_Monad.bind (waitForIP (allocatedIP l n)) (\<lambda>w. case w of Inl err \<Rightarrow> ret (Some err)
      | Inr (lb, ip) \<Rightarrow> if isPrimaryServiceUpdatedWithIP svc lb ip ifc then ret None
               else retryUpdateService l svc ''primary'' ip [] (updatePrimaryServiceObject ifc)))" for ifc
    by (intro at_most_bind [OF at_most_wait, where j = 11] at_most_branches at_most_retryUpdate) auto
  then show ?thesis unfolding updatePrimaryServiceLoadBalancerIP_def
    by (intro at_most_bind [OF at_most_reads(1), where j = 31] at_most_branches) auto
qed

lemma at_most_primary: "at_most 39 Q (ensurePrimaryLoadBalancer l cl svc)"
  unfolding ensurePrimaryLoadBalancer_def Let_def
  by (intro at_most_bind [OF at_most_reads(3), where j = 38] at_most_bind [OF at_most_createOrUpdate, where j = 35]
      at_most_bind [OF at_most_updatePrimary, where j = 3] at_most_bind [OF at_most_delete, where j = 0]
      at_most_branches at_most_ret) simp_all

lemma at_most_secondary: "at_most 39 Q (ensureSecondaryLoadBalancer l cl p svc)"
proof -
  have "at_most 11 Q (updateSecondaryServiceLoadBalancerIP l ip p svc)" for ip
    by (simp add: updateSecondaryServiceLoadBalancerIP_def Let_def at_most_retryUpdate)
  then show ?thesis unfolding ensureSecondaryLoadBalancer_def Let_def
    by (intro at_most_branches at_most_bind [OF at_most_reads(4), where j = 38]
      at_most_bind [OF at_most_reads(3), where j = 37] at_most_bind [OF at_most_delete, where j = 33]
      at_most_bind [where i = 11 and j = 0] at_most_ret) simp_all
qed

text \<open>C38: Ensuring a load balancer always ends, with at most 41 calls to the outside (sleeps
  and a log line included), whatever the API servers answer.\<close>

theorem ensure_bounded:
  "length (trace_of (EnsureLoadBalancer l cl svc) h) \<le> 41"
proof -
  have "at_most 41 (\<lambda>_. True) (EnsureLoadBalancer l cl svc)"
    unfolding EnsureLoadBalancer_def
    by (intro at_most_bind [OF at_most_reads(1), where j = 40] at_most_bind [OF at_most_reads(2), where j = 39]
        at_most_branches at_most_ret at_most_primary at_most_secondary) simp_all
  then show ?thesis by (simp add: at_most_def)
qed

text \<open>The load balancer object sent to Harvester: its labels identify the guest cluster and the
  service, the IPAM mode is that of the service or the pool, and the management network
  annotation is the normalized configured network, or absent when none is configured.\<close>

lemma constructLB_contents:
  "let lb = constructLB l old svc name cl in
     mget (lbLabels lb) LBClusterNameKey = cl \<and>
     mget (lbLabels lb) LBServiceNamespaceKey = svcNamespace svc \<and>
     mget (lbLabels lb) LBServiceNameKey = svcName svc \<and>
     lbWorkloadType lb = ''cluster'' \<and>
     lbIPAM lb = (case mlookup (svcAnnotations svc) KeyIPAM of Some m \<Rightarrow> m | None \<Rightarrow> ''pool'') \<and>
     mget (lbAnnotations lb) AnnotationKeyCluster = cl \<and>
     mget (lbAnnotations lb) AnnotationKeyProject = mget (svcAnnotations svc) KeyProject \<and>
     mget (lbAnnotations lb) AnnotationKeyNamespace = mget (svcAnnotations svc) KeyNamespace \<and>
     mlookup (lbAnnotations lb) AnnotationKeyGuestClusterManagementNetworkOnLB =
       (if cfgManagementNetwork (lmConfig l) = [] then None
        else case NormalizeNetworkName NetworkTypeManagement (cfgManagementNetwork (lmConfig l)) of
          Inl _ \<Rightarrow> None | Inr n \<Rightarrow> Some n) \<and>
     (absentLB old \<longrightarrow> lbName lb = name \<and> lbNamespace lb = lmNamespace l \<and>
        mget (lbAnnotations lb) AnnotationKeyNetworkOnLB = mget (svcAnnotations svc) KeyNetwork)"
proof -
  define m where "m = AnnotationKeyGuestClusterManagementNetworkOnLB"
  have k: "distinct [m, AnnotationKeyNetworkOnLB, AnnotationKeyNetwork, AnnotationKeyCluster, AnnotationKeyNamespace, AnnotationKeyProject]"
    "distinct [LBServiceNameKey, LBServiceNamespaceKey, LBClusterNameKey]"
    by (simp_all add: m_def key_defs lb_key_defs)
  show ?thesis
    unfolding constructLB_def patchLBObject_def Let_def GetManagementNetwork_def m_def [symmetric]
    by (intro conjI impI) (use k in \<open>auto simp: newLBObject_def split: list.split sum.split option.split\<close>)
qed

text \<open>The load balancer of a service is looked up under the name it was created with: for a
  primary service the name \<open>EnsureLoadBalancer\<close> uses for it, for a secondary one the name of
  its primary; the status is reported exactly when that load balancer is found and has an
  address, and a load balancer that does not exist is not an error.\<close>

lemma GetLoadBalancer_spec:
  "let owner = (case result_of (getPrimaryService l svc) h of Inr (Some p) \<Rightarrow> p | _ \<Rightarrow> svc);
       h' = h @ trace_of (getPrimaryService l svc) h
   in result_of (GetLoadBalancer l cl svc) h =
     (case envLbGet (lmClients l) h' (lmNamespace l) (lb_name_of cl owner) of
        Ok lb \<Rightarrow> if lbAddress lb = [] then (None, False, None) else (Some (svcIngress svc), True, None)
      | Fail e _ \<Rightarrow> (None, False, if IsNotFound e then None else Some e))"
  by (simp add: GetLoadBalancer_def GetLoadBalancerName_def lb_name_of_def Let_def split: resp.split)

end
