(* ===== verification/ServiceStore.thy ===== *)
theory ServiceStore
  imports LoadBalancer_Props "HOL-Library.Sublist"
begin

text \<open>
  What the load balancer manager does to the services of the guest cluster, seen from the API
  server.  Other clients may change the services at any time, and the informer cache the manager reads may lag
  behind the server and drift while an operation runs: the locale \<open>cached_services\<close> has one map for the server and one for the cache, which
  nothing ties together, but that an update is refused when the object it was made from is not the
  stored one any more.  Of a service only its \<open>share\<close> matters for sharing an address.  Every run of
  \<open>EnsureLoadBalancer\<close>, failed ones included, refines at most one atomic step of an abstract system in
  which a service drops or takes the label of a primary service, the last only if its ports
  are free as far as the cache knows.
\<close>

section \<open>Shares\<close>

record share =
  shUID :: string
  shPorts :: "32 word list"
  shLabel :: string \<comment> \<open>the primary service it shares the address of, or empty\<close>

type_synonym svc_store = "string \<times> string \<Rightarrow> service option"
type_synonym share_view = "string \<times> string \<Rightarrow> share option"

definition svc_id :: "service \<Rightarrow> string \<times> string" where
  "svc_id s = (svcNamespace s, svcName s)"

definition share_of :: "service \<Rightarrow> share" where
  "share_of s = \<lparr>shUID = svcUID s, shPorts = svcPorts s, shLabel = mget (svcLabels s) KeyPrimaryService\<rparr>"

definition view :: "svc_store \<Rightarrow> share_view" where
  "view S k = map_option share_of (S k)"

definition primary_label :: "string \<times> string \<Rightarrow> string" where
  "primary_label k = fst k @ ''.'' @ snd k"

lemma primaryServiceLabelValue_id: "primaryServiceLabelValue s = primary_label (svc_id s)"
  by (simp add: primaryServiceLabelValue_def primary_label_def svc_id_def)

lemma primary_label_not_Nil [simp]: "primary_label k \<noteq> []" "[] \<noteq> primary_label k"
  by (simp_all add: primary_label_def)

text \<open>
  The ports of a service are free for the address of \<open>q\<close> if neither \<open>q\<close> itself, in the view \<open>P\<close>, nor a service
  labelled with \<open>q\<close>, in the view \<open>C\<close>, has one of them.
\<close>

definition ports_free :: "share_view \<Rightarrow> share_view \<Rightarrow> string \<times> string \<Rightarrow> service \<Rightarrow> bool" where
  "ports_free P C q svc \<longleftrightarrow> (\<forall>k y. C k = Some y \<and> shLabel y = primary_label q \<or> k = q \<and> P k = Some y \<longrightarrow>
     shUID y \<noteq> svcUID svc \<longrightarrow> set (shPorts y) \<inter> set (svcPorts svc) = {})"

text \<open>The abstract steps for a service, given the views of the cache that an operation has seen.\<close>

inductive share_step :: "share_view set \<Rightarrow> service \<Rightarrow> share_view \<Rightarrow> share_view \<Rightarrow> bool" for seen svc where
  release: "\<lbrakk>V (svc_id svc) = Some x; shUID x = svcUID svc\<rbrakk> \<Longrightarrow> share_step seen svc V (V(svc_id svc \<mapsto> x\<lparr>shLabel := []\<rparr>))"
| join: "\<lbrakk>V (svc_id svc) = Some x; shUID x = svcUID svc; P \<in> seen; C \<in> seen; P q = Some p; ports_free P C q svc\<rbrakk> \<Longrightarrow>
    share_step seen svc V (V(svc_id svc \<mapsto> x\<lparr>shLabel := primary_label q\<rparr>))"

section \<open>Answers of the servers\<close>

text \<open>A trace records what the environment answered.\<close>

fun svc_answer :: "env \<Rightarrow> history \<Rightarrow> event \<Rightarrow> bool" where
  "svc_answer E h (SvcCacheGet ns n a) \<longleftrightarrow> a = envSvcCacheGet E h ns n"
| "svc_answer E h (SvcCacheList ns sel a) \<longleftrightarrow> a = envSvcCacheList E h ns sel"
| "svc_answer E h (SvcUpdate s a) \<longleftrightarrow> a = envSvcUpdate E h s"
| "svc_answer E h _ \<longleftrightarrow> True"

definition answered :: "env \<Rightarrow> 'a io \<Rightarrow> bool" where
  "answered E m \<longleftrightarrow> appends m \<and> (\<forall>h. always (\<lambda>pre. svc_answer E (h @ pre)) (trace_of m h))"

lemma answered_calls:
  "answered E (ret a)" "answered E sleep" "answered E (svcCacheGet E ns n)" "answered E (svcCacheList E ns sel)" "answered E (svcUpdate E s)"
  "answered E (lbGet F ns n)" "answered E (lbCreate F lb)" "answered E (lbUpdate F lb)" "answered E (lbDelete F ns n)"
  "answered E (cmCacheGet F ns n)" "answered E (warnClusterName n cl)"
  by (simp_all add: answered_def warnClusterName_def)

lemma answered_bind:
  assumes "answered E m" "\<And>a. answered E (k a)"
  shows "answered E (State_Monad.bind m k)"
  unfolding answered_def
proof (intro conjI allI)
  fix h
  let ?t = "trace_of m h"
  have "always (\<lambda>pre. svc_answer E ((h @ ?t) @ pre)) (trace_of (k a) (h @ ?t))" for a
    using assms(2) unfolding answered_def by blast
  then show "always (\<lambda>pre. svc_answer E (h @ pre)) (trace_of (State_Monad.bind m k) h)"
    using assms by (simp add: answered_def always_append)
qed (use assms in \<open>simp add: answered_def\<close>)

lemma answered_branches:
  "answered E a \<Longrightarrow> (\<And>x. answered E (f x)) \<Longrightarrow> answered E (case opt of None \<Rightarrow> a | Some x \<Rightarrow> f x)"
  "(\<And>x. answered E (g x)) \<Longrightarrow> (\<And>x. answered E (f x)) \<Longrightarrow> answered E (case sm of Inl x \<Rightarrow> g x | Inr x \<Rightarrow> f x)"
  "answered E a \<Longrightarrow> answered E b \<Longrightarrow> answered E (if c then a else b)"
  "(\<And>x y. answered E (k x y)) \<Longrightarrow> answered E (case p of (x, y) \<Rightarrow> k x y)"
  "(\<And>x. answered E (q x)) \<Longrightarrow> (\<And>x y. answered E (j x y)) \<Longrightarrow> answered E (case r of Ok x \<Rightarrow> q x | Fail x y \<Rightarrow> j x y)"
  "answered E a \<Longrightarrow> (\<And>x xs. answered E (c' x xs)) \<Longrightarrow> answered E (case l of [] \<Rightarrow> a | x # xs \<Rightarrow> c' x xs)"
  by (simp_all split: option.split sum.split prod.split resp.split list.split)

lemmas answered_intros = answered_calls answered_bind answered_branches

lemma answered_retry:
  assumes "\<And>s. answered E (fn s)"
  shows "answered E (RetryOnConflict n fn s)"
proof -
  have "answered E (retry_loop n le fn s)" for le s
  proof (induction n arbitrary: le s)
    case (Suc n)
    then show ?case unfolding retry_loop.simps by (intro answered_intros assms)
  qed (simp add: answered_calls)
  then show ?thesis by (simp add: RetryOnConflict_loop)
qed

lemma answered_waitForIP: "answered E (waitForIP (allocatedIP l n))"
proof -
  have "answered E (waitLoop m e (allocatedIP l n))" for m e
    by (induction m arbitrary: e) (auto simp: allocatedIP_def intro!: answered_intros)
  then show ?thesis unfolding waitForIP_def by (intro answered_intros)
qed

lemma answered_stages:
  assumes "E = lmClients l"
  shows "answered E (getPrimaryService l svc)" "answered E (resolveNetworkInterface l svc)" "answered E (checkNetworkChanged l svc n sec)"
    "answered E (checkPortOverlap l p svc)" "answered E (deleteLoadBalancer l cl svc)" "answered E (createOrUpdateLoadBalancer l n cl svc)"
    "answered E (retryUpdateService l svc ty ip lab upd)"
proof -
  show "answered E (getPrimaryService l svc)" "answered E (resolveNetworkInterface l svc)" "answered E (checkNetworkChanged l svc n sec)"
    "answered E (checkPortOverlap l p svc)"
    by (auto simp: assms getPrimaryService_def resolveNetworkInterface_def GetNADInterfaceMapping_def checkNetworkChanged_def checkPortOverlap_def
        Let_def intro!: answered_intros split: list.split)
  show "answered E (deleteLoadBalancer l cl svc)" "answered E (createOrUpdateLoadBalancer l n cl svc)"
    by (auto simp: assms deleteLoadBalancer_def checkSecondaryServicesBeforeDeleted_def createOrUpdateLoadBalancer_def
        Let_def intro!: answered_intros)
  have "answered E (retryFunc l svc ty ip lab upd u)" for u
    unfolding retryFunc_def assms by (intro answered_intros)
  then show "answered E (retryUpdateService l svc ty ip lab upd)"
    unfolding retryUpdateService_def by (intro answered_intros answered_retry)
qed

lemma answered_ensure: "answered (lmClients l) (EnsureLoadBalancer l cl svc)"
  unfolding EnsureLoadBalancer_def ensurePrimaryLoadBalancer_def ensureSecondaryLoadBalancer_def updatePrimaryServiceLoadBalancerIP_def
    updateSecondaryServiceLoadBalancerIP_def Let_def
  by (intro answered_intros answered_stages [OF refl] answered_waitForIP)

lemma answered_split:
  assumes "answered E m" "trace_of m h = pre @ e # post"
  shows "svc_answer E (h @ pre) e"
  using assms unfolding answered_def always_def by blast

lemma answered_mem:
  assumes "answered E m" "trace_of m h = pre @ post" "e \<in> set pre"
  shows "\<exists>u. prefix u pre \<and> svc_answer E (h @ u) e"
proof -
  obtain u v where "pre = u @ e # v" using split_list [OF assms(3)] by blast
  then show ?thesis using answered_split [OF assms(1), of h u e "v @ post"] assms(2) by (intro exI [of _ u]) auto
qed

section \<open>The writes of a run\<close>

text \<open>The update of a service puts it under the label \<open>lab\<close>.\<close>

definition labels_as :: "string \<Rightarrow> event_pred" where
  "labels_as lab pre e \<longleftrightarrow> (\<forall>s r. e = SvcUpdate s r \<longrightarrow> mget (svcLabels s) KeyPrimaryService = lab)"

lemma labels_as_pred: "monoP (labels_as lab)" "allows_reads (labels_as lab)"
  by (auto simp: monoP_def allows_reads_def labels_as_def)

lemma labels_as_quiet: "holds (\<lambda>_ e. \<forall>s r. e \<noteq> SvcUpdate s r) m \<Longrightarrow> holds (labels_as lab) m"
  by (simp add: holds_def always_def labels_as_def)

lemma no_update_pred: "monoP (\<lambda>_ e. \<forall>s r. e \<noteq> SvcUpdate s r)" "allows_reads (\<lambda>_ e. \<forall>s r. e \<noteq> SvcUpdate s r)"
  by (auto simp: allows_reads_def)

lemma no_update_lb:
  "holds (\<lambda>_ e. \<forall>s r. e \<noteq> SvcUpdate s r) (createOrUpdateLoadBalancer l n cl svc)"
  "holds (\<lambda>_ e. \<forall>s r. e \<noteq> SvcUpdate s r) (deleteLoadBalancer l cl svc)"
proof -
  let ?P = "\<lambda>_ e. \<forall>s r. e \<noteq> SvcUpdate s r"
  have calls: "holds ?P (lbCreate C lb)" "holds ?P (lbUpdate C lb)" "holds ?P (lbDelete C ns n)" "holds ?P (warnClusterName n cl)" for C lb ns n cl
    by (simp_all add: holds_def warnClusterName_def)
  show "holds ?P (createOrUpdateLoadBalancer l n cl svc)" "holds ?P (deleteLoadBalancer l cl svc)"
    unfolding createOrUpdateLoadBalancer_def deleteLoadBalancer_def Let_def
    by (intro holds_bind holds_branches holds_ret holds_reads holds_call no_update_pred calls)+
qed

lemma retryUpdateService_labels:
  assumes "\<And>old. mget (svcLabels (upd old ip lab)) KeyPrimaryService = lab'"
  shows "holds (labels_as lab') (retryUpdateService l svc ty ip lab upd)"
proof -
  have "holds (labels_as lab') (retryFunc l svc ty ip lab upd u)" for u
    using assms by (auto simp: holds_def retryFunc_def labels_as_def split: resp.split)
  then show ?thesis
    unfolding retryUpdateService_def using labels_as_pred by (intro holds_bind holds_retry) (auto simp: allows_reads_def)
qed

lemma ensurePrimary_labels: "holds (labels_as []) (ensurePrimaryLoadBalancer l cl svc)"
proof -
  have "mget (svcLabels (updatePrimaryServiceObject ifc old ip [])) KeyPrimaryService = []" for ifc old ip
    by (auto simp: updatePrimaryServiceObject_def Let_def)
  then show ?thesis
    unfolding ensurePrimaryLoadBalancer_def updatePrimaryServiceLoadBalancerIP_def Let_def
    by (intro holds_bind holds_branches holds_ret holds_reads holds_waitForIP labels_as_pred labels_as_quiet [OF no_update_lb(1)]
        labels_as_quiet [OF no_update_lb(2)] retryUpdateService_labels)
qed

lemma ensureSecondary_labels: "holds (labels_as (primaryServiceLabelValue p)) (ensureSecondaryLoadBalancer l cl p svc)"
proof -
  have "mget (svcLabels (updateSecondaryServiceObject p old ip (primaryServiceLabelValue p))) KeyPrimaryService = primaryServiceLabelValue p" for old ip
    by (auto simp: updateSecondaryServiceObject_def Let_def)
  then show ?thesis
    unfolding ensureSecondaryLoadBalancer_def updateSecondaryServiceLoadBalancerIP_def Let_def
    by (intro holds_bind holds_branches holds_ret holds_reads labels_as_pred labels_as_quiet [OF no_update_lb(2)] retryUpdateService_labels)
qed

text \<open>A secondary service is written only after the services the cache lists and the primary service passed the port check.\<close>

definition port_checked :: "service \<Rightarrow> service \<Rightarrow> event_pred" where
  "port_checked p svc pre e \<longleftrightarrow> (\<forall>s r. e = SvcUpdate s r \<longrightarrow>
     (\<exists>xs. SvcCacheList NamespaceAll (KeyPrimaryService, primaryServiceLabelValue p) (Ok xs) \<in> set pre \<and>
        portOverlapLoop (set (svcPorts svc)) (svcUID svc) (xs @ [p]) = None))"

lemma port_checked_after:
  "SvcCacheList NamespaceAll (KeyPrimaryService, primaryServiceLabelValue p) (Ok xs) \<in> set u \<Longrightarrow>
   portOverlapLoop (set (svcPorts svc)) (svcUID svc) (xs @ [p]) = None \<Longrightarrow> always (\<lambda>pre. port_checked p svc (u @ pre)) t"
  unfolding always_def port_checked_def by auto

lemma ensureSecondary_checked: "always (port_checked p svc) (trace_of (ensureSecondaryLoadBalancer l cl p svc) h)"
proof (cases "svcIngress p")
  case (Cons ing rest)
  let ?C = "checkPortOverlap l p svc" and ?sel = "(KeyPrimaryService, primaryServiceLabelValue p)"
  have t: "trace_of ?C h = [SvcCacheList NamespaceAll ?sel (envSvcCacheList (lmClients l) h NamespaceAll ?sel)]"
    by (simp add: checkPortOverlap_def)
  have 1: "always (port_checked p svc) (trace_of ?C h)" by (simp add: t port_checked_def)
  show ?thesis
  proof (cases "result_of ?C h")
    case None
    then obtain xs where "envSvcCacheList (lmClients l) h NamespaceAll ?sel = Ok xs"
      "portOverlapLoop (set (svcPorts svc)) (svcUID svc) (xs @ [p]) = None"
      by (auto simp: checkPortOverlap_def split: resp.splits)
    then have "always (\<lambda>pre. port_checked p svc (trace_of ?C h @ pre)) v" for v
      by (intro port_checked_after) (simp_all add: t)
    with 1 None Cons show ?thesis by (simp add: ensureSecondaryLoadBalancer_def always_append Let_def)
  next
    case (Some err)
    with 1 Cons show ?thesis by (simp add: ensureSecondaryLoadBalancer_def)
  qed
qed (simp add: ensureSecondaryLoadBalancer_def)

lemma getPrimaryService_found:
  assumes "result_of (getPrimaryService l svc) h = Inr (Some p)"
  shows "\<exists>ns n. SvcCacheGet ns n (Ok p) \<in> set (trace_of (getPrimaryService l svc) h)"
proof (cases "mlookup (svcAnnotations svc) KeyPrimaryService")
  case (Some primary)
  then show ?thesis
    using assms by (cases rule: split_n2_cases [of "CHR ''/''" primary])
      (auto simp: getPrimaryService_def split: resp.splits if_splits)
qed (use assms in \<open>simp add: getPrimaryService_def\<close>)

definition share_write :: "service \<Rightarrow> event_pred" where
  "share_write svc pre e \<longleftrightarrow> (\<forall>s r. e = SvcUpdate s r \<longrightarrow> mget (svcLabels s) KeyPrimaryService = [] \<or>
     (\<exists>p ns n xs. SvcCacheGet ns n (Ok p) \<in> set pre \<and> mget (svcLabels s) KeyPrimaryService = primaryServiceLabelValue p \<and>
        SvcCacheList NamespaceAll (KeyPrimaryService, primaryServiceLabelValue p) (Ok xs) \<in> set pre \<and>
        portOverlapLoop (set (svcPorts svc)) (svcUID svc) (xs @ [p]) = None))"

lemma share_write_mono: "monoP (share_write svc)"
  unfolding monoP_def share_write_def by blast

lemma share_write_quiet: "holds (\<lambda>_ e. \<forall>s r. e \<noteq> SvcUpdate s r) m \<Longrightarrow> holds (share_write svc) m"
  by (simp add: holds_def always_def share_write_def)

lemma ensureSecondary_share:
  assumes "SvcCacheGet ns n (Ok p) \<in> set u"
  shows "always (\<lambda>pre. share_write svc (u @ pre)) (trace_of (ensureSecondaryLoadBalancer l cl p svc) h)"
  unfolding always_def
proof (intro allI impI)
  fix pre e post
  assume t: "trace_of (ensureSecondaryLoadBalancer l cl p svc) h = pre @ e # post"
  have "labels_as (primaryServiceLabelValue p) pre e"
    using ensureSecondary_labels [of p l cl svc] t unfolding holds_def always_def by blast
  moreover have "port_checked p svc pre e" using ensureSecondary_checked [of p svc l cl h] t unfolding always_def by blast
  ultimately show "share_write svc (u @ pre) e"
    using assms unfolding share_write_def labels_as_def port_checked_def by (metis UnI1 UnI2 set_append)
qed

lemma ensure_share: "always (share_write svc) (trace_of (EnsureLoadBalancer l cl svc) h)"
proof -
  let ?R = "resolveNetworkInterface l svc" and ?P = "getPrimaryService l svc"
  let ?h = "h @ trace_of ?R h"
  let ?u = "trace_of ?R h @ trace_of ?P ?h"
  have quiet: "always (share_write svc) (trace_of ?R h)" "always (share_write svc) (trace_of ?P ?h)"
    using share_write_quiet [OF holds_reads(2) [OF no_update_pred], of svc] share_write_quiet [OF holds_reads(1) [OF no_update_pred], of svc]
    by (simp_all add: holds_def)
  then have u: "always (share_write svc) ?u" by (simp add: always_append monoP_always [OF share_write_mono])
  have "always (share_write svc) (trace_of (ensurePrimaryLoadBalancer l cl svc) h')" for h'
    using ensurePrimary_labels [of l cl svc] by (auto simp: holds_def always_def share_write_def labels_as_def)
  then have prim: "always (\<lambda>pre. share_write svc (?u @ pre)) (trace_of (ensurePrimaryLoadBalancer l cl svc) h')" for h'
    by (rule monoP_always [OF share_write_mono])
  have sec: "always (\<lambda>pre. share_write svc (?u @ pre)) (trace_of (ensureSecondaryLoadBalancer l cl p svc) h')"
    if found: "result_of ?P ?h = Inr (Some p)" for p h'
  proof -
    obtain ns n where "SvcCacheGet ns n (Ok p) \<in> set ?u" using getPrimaryService_found [OF found] by auto
    then show ?thesis by (rule ensureSecondary_share)
  qed
  have "always (share_write svc) (trace_of ?R h @ (case result_of ?R h of Inl err \<Rightarrow> [] | Inr _ \<Rightarrow> trace_of ?P ?h @
      (case result_of ?P ?h of Inl err \<Rightarrow> [] | Inr None \<Rightarrow> trace_of (ensurePrimaryLoadBalancer l cl svc) (h @ ?u)
       | Inr (Some p) \<Rightarrow> trace_of (ensureSecondaryLoadBalancer l cl p svc) (h @ ?u))))"
  proof (cases "result_of ?R h")
    case (Inr ifc)
    have "always (\<lambda>pre. share_write svc (?u @ pre)) (case result_of ?P ?h of Inl err \<Rightarrow> []
       | Inr None \<Rightarrow> trace_of (ensurePrimaryLoadBalancer l cl svc) (h @ ?u)
       | Inr (Some p) \<Rightarrow> trace_of (ensureSecondaryLoadBalancer l cl p svc) (h @ ?u))"
      using prim sec by (auto split: sum.split option.split)
    then show ?thesis using u Inr by (simp add: always_append)
  qed (use quiet in simp)
  then show ?thesis by (simp add: EnsureLoadBalancer_def split: sum.split option.split sum.splits option.splits)
qed

subsection \<open>One acknowledged update\<close>

fun acked_update :: "event \<Rightarrow> bool" where
  "acked_update (SvcUpdate s (Ok r)) = True"
| "acked_update _ = False"

lemma quiet_acks: "holds (\<lambda>_ e. \<forall>s r. e \<noteq> SvcUpdate s r) m \<Longrightarrow> at_most 0 acked_update m"
  unfolding holds_def at_most_def
proof (intro conjI allI)
  fix h
  assume m: "appends m \<and> (\<forall>h. always (\<lambda>_ e. \<forall>s r. e \<noteq> SvcUpdate s r) (trace_of m h))"
  have "\<not> acked_update e" if e: "e \<in> set (trace_of m h)" for e
  proof -
    have "\<forall>s r. e \<noteq> SvcUpdate s r" using always_memD [OF conjunct2 [OF m, rule_format] e] by blast
    then show ?thesis by (cases e) auto
  qed
  then show "length (filter acked_update (trace_of m h)) \<le> 0" by (simp add: filter_False)
qed simp

lemma acks_bind:
  "at_most 0 acked_update m \<Longrightarrow> (\<And>a. at_most 1 acked_update (k a)) \<Longrightarrow> at_most 1 acked_update (State_Monad.bind m k)"
  "at_most 1 acked_update m \<Longrightarrow> (\<And>a. at_most 0 acked_update (k a)) \<Longrightarrow> at_most 1 acked_update (State_Monad.bind m k)"
  by (rule at_most_bind [where i = 0 and j = 1] at_most_bind [where i = 1 and j = 0]; simp)+

lemmas acks_reads = holds_reads [OF no_update_pred, THEN quiet_acks] holds_waitForIP [OF no_update_pred holds_reads(6) [OF no_update_pred], THEN quiet_acks]
  no_update_lb [THEN quiet_acks]

lemma retryUpdateService_acks: "at_most 1 acked_update (retryUpdateService l svc ty ip lab upd)"
proof -
  let ?fn = "retryFunc l svc ty ip lab upd"
  have "length (filter acked_update (trace_of (retry_loop n le ?fn ()) h)) \<le> 1" for n le h
  proof (induction n arbitrary: le h)
    case (Suc n)
    obtain r where r: "result_of (?fn ()) h = (r, ())" by (metis surj_pair unit.exhaust)
    have "filter acked_update (trace_of (?fn ()) h) = [] \<or> r = None \<and> length (filter acked_update (trace_of (?fn ()) h)) = 1"
      using r by (auto simp: retryFunc_def resp_err_def split: resp.splits if_splits)
    then show ?case
      using Suc.IH by (auto simp: svc_retry.loop_step(1) [OF r refl] simp del: retry_loop.simps split: option.split)
  qed simp
  then have "at_most 1 acked_update (RetryOnConflict n ?fn ())" for n
    by (simp add: at_most_def RetryOnConflict_loop svc_retry.appends_loop)
  then show ?thesis unfolding retryUpdateService_def by (intro acks_bind(2)) simp_all
qed

lemma ensure_acks: "at_most 1 acked_update (EnsureLoadBalancer l cl svc)"
proof -
  have r: "at_most 1 acked_update (ret a)" "at_most 0 acked_update (ret a)" for a by simp_all
  have "at_most 1 acked_update (updatePrimaryServiceLoadBalancerIP l n svc)" for n
    unfolding updatePrimaryServiceLoadBalancerIP_def
    by (intro acks_bind(1) acks_reads at_most_branches r retryUpdateService_acks)
  then have "at_most 1 acked_update (ensurePrimaryLoadBalancer l cl svc)"
    unfolding ensurePrimaryLoadBalancer_def Let_def
    by (intro acks_bind(1) [OF acks_reads(3)] acks_bind(1) [OF acks_reads(8)] acks_bind(2) at_most_branches r
        at_most_bind [where i = 0 and j = 0 and n = 0] acks_reads) simp_all
  moreover have "at_most 1 acked_update (ensureSecondaryLoadBalancer l cl p svc)" for p
    unfolding ensureSecondaryLoadBalancer_def updateSecondaryServiceLoadBalancerIP_def Let_def
    by (intro acks_bind(1) [OF acks_reads(4)] acks_bind(1) [OF acks_reads(3)] acks_bind(1) [OF acks_reads(9)] acks_bind(2) at_most_branches r
        retryUpdateService_acks)
  ultimately show ?thesis
    unfolding EnsureLoadBalancer_def by (intro acks_bind(1) acks_reads at_most_branches r)
qed

section \<open>A server and a cache\<close>

text \<open>
  \<open>sv h\<close> are the services on the server, and \<open>ca h\<close> those in the cache, when the call after \<open>h\<close> is answered; between two
  calls both may change.  An update carries the resource version of the object it was made from, here one that was read from
  the cache and changed in its labels and annotations only, so it is acknowledged only if the server
  still has that object.
\<close>

locale cached_services =
  fixes E :: env and sv ca :: "history \<Rightarrow> svc_store"
  assumes keyed: "sv h k = Some s \<or> ca h k = Some s \<Longrightarrow> svc_id s = k \<and> CHR ''.'' \<notin> set (fst k)"
    and cache_get: "envSvcCacheGet E h ns n = Ok s \<Longrightarrow> ca h (ns, n) = Some s"
    and cache_list: "envSvcCacheList E h NamespaceAll sel = Ok xs \<Longrightarrow>
      set xs = {s. ca h (svc_id s) = Some s \<and> selector_matches sel (svcLabels s)}"
    and optimistic: "\<lbrakk>envSvcUpdate E h s = Ok r; SvcCacheGet (svcNamespace s) (svcName s) (Ok old) \<in> set h;
        s = old\<lparr>svcLabels := svcLabels s, svcAnnotations := svcAnnotations s\<rparr>\<rbrakk> \<Longrightarrow>
      \<exists>x. sv h (svc_id s) = Some x \<and> svcUID x = svcUID s \<and> svcPorts x = svcPorts s"
begin

text \<open>A service that passed the check has its ports free in the views the check was made on.\<close>

lemma checked_free:
  assumes "ca h (svc_id p) = Some p" "envSvcCacheList E h' NamespaceAll (KeyPrimaryService, primaryServiceLabelValue p) = Ok xs"
    and "portOverlapLoop (set (svcPorts svc)) (svcUID svc) (xs @ [p]) = None"
  shows "ports_free (view (ca h)) (view (ca h')) (svc_id p) svc"
  unfolding ports_free_def
proof (intro allI impI)
  fix k y
  assume y: "view (ca h') k = Some y \<and> shLabel y = primary_label (svc_id p) \<or> k = svc_id p \<and> view (ca h) k = Some y" "shUID y \<noteq> svcUID svc"
  have "\<exists>s\<in>set (xs @ [p]). y = share_of s"
  proof (cases "k = svc_id p \<and> view (ca h) k = Some y")
    case False
    with y obtain s where s: "ca h' k = Some s" "y = share_of s" "shLabel y = primary_label (svc_id p)" by (auto simp: view_def)
    then have "s \<in> set xs"
      using keyed [of h' k s] cache_list [OF assms(2)] primary_label_not_Nil [of "svc_id p"]
      by (auto simp: selector_matches_def primaryServiceLabelValue_id share_of_def mget_mlookup simp del: primary_label_not_Nil split: option.splits)
    with s show ?thesis by auto
  qed (use assms(1) in \<open>auto simp: view_def\<close>)
  then obtain s where "s \<in> set (xs @ [p])" "y = share_of s" by blast
  then show "set (shPorts y) \<inter> set (svcPorts svc) = {}"
    using assms(3) y(2) unfolding portOverlapLoop_None by (metis share_of_def share.select_convs(1,2))
qed

lemma update_step:
  assumes "E = lmClients l" "trace_of (EnsureLoadBalancer l cl svc) h = pre @ SvcUpdate s (Ok r) # post"
  shows "svc_id s = svc_id svc"
    "share_step {view (ca (h @ u)) |u. prefix u pre} svc (view (sv (h @ pre))) (view ((sv (h @ pre))(svc_id s \<mapsto> s)))"
proof -
  note ans = answered_ensure [of l cl svc, folded assms(1)]
  obtain old where old: "SvcCacheGet (svcNamespace svc) (svcName svc) (Ok old) \<in> set pre" "svcUID old = svcUID svc"
      "s = old\<lparr>svcLabels := svcLabels s, svcAnnotations := svcAnnotations s\<rparr>"
    using writes_split [OF ensure_writes assms(2)] by (auto simp: svc_update_ok_def)
  obtain u where "envSvcCacheGet E (h @ u) (svcNamespace svc) (svcName svc) = Ok old"
    using answered_mem [OF ans assms(2) old(1)] by auto
  then have "svc_id old = svc_id svc" using cache_get keyed unfolding svc_id_def by blast
  moreover from old(3) have s: "svcNamespace s = svcNamespace old" "svcName s = svcName old" "svcUID s = svcUID old" "svcPorts s = svcPorts old"
    by (metis service.select_convs service.update_convs service.surjective svcPorts_simps)+
  ultimately show id: "svc_id s = svc_id svc" by (simp add: svc_id_def)
  have "envSvcUpdate E (h @ pre) s = Ok r" using answered_split [OF ans assms(2)] by simp
  then obtain x where x: "sv (h @ pre) (svc_id svc) = Some x" "svcUID x = svcUID svc" "svcPorts x = svcPorts s"
    using optimistic [of "h @ pre" s r old] old id s(3) by (auto simp: svc_id_def)
  let ?seen = "{view (ca (h @ u)) |u. prefix u pre}" and ?V = "view (sv (h @ pre))" and ?lab = "mget (svcLabels s) KeyPrimaryService"
  have V: "?V (svc_id svc) = Some (share_of x)" "shUID (share_of x) = svcUID svc" using x by (simp_all add: view_def share_of_def)
  have new: "view ((sv (h @ pre))(svc_id s \<mapsto> s)) = ?V(svc_id svc \<mapsto> (share_of x)\<lparr>shLabel := ?lab\<rparr>)"
    using x old(2) s(3) by (auto simp: view_def fun_eq_iff share_of_def id)
  have "share_write svc pre (SvcUpdate s (Ok r))" using ensure_share [of svc l cl h] assms(2) unfolding always_def by blast
  then consider "?lab = []" | p ns n xs where "SvcCacheGet ns n (Ok p) \<in> set pre" "?lab = primaryServiceLabelValue p"
      "SvcCacheList NamespaceAll (KeyPrimaryService, primaryServiceLabelValue p) (Ok xs) \<in> set pre"
      "portOverlapLoop (set (svcPorts svc)) (svcUID svc) (xs @ [p]) = None"
    unfolding share_write_def by blast
  then show "share_step ?seen svc ?V (view ((sv (h @ pre))(svc_id s \<mapsto> s)))"
  proof cases
    case 1
    then show ?thesis unfolding new using share_step.release [where svc = svc and V = ?V, OF V] by simp
  next
    case 2
    obtain u where u: "prefix u pre" "ca (h @ u) (ns, n) = Some p" using answered_mem [OF ans assms(2) 2(1)] cache_get by fastforce
    then have p: "ca (h @ u) (svc_id p) = Some p" using keyed by metis
    obtain v where v: "prefix v pre" "envSvcCacheList E (h @ v) NamespaceAll (KeyPrimaryService, primaryServiceLabelValue p) = Ok xs"
      using answered_mem [OF ans assms(2) 2(3)] by auto
    have q: "view (ca (h @ u)) (svc_id p) = Some (share_of p)" using p by (simp add: view_def)
    have "view (ca (h @ u)) \<in> ?seen" "view (ca (h @ v)) \<in> ?seen" using u(1) v(1) by blast+
    from share_step.join [where svc = svc and V = ?V, OF V this q checked_free [OF p v(2) 2(4)]]
    show ?thesis unfolding new 2(2) primaryServiceLabelValue_id .
  qed
qed

end

section \<open>A cache that lags\<close>

text \<open>
  The laws hold of a list of services, replaced by every acknowledged update, with a cache that is \<open>d\<close> updates behind.
  The rest of the environment is arbitrary.
\<close>

fun store_event :: "service list \<Rightarrow> event \<Rightarrow> service list" where
  "store_event S (SvcUpdate s (Ok r)) = s # filter (\<lambda>x. svc_id x \<noteq> svc_id s) S"
| "store_event S _ = S"

definition stored :: "service list \<Rightarrow> history \<Rightarrow> service list" where
  "stored S h = foldl store_event S h"

definition lookup_store :: "service list \<Rightarrow> history \<Rightarrow> svc_store" where
  "lookup_store S h k = find (\<lambda>s. svc_id s = k \<and> CHR ''.'' \<notin> set (fst k)) (stored S h)"

definition lagged :: "nat \<Rightarrow> history \<Rightarrow> history" where
  "lagged d h = (let updates = filter acked_update h in take (length updates - d) updates)"

definition serve :: "nat \<Rightarrow> service list \<Rightarrow> env \<Rightarrow> env" where
  "serve d S E0 = E0\<lparr>
     envSvcCacheGet := (\<lambda>h ns n. case lookup_store S (lagged d h) (ns, n) of Some s \<Rightarrow> Ok s | None \<Rightarrow> Fail not_found None),
     envSvcCacheList := (\<lambda>h ns sel. Ok (filter (\<lambda>s. (ns = NamespaceAll \<or> svcNamespace s = ns) \<and>
       lookup_store S (lagged d h) (svc_id s) = Some s \<and> selector_matches sel (svcLabels s)) (stored S (lagged d h)))),
     envSvcUpdate := (\<lambda>h s. case lookup_store S h (svc_id s) of
         None \<Rightarrow> Fail not_found None
       | Some x \<Rightarrow>
           if SvcCacheGet (svcNamespace s) (svcName s) (Ok x) \<in> set h \<and> s = x\<lparr>svcLabels := svcLabels s, svcAnnotations := svcAnnotations s\<rparr>
           then Ok s else Fail (StatusError ''Conflict'' 409) None)\<rparr>"

lemma lookup_store_mem: "lookup_store S h k = Some s \<Longrightarrow> svc_id s = k \<and> CHR ''.'' \<notin> set (fst k) \<and> s \<in> set (stored S h)"
  by (auto simp: lookup_store_def dest!: find_Some_mem)

interpretation served: cached_services "serve d S E0" "lookup_store S" "\<lambda>h. lookup_store S (lagged d h)" for d S E0
proof
  fix h k s ns n sel xs r old
  show "lookup_store S h k = Some s \<or> lookup_store S (lagged d h) k = Some s \<Longrightarrow> svc_id s = k \<and> CHR ''.'' \<notin> set (fst k)"
    using lookup_store_mem by blast
  show "envSvcCacheGet (serve d S E0) h ns n = Ok s \<Longrightarrow> lookup_store S (lagged d h) (ns, n) = Some s"
    by (auto simp: serve_def split: option.splits)
  show "envSvcCacheList (serve d S E0) h NamespaceAll sel = Ok xs \<Longrightarrow>
      set xs = {s. lookup_store S (lagged d h) (svc_id s) = Some s \<and> selector_matches sel (svcLabels s)}"
    by (auto simp: serve_def dest: lookup_store_mem)
  assume "envSvcUpdate (serve d S E0) h s = Ok r"
  then obtain x where x: "lookup_store S h (svc_id s) = Some x" "s = x\<lparr>svcLabels := svcLabels s, svcAnnotations := svcAnnotations s\<rparr>"
    by (auto simp: serve_def split: option.splits if_splits)
  then have "svcUID x = svcUID s" "svcPorts x = svcPorts s" by (metis service.select_convs(3) service.update_convs service.surjective, metis svcPorts_simps)
  with x(1) show "\<exists>x. lookup_store S h (svc_id s) = Some x \<and> svcUID x = svcUID s \<and> svcPorts x = svcPorts s" by blast
qed

section \<open>Two runs\<close>

definition demo_joining :: service where
  "demo_joining = demo_svc\<lparr>svcAnnotations := Some (fmupd KeyPrimaryService ''default/main'' fmempty)\<rparr>"

lemma demo_joining_simps:
  "svcNamespace demo_joining = ''default''" "svcName demo_joining = ''web''" "svcUID demo_joining = ''u1''"
  "svcIngress demo_joining = []" "svcPorts demo_joining = [80]" "svcLabels demo_joining = Some fmempty"
  "mlookup (svcAnnotations demo_joining) KeyPrimaryService = Some ''default/main''"
  "mget (svcAnnotations demo_joining) KeyNetwork = []"
  by (simp_all add: demo_joining_def demo_svc_def key_defs mlookup_def mget_def)

lemma demo_primary_simps:
  "svcNamespace demo_primary = ''default''" "svcName demo_primary = ''main''" "svcUID demo_primary = ''u2''"
  "svcIngress demo_primary = [\<lparr>ingIP = ''10.0.0.5''\<rparr>]" "svcPorts demo_primary = [443]" "svcLabels demo_primary = Some fmempty"
  "mget (svcAnnotations demo_primary) k = []" "mlookup (svcAnnotations demo_primary) k = None"
  by (simp_all add: demo_primary_def demo_svc_def mlookup_def)

text \<open>A run for a secondary service whose cache answers, after the histories in \<open>Q\<close>, know no other
  user of the address.\<close>

lemma secondary_run:
  assumes Q: "Q h" "\<And>h e. Q h \<Longrightarrow> \<not> acked_update e \<Longrightarrow> Q (h @ [e])"
    and E: "\<And>h. Q h \<Longrightarrow> envSvcCacheGet (lmClients l) h ''default'' ''main'' = Ok demo_primary"
    "\<And>h. Q h \<Longrightarrow> envSvcCacheGet (lmClients l) h (svcNamespace svc) (svcName svc) = Ok svc"
    "\<And>h v. Q h \<Longrightarrow> envSvcCacheList (lmClients l) h NamespaceAll (KeyPrimaryService, v) = Ok []"
    "\<And>h ns n. envLbGet (lmClients l) h ns n = Fail not_found None"
    "\<And>h. Q h \<Longrightarrow> envSvcUpdate (lmClients l) (h @ [SvcCacheGet (svcNamespace svc) (svcName svc) (Ok svc)])
       (updateSecondaryServiceObject demo_primary svc ''10.0.0.5'' ''default.main'') =
       Ok (updateSecondaryServiceObject demo_primary svc ''10.0.0.5'' ''default.main'')"
    and svc: "mlookup (svcAnnotations svc) KeyPrimaryService = Some ''default/main''" "mget (svcAnnotations svc) KeyNetwork = []"
    "mget (svcLabels svc) KeyPrimaryService = []" "443 \<notin> set (svcPorts svc)"
  defines "s \<equiv> updateSecondaryServiceObject demo_primary svc ''10.0.0.5'' ''default.main''"
  shows "result_of (EnsureLoadBalancer l cl svc) h = (Some (svcIngress svc), None)"
    "trace_of (EnsureLoadBalancer l cl svc) h =
     [SvcCacheGet ''default'' ''main'' (Ok demo_primary), SvcCacheList NamespaceAll (KeyPrimaryService, ''default.main'') (Ok []),
      LbGet (lmNamespace l) (lb_name_of cl demo_primary) (Fail not_found None),
      SvcCacheList NamespaceAll (KeyPrimaryService, primaryServiceLabelValue svc) (Ok []),
      LbGet (lmNamespace l) (lb_name_of cl svc) (Fail not_found None),
      SvcCacheGet (svcNamespace svc) (svcName svc) (Ok svc), SvcUpdate s (Ok s)]"
proof -
  have Q': "Q (h @ t)" if "Q h" "\<forall>e\<in>set t. \<not> acked_update e" for h t
    using that Q(2) by (induction t arbitrary: h) (simp, metis append_Cons append_Nil append_assoc list.set_intros)
  have split: "split_n2 (CHR ''/'') ''default/main'' = [''default'', ''main'']" by code_simp
  have label: "primaryServiceLabelValue demo_primary = ''default.main''"
    by (simp add: primaryServiceLabelValue_def demo_primary_simps)
  let ?upd = "retryUpdateService l svc ''secondary'' ''10.0.0.5'' ''default.main'' (updateSecondaryServiceObject demo_primary)"
  have upd: "result_of ?upd h = None"
    "trace_of ?upd h = [SvcCacheGet (svcNamespace svc) (svcName svc) (Ok svc), SvcUpdate s (Ok s)]" if "Q h" for h
  proof -
    let ?fn = "retryFunc l svc ''secondary'' ''10.0.0.5'' ''default.main'' (updateSecondaryServiceObject demo_primary)"
    have fn: "result_of (?fn ()) h = (None, ())"
      "trace_of (?fn ()) h = [SvcCacheGet (svcNamespace svc) (svcName svc) (Ok svc), SvcUpdate s (Ok s)]"
      using E(2,5) [OF that] by (simp_all add: retryFunc_def resp_err_def s_def)
    show "result_of ?upd h = None" "trace_of ?upd h = [SvcCacheGet (svcNamespace svc) (svcName svc) (Ok svc), SvcUpdate s (Ok s)]"
      using svc_retry.retry_no_conflict [OF fn(1), of DefaultBackoffSteps] fn(2)
      by (simp_all add: retryUpdateService_def DefaultBackoffSteps_def)
  qed
  have old: "\<not> isSecondaryServiceUpdatedWithPrimary demo_primary svc ''10.0.0.5'' ''default.main''"
    "portOverlapLoop (set (svcPorts svc)) (svcUID svc) [demo_primary] = None"
    using svc by (auto simp: isSecondaryServiceUpdatedWithPrimary_def demo_primary_simps portOverlapLoop_None)
  note defs = EnsureLoadBalancer_def resolveNetworkInterface_def getPrimaryService_def ensureSecondaryLoadBalancer_def
    checkPortOverlap_def checkNetworkChanged_def networkChangedError_def deleteLoadBalancer_def
    checkSecondaryServicesBeforeDeleted_def updateSecondaryServiceLoadBalancerIP_def other_error_def resp_err_def resp_obj_def
    Let_def split label demo_primary_simps lb_name_of_def
  show "result_of (EnsureLoadBalancer l cl svc) h = (Some (svcIngress svc), None)"
    using Q(1) old svc E by (simp add: defs upd Q')
  show "trace_of (EnsureLoadBalancer l cl svc) h =
     [SvcCacheGet ''default'' ''main'' (Ok demo_primary), SvcCacheList NamespaceAll (KeyPrimaryService, ''default.main'') (Ok []),
      LbGet (lmNamespace l) (lb_name_of cl demo_primary) (Fail not_found None),
      SvcCacheList NamespaceAll (KeyPrimaryService, primaryServiceLabelValue svc) (Ok []),
      LbGet (lmNamespace l) (lb_name_of cl svc) (Fail not_found None),
      SvcCacheGet (svcNamespace svc) (svcName svc) (Ok svc), SvcUpdate s (Ok s)]"
    using Q(1) old svc E by (simp add: defs upd Q')
qed

text \<open>Another service has just joined the primary service, with the same port, and the cache is one update behind.\<close>

definition demo_rival :: service where
  "demo_rival = demo_joining\<lparr>svcName := ''other'', svcUID := ''u3''\<rparr>"

definition joined :: service where
  "joined = updateSecondaryServiceObject demo_primary demo_joining ''10.0.0.5'' ''default.main''"

definition rival_joined :: service where
  "rival_joined = updateSecondaryServiceObject demo_primary demo_rival ''10.0.0.5'' ''default.main''"

abbreviation demo_services :: "service list" where
  "demo_services \<equiv> [demo_primary, demo_joining, demo_rival]"

abbreviation rival_past :: history where
  "rival_past \<equiv> [SvcUpdate rival_joined (Ok rival_joined)]"

definition store_manager :: lb_manager where
  "store_manager = \<lparr>lmClients = serve 1 demo_services empty_env, lmNamespace = ''default'', lmConfig = zero_config\<rparr>"

lemma stored_acked: "stored S h = stored S (filter acked_update h)"
proof -
  have "store_event S e = S" if "\<not> acked_update e" for S e using that by (cases "(S, e)" rule: store_event.cases) auto
  then show ?thesis by (induction h arbitrary: S) (auto simp: stored_def)
qed

lemma rival_simps:
  "svc_id rival_joined = (''default'', ''other'')" "svcPorts rival_joined = [80]" "svcUID rival_joined = ''u3''" "svc_id demo_rival = (''default'', ''other'')"
  "mget (svcLabels rival_joined) KeyPrimaryService = ''default.main''" "svcLabels demo_rival = Some fmempty" "svcNamespace demo_rival = ''default''"
  by (simp_all add: rival_joined_def demo_rival_def updateSecondaryServiceObject_def svc_id_def demo_joining_simps Let_def)

lemma demo_served:
  assumes "filter acked_update h = rival_past" "0 < d"
  shows "envSvcCacheGet (serve d demo_services E) h ''default'' ''main'' = Ok demo_primary"
    "envSvcCacheGet (serve d demo_services E) h ''default'' ''web'' = Ok demo_joining"
    "envSvcCacheList (serve d demo_services E) h NamespaceAll (KeyPrimaryService, v) = Ok []"
    "envSvcUpdate (serve d demo_services E) (h @ [SvcCacheGet ''default'' ''web'' (Ok demo_joining)]) joined = Ok joined"
proof -
  have cache: "stored demo_services (lagged d h) = demo_services" using assms(2) by (simp add: lagged_def assms(1) stored_def)
  have server: "stored demo_services (h @ [SvcCacheGet a b c]) = [rival_joined, demo_primary, demo_joining]" for a b c
    by (simp add: stored_acked [of _ "h @ _"] assms(1))
      (simp add: stored_def rival_simps svc_id_def [of demo_primary] svc_id_def [of demo_joining] demo_joining_simps demo_primary_simps)
  have ids: "svc_id demo_primary = (''default'', ''main'')" "svc_id demo_joining = (''default'', ''web'')" "svc_id joined = (''default'', ''web'')"
    by (simp_all add: svc_id_def joined_def updateSecondaryServiceObject_def demo_joining_simps demo_primary_simps Let_def)
  show "envSvcCacheGet (serve d demo_services E) h ''default'' ''main'' = Ok demo_primary"
    "envSvcCacheGet (serve d demo_services E) h ''default'' ''web'' = Ok demo_joining"
    by (simp_all add: serve_def lookup_store_def cache ids)
  show "envSvcCacheList (serve d demo_services E) h NamespaceAll (KeyPrimaryService, v) = Ok []"
    by (simp add: serve_def cache selector_matches_def mlookup_def rival_simps demo_joining_simps demo_primary_simps)
  show "envSvcUpdate (serve d demo_services E) (h @ [SvcCacheGet ''default'' ''web'' (Ok demo_joining)]) joined = Ok joined"
    by (simp add: serve_def lookup_store_def server ids rival_simps) (simp add: joined_def updateSecondaryServiceObject_def demo_joining_simps Let_def)
qed

definition joining_past :: history where
  "joining_past = [SvcCacheGet ''default'' ''main'' (Ok demo_primary), SvcCacheList NamespaceAll (KeyPrimaryService, ''default.main'') (Ok []),
      LbGet ''default'' (lb_name_of ''c1'' demo_primary) (Fail not_found None),
      SvcCacheList NamespaceAll (KeyPrimaryService, ''default.web'') (Ok []),
      LbGet ''default'' (lb_name_of ''c1'' demo_joining) (Fail not_found None),
      SvcCacheGet ''default'' ''web'' (Ok demo_joining)]"

lemma joining_run:
  "trace_of (EnsureLoadBalancer store_manager ''c1'' demo_joining) rival_past = joining_past @ SvcUpdate joined (Ok joined) # []"
proof -
  let ?l = store_manager and ?Q = "\<lambda>h. filter acked_update h = rival_past"
  have "trace_of (EnsureLoadBalancer ?l ''c1'' demo_joining) rival_past =
     [SvcCacheGet ''default'' ''main'' (Ok demo_primary), SvcCacheList NamespaceAll (KeyPrimaryService, ''default.main'') (Ok []),
      LbGet (lmNamespace ?l) (lb_name_of ''c1'' demo_primary) (Fail not_found None),
      SvcCacheList NamespaceAll (KeyPrimaryService, primaryServiceLabelValue demo_joining) (Ok []),
      LbGet (lmNamespace ?l) (lb_name_of ''c1'' demo_joining) (Fail not_found None),
      SvcCacheGet (svcNamespace demo_joining) (svcName demo_joining) (Ok demo_joining),
      SvcUpdate (updateSecondaryServiceObject demo_primary demo_joining ''10.0.0.5'' ''default.main'')
        (Ok (updateSecondaryServiceObject demo_primary demo_joining ''10.0.0.5'' ''default.main''))]"
    by (rule secondary_run(2) [where Q = ?Q])
      (auto simp: store_manager_def demo_served demo_joining_simps joined_def [symmetric], simp_all add: serve_def empty_env_def)
  then show ?thesis
    by (simp add: joining_past_def store_manager_def demo_joining_simps joined_def primaryServiceLabelValue_def)
qed

section \<open>Properties\<close>

text \<open>C11: Ensuring a load balancer is atomic for the sharing of addresses, whatever other clients do and however
  far the cache is behind: every run, successful or not and with however many conflicts, acknowledges at most one update of a
  service, and this write is one abstract step on the services the server has at this moment: it drops the
  label of the service the run is for, or labels it with a primary service such that neither the primary
  service nor a service labelled with it had, in the views of the cache the run has seen, one of the ports of the
  service it was called with.\<close>

theorem ensure_refines_share:
  assumes "cached_services (lmClients l) sv ca" "trace_of (EnsureLoadBalancer l cl svc) h = pre @ SvcUpdate s (Ok r) # post"
  shows "share_step {view (ca (h @ u)) |u. prefix u pre} svc (view (sv (h @ pre))) (view ((sv (h @ pre))(svc_id s \<mapsto> s))) \<and>
    list_all (\<lambda>e. \<not> acked_update e) (pre @ post)"
proof
  show "share_step {view (ca (h @ u)) |u. prefix u pre} svc (view (sv (h @ pre))) (view ((sv (h @ pre))(svc_id s \<mapsto> s)))"
    by (rule cached_services.update_step(2) [OF assms(1) refl assms(2)])
  have "length (filter acked_update (trace_of (EnsureLoadBalancer l cl svc) h)) \<le> 1"
    using ensure_acks unfolding at_most_def by blast
  then show "list_all (\<lambda>e. \<not> acked_update e) (pre @ post)" by (auto simp: assms(2) list_all_iff filter_empty_conv)
qed

theorem ensure_refines_share_witness:
  "share_step {view (lookup_store demo_services (lagged 1 (rival_past @ u))) |u. prefix u joining_past} demo_joining
      (view (lookup_store demo_services (rival_past @ joining_past)))
      (view ((lookup_store demo_services (rival_past @ joining_past))(svc_id joined \<mapsto> joined))) \<and>
    list_all (\<lambda>e. \<not> acked_update e) (joining_past @ [])"
proof (rule ensure_refines_share [OF _ joining_run])
  show "cached_services (lmClients store_manager) (lookup_store demo_services) (\<lambda>h. lookup_store demo_services (lagged 1 h))"
    by (simp add: store_manager_def served.cached_services_axioms)
qed

end
