(* ===== verification/Progress.thy ===== *)
theory Progress
  imports LoadBalancer_Props
begin

text \<open>
  Progress: if the API servers answer, Harvester allocates an address while the manager polls, and
  other writers cause fewer conflicts than the retry loop has rounds, then ensuring a primary service
  succeeds.  Time is counted in sleeps: the manager sleeps a second between two polls.
\<close>

section \<open>Responsive servers\<close>

definition sleeps :: "history \<Rightarrow> nat" where
  "sleeps t = length (filter (\<lambda>e. e = Sleep) t)"

fun is_conflict :: "event \<Rightarrow> bool" where
  "is_conflict (SvcUpdate s (Fail e x)) = IsConflict e"
| "is_conflict _ = False"

definition conflicts :: "history \<Rightarrow> nat" where
  "conflicts t = length (filter is_conflict t)"

text \<open>
  After \<open>h\<close>, Harvester answers every call about the load balancer, which exists on the network of
  the service or does not exist yet, acknowledges writes, and has allocated an address nine sleeps
  after the load balancer was written.
\<close>

definition harvester_responds :: "lb_manager \<Rightarrow> string \<Rightarrow> service \<Rightarrow> history \<Rightarrow> bool" where
  "harvester_responds l cl svc h \<longleftrightarrow>
     (\<forall>t. (\<exists>lb. envLbGet (lmClients l) (h @ t) (lmNamespace l) (lb_name_of cl svc) = Ok lb \<and> \<not> IsNetworkChanged svc lb) \<or>
          (\<exists>e x. envLbGet (lmClients l) (h @ t) (lmNamespace l) (lb_name_of cl svc) = Fail e x \<and> IsNotFound e \<and> absentLB x)) \<and>
     (\<forall>t lb. \<exists>r. envLbCreate (lmClients l) (h @ t) lb = Ok r) \<and>
     (\<forall>t lb. \<exists>r. envLbUpdate (lmClients l) (h @ t) lb = Ok r) \<and>
     (\<forall>t. list_ex is_lb_put t \<longrightarrow> 9 \<le> sleeps t \<longrightarrow>
        (\<exists>lb. envLbGet (lmClients l) (h @ t) (lmNamespace l) (lb_name_of cl svc) = Ok lb \<and> lbAllocatedIP lb \<noteq> []))"

text \<open>After \<open>h\<close>, the service stays in the cache with its UID, and updates of it are acknowledged, but
  for at most three conflicts.\<close>

definition cluster_responds :: "lb_manager \<Rightarrow> service \<Rightarrow> history \<Rightarrow> bool" where
  "cluster_responds l svc h \<longleftrightarrow>
     (\<forall>t. \<exists>old. envSvcCacheGet (lmClients l) (h @ t) (svcNamespace svc) (svcName svc) = Ok old \<and> svcUID old = svcUID svc) \<and>
     (\<forall>t s. (\<exists>r. envSvcUpdate (lmClients l) (h @ t) s = Ok r) \<or>
        (\<exists>e x. envSvcUpdate (lmClients l) (h @ t) s = Fail e x \<and> IsConflict e \<and> conflicts t < 3))"

text \<open>
  After \<open>h\<close>, the service may join its primary service: the cache lists the services that share with
  the primary, none of which has one of its ports, and none that shares with the service itself; the
  network of the service is the one of the primary's load balancer, or is left open; and a load
  balancer the service may have had on its own can be removed.
\<close>

definition may_join :: "lb_manager \<Rightarrow> string \<Rightarrow> service \<Rightarrow> service \<Rightarrow> history \<Rightarrow> bool" where
  "may_join l cl primary svc h \<longleftrightarrow>
     (\<forall>t. \<exists>svcs. envSvcCacheList (lmClients l) (h @ t) NamespaceAll (KeyPrimaryService, primaryServiceLabelValue primary) = Ok svcs \<and>
        (\<forall>s\<in>set (svcs @ [primary]). svcUID s \<noteq> svcUID svc \<longrightarrow> set (svcPorts s) \<inter> set (svcPorts svc) = {})) \<and>
     (\<forall>t. envSvcCacheList (lmClients l) (h @ t) NamespaceAll (KeyPrimaryService, primaryServiceLabelValue svc) = Ok []) \<and>
     (\<forall>t. (\<exists>lb. envLbGet (lmClients l) (h @ t) (lmNamespace l) (lb_name_of cl primary) = Ok lb \<and>
             (mget (svcAnnotations svc) KeyNetwork = [] \<or> \<not> IsNetworkChanged svc lb)) \<or>
          (\<exists>e. envLbGet (lmClients l) (h @ t) (lmNamespace l) (lb_name_of cl primary) = Fail e None \<and> IsNotFound e)) \<and>
     (\<forall>t. (\<exists>lb. envLbGet (lmClients l) (h @ t) (lmNamespace l) (lb_name_of cl svc) = Ok lb) \<or>
          (\<exists>e x. envLbGet (lmClients l) (h @ t) (lmNamespace l) (lb_name_of cl svc) = Fail e x \<and> IsNotFound e)) \<and>
     (\<forall>t. envLbDelete (lmClients l) (h @ t) (lmNamespace l) (lb_name_of cl svc) = None)"

section \<open>The two loops end well\<close>

lemma sleeps_simps [simp]: "sleeps [] = 0" "sleeps (t @ u) = sleeps t + sleeps u"
  "sleeps (e # t) = (if e = Sleep then 1 else 0) + sleeps t"
  by (simp_all add: sleeps_def)

lemma conflicts_simps [simp]: "conflicts [] = 0" "conflicts (t @ u) = conflicts t + conflicts u"
  "conflicts (e # t) = (if is_conflict e then 1 else 0) + conflicts t"
  by (simp_all add: conflicts_def)

lemma harvester_allocates:
  "\<lbrakk>harvester_responds l cl svc h; list_ex is_lb_put t; 9 \<le> sleeps t\<rbrakk> \<Longrightarrow>
   \<exists>lb. envLbGet (lmClients l) (h @ t) (lmNamespace l) (lb_name_of cl svc) = Ok lb \<and> lbAllocatedIP lb \<noteq> []"
  unfolding harvester_responds_def by blast

lemma waitLoop_progress:
  assumes "harvester_responds l cl svc h" "list_ex is_lb_put t" "0 < n" "10 \<le> n + sleeps t"
  shows "\<exists>x. result_of (waitLoop n e (allocatedIP l (lb_name_of cl svc))) (h @ t) = Inr x"
  using assms(2-4)
proof (induction n arbitrary: e t)
  case (Suc n)
  let ?cb = "allocatedIP l (lb_name_of cl svc)"
  show ?case
  proof (cases "result_of ?cb (h @ t)")
    case (Inl err)
    have "sleeps t < 9"
    proof (rule ccontr)
      assume "\<not> sleeps t < 9"
      then have "9 \<le> sleeps t" by simp
      with harvester_allocates [OF assms(1) Suc.prems(1)] obtain lb where
        "envLbGet (lmClients l) (h @ t) (lmNamespace l) (lb_name_of cl svc) = Ok lb" "lbAllocatedIP lb \<noteq> []" by blast
      with Inl show False by (simp add: allocatedIP_def)
    qed
    moreover have "trace_of ?cb (h @ t) = [LbGet (lmNamespace l) (lb_name_of cl svc)
        (envLbGet (lmClients l) (h @ t) (lmNamespace l) (lb_name_of cl svc))]" by (simp add: allocatedIP_def)
    ultimately show ?thesis
      using Suc.prems Suc.IH [of "t @ trace_of ?cb (h @ t) @ [Sleep]" err] Inl by simp
  qed simp
qed simp

lemma retry_progress:
  assumes "cluster_responds l svc h" "0 < n" "4 \<le> n + conflicts t"
  shows "result_of (retry_loop n le (retryFunc l svc ty ip lab upd) u) (h @ t) = None"
  using assms(2,3)
proof (induction n arbitrary: le u t)
  case (Suc n le u t)
  let ?fn = "retryFunc l svc ty ip lab upd"
  obtain old where old: "envSvcCacheGet (lmClients l) (h @ t) (svcNamespace svc) (svcName svc) = Ok old" "svcUID old = svcUID svc"
    using assms(1) unfolding cluster_responds_def by blast
  let ?t = "t @ [SvcCacheGet (svcNamespace svc) (svcName svc) (Ok old)]" and ?s = "upd old ip lab"
  let ?r = "envSvcUpdate (lmClients l) (h @ ?t) ?s"
  have fn: "result_of (?fn ()) (h @ t) = (resp_err ?r, ())" "trace_of (?fn ()) (h @ t) =
      [SvcCacheGet (svcNamespace svc) (svcName svc) (Ok old), SvcUpdate ?s ?r]"
    using old by (simp_all add: retryFunc_def)
  consider r where "?r = Ok r" | e x where "?r = Fail e x" "IsConflict e" "conflicts ?t < 3"
    using assms(1) unfolding cluster_responds_def by blast
  then show ?case
  proof cases
    case 1
    then show ?thesis using svc_retry.loop_step(2) [OF fn, of n le] by (simp add: resp_err_def del: retry_loop.simps)
  next
    case 2
    let ?t' = "t @ [SvcCacheGet (svcNamespace svc) (svcName svc) (Ok old), SvcUpdate ?s ?r, Sleep]"
    have "result_of (retry_loop n (Some e) ?fn ()) (h @ ?t') = None" and "n \<noteq> 0"
      using Suc.IH [of ?t' "Some e" "()"] Suc.prems 2 by (auto simp del: retry_loop.simps)
    then show ?thesis using svc_retry.loop_step(2) [OF fn, of n le] 2 by (simp add: resp_err_def del: retry_loop.simps)
  qed
qed simp

lemma retryUpdateService_progress:
  "cluster_responds l svc h \<Longrightarrow> result_of (retryUpdateService l svc ty ip lab upd) (h @ t) = None"
  using retry_progress [of l svc h DefaultBackoffSteps t]
  by (simp add: retryUpdateService_def RetryOnConflict_loop DefaultBackoffSteps_def svc_retry.appends_loop)

section \<open>The stages\<close>

lemma check_progress:
  assumes "harvester_responds l cl svc h"
  shows "result_of (checkNetworkChanged l svc (lb_name_of cl svc) False) (h @ t) = None"
proof -
  consider lb where "envLbGet (lmClients l) (h @ t) (lmNamespace l) (lb_name_of cl svc) = Ok lb" "\<not> IsNetworkChanged svc lb"
    | e x where "envLbGet (lmClients l) (h @ t) (lmNamespace l) (lb_name_of cl svc) = Fail e x" "IsNotFound e" "absentLB x"
    using assms unfolding harvester_responds_def by blast
  then show ?thesis
    by cases (auto simp: checkNetworkChanged_def networkChangedError_def other_error_def resp_err_def resp_obj_def absentLB_def
        split: option.splits)
qed

lemma createOrUpdate_progress:
  assumes "harvester_responds l cl svc h"
  shows "result_of (createOrUpdateLoadBalancer l (lb_name_of cl svc) cl svc) (h @ t) = None"
    and "list_ex is_lb_put (trace_of (createOrUpdateLoadBalancer l (lb_name_of cl svc) cl svc) (h @ t))"
proof -
  have w: "\<exists>r. envLbCreate (lmClients l) (h @ u) lb = Ok r" "\<exists>r. envLbUpdate (lmClients l) (h @ u) lb = Ok r" for u lb
    using assms unfolding harvester_responds_def by blast+
  have c: "resp_err (envLbCreate (lmClients l) (h @ u) lb) = None" "resp_err (envLbUpdate (lmClients l) (h @ u) lb) = None" for u lb
    using w(1) [of u lb] w(2) [of u lb] by (auto simp: resp_err_def)
  consider lb where "envLbGet (lmClients l) (h @ t) (lmNamespace l) (lb_name_of cl svc) = Ok lb"
    | e x where "envLbGet (lmClients l) (h @ t) (lmNamespace l) (lb_name_of cl svc) = Fail e x" "IsNotFound e"
    using assms unfolding harvester_responds_def by blast
  then show "result_of (createOrUpdateLoadBalancer l (lb_name_of cl svc) cl svc) (h @ t) = None"
    "list_ex is_lb_put (trace_of (createOrUpdateLoadBalancer l (lb_name_of cl svc) cl svc) (h @ t))"
    by (cases; simp add: createOrUpdateLoadBalancer_def other_error_def resp_err_def [of "Ok _"] resp_err_def [of "Fail _ _"] c Let_def)+
qed

lemma updatePrimary_progress:
  assumes "harvester_responds l cl svc h" "cluster_responds l svc h" "list_ex is_lb_put t"
    and "\<And>t. result_of (resolveNetworkInterface l svc) (h @ t) = Inr ifc"
  shows "result_of (updatePrimaryServiceLoadBalancerIP l (lb_name_of cl svc) svc) (h @ t) = None"
proof -
  let ?t = "t @ trace_of (resolveNetworkInterface l svc) (h @ t)"
  let ?w = "waitForIP (allocatedIP l (lb_name_of cl svc))"
  have "\<exists>x. result_of (waitLoop retryTimes (OtherError ''nil'') (allocatedIP l (lb_name_of cl svc))) (h @ ?t) = Inr x"
    using assms(3) by (intro waitLoop_progress [OF assms(1)]) (simp_all add: retryTimes_def)
  then obtain lb ip where w: "result_of ?w (h @ ?t) = Inr (lb, ip)" by (auto simp: waitForIP_def)
  have "result_of (retryUpdateService l svc ''primary'' ip [] (updatePrimaryServiceObject ifc)) (h @ ?t @ trace_of ?w (h @ ?t)) = None"
    by (rule retryUpdateService_progress [OF assms(2)])
  then show ?thesis using assms(4) [of t] w by (simp add: updatePrimaryServiceLoadBalancerIP_def)
qed

lemma ensure_progress:
  assumes "mlookup (svcAnnotations svc) KeyPrimaryService = None"
    and "\<And>t. result_of (resolveNetworkInterface l svc) (h @ t) = Inr ifc"
    and "harvester_responds l cl svc h" "cluster_responds l svc h"
  shows "result_of (EnsureLoadBalancer l cl svc) h = (Some (svcIngress svc), None)"
proof -
  have p: "getPrimaryService l svc = ret (Inr None)" using assms(1) by (simp add: getPrimaryService_def)
  note stages = check_progress [OF assms(3)] createOrUpdate_progress [OF assms(3)] updatePrimary_progress [OF assms(3,4) _ assms(2)]
  have "result_of (ensurePrimaryLoadBalancer l cl svc) (h @ t) = (Some (svcIngress svc), None)" for t
    by (simp add: ensurePrimaryLoadBalancer_def Let_def lb_name_of_def [symmetric] stages)
  then show ?thesis using assms(2) [of "[]"] p by (simp add: EnsureLoadBalancer_def)
qed

lemma join_progress:
  assumes "may_join l cl primary svc h"
  shows "result_of (checkPortOverlap l primary svc) (h @ t) = None"
    "result_of (checkNetworkChanged l svc (lb_name_of cl primary) True) (h @ t) = None"
    "result_of (deleteLoadBalancer l cl svc) (h @ t) = None"
proof -
  obtain svcs where "envSvcCacheList (lmClients l) (h @ t) NamespaceAll (KeyPrimaryService, primaryServiceLabelValue primary) = Ok svcs"
    "\<forall>s\<in>set (svcs @ [primary]). svcUID s \<noteq> svcUID svc \<longrightarrow> set (svcPorts s) \<inter> set (svcPorts svc) = {}"
    using assms unfolding may_join_def by blast
  then show "result_of (checkPortOverlap l primary svc) (h @ t) = None"
    by (auto simp: checkPortOverlap_def portOverlapLoop_None)
  consider lb where "envLbGet (lmClients l) (h @ t) (lmNamespace l) (lb_name_of cl primary) = Ok lb"
      "mget (svcAnnotations svc) KeyNetwork = [] \<or> \<not> IsNetworkChanged svc lb"
    | e where "envLbGet (lmClients l) (h @ t) (lmNamespace l) (lb_name_of cl primary) = Fail e None" "IsNotFound e"
    using assms unfolding may_join_def by blast
  then show "result_of (checkNetworkChanged l svc (lb_name_of cl primary) True) (h @ t) = None"
    by cases (auto simp: checkNetworkChanged_def networkChangedError_def IsNetworkChanged_def other_error_def resp_err_def resp_obj_def)
  have none: "envSvcCacheList (lmClients l) (h @ t) NamespaceAll (KeyPrimaryService, primaryServiceLabelValue svc) = Ok []"
    and del: "envLbDelete (lmClients l) (h @ u) (lmNamespace l) (lb_name_of cl svc) = None" for u
    using assms unfolding may_join_def by blast+
  let ?t = "t @ [SvcCacheList NamespaceAll (KeyPrimaryService, primaryServiceLabelValue svc) (Ok [])]"
  consider lb where "envLbGet (lmClients l) (h @ ?t) (lmNamespace l) (lb_name_of cl svc) = Ok lb"
    | e x where "envLbGet (lmClients l) (h @ ?t) (lmNamespace l) (lb_name_of cl svc) = Fail e x" "IsNotFound e"
    using assms unfolding may_join_def by blast
  then show "result_of (deleteLoadBalancer l cl svc) (h @ t) = None"
    using none del
    by cases (simp_all add: deleteLoadBalancer_def checkSecondaryServicesBeforeDeleted_def lb_name_of_def [symmetric] Let_def other_error_def resp_err_def)
qed

section \<open>Properties\<close>

text \<open>C7: Ensuring a primary service succeeds whenever the servers let it: if its network resolves,
  Harvester answers and has allocated an address by the tenth poll, the service keeps its UID, and
  at most three conflicting writes come in between, then the run returns the status of the service
  and no error.\<close>

theorem ensure_primary_live:
  assumes "mlookup (svcAnnotations svc) KeyPrimaryService = None"
    and "\<And>t. result_of (resolveNetworkInterface l svc) (h @ t) = Inr ifc"
    and "harvester_responds l cl svc h" "cluster_responds l svc h"
  shows "result_of (EnsureLoadBalancer l cl svc) h = (Some (svcIngress svc), None)"
  using assms by (rule ensure_progress)

text \<open>C12: Ensuring a secondary service succeeds whenever the servers let it: if the primary service has an
  address, the ports are free, the networks agree, an own load balancer can be removed, the service
  keeps its UID and at most three conflicting writes come in between, then the run returns the
  status of the service and no error.\<close>

theorem ensure_secondary_live:
  assumes "result_of (resolveNetworkInterface l svc) h = Inr ifc"
    and "result_of (getPrimaryService l svc) (h @ trace_of (resolveNetworkInterface l svc) h) = Inr (Some primary)"
    and "svcIngress primary \<noteq> []" "may_join l cl primary svc h" "cluster_responds l svc h"
  shows "result_of (EnsureLoadBalancer l cl svc) h = (Some (svcIngress svc), None)"
proof -
  obtain ing rest where ing: "svcIngress primary = ing # rest" using assms(3) by (cases "svcIngress primary") auto
  have upd: "result_of (updateSecondaryServiceLoadBalancerIP l (ingIP ing) primary svc) (h @ t) = None" for t
    using retryUpdateService_progress [OF assms(5)] by (simp add: updateSecondaryServiceLoadBalancerIP_def Let_def)
  have "result_of (ensureSecondaryLoadBalancer l cl primary svc) (h @ t) = (Some (svcIngress svc), None)" for t
    by (simp add: ensureSecondaryLoadBalancer_def ing Let_def lb_name_of_def [symmetric] join_progress [OF assms(4)] upd)
  then show ?thesis using assms(1,2) by (simp add: EnsureLoadBalancer_def)
qed

text \<open>A service that joins another after three conflicts.\<close>

definition join_manager :: lb_manager where
  "join_manager = \<lparr>lmClients = empty_env\<lparr>
       envSvcCacheGet := (\<lambda>h ns n. Ok (if n = ''main'' then demo_primary else demo_svc)),
       envLbDelete := (\<lambda>h ns n. None),
       envSvcUpdate := (\<lambda>h s. if conflicts h < 3 then Fail (StatusError ''Conflict'' 409) None else Ok s)\<rparr>,
     lmNamespace = ''default'', lmConfig = zero_config\<rparr>"

theorem ensure_secondary_live_witness:
  "result_of (EnsureLoadBalancer join_manager ''c1'' (demo_annotated KeyPrimaryService ''default/main'')) [] =
   (Some (svcIngress (demo_annotated KeyPrimaryService ''default/main'')), None)"
proof (rule ensure_secondary_live [of _ _ _ "[]" demo_primary])
  let ?svc = "demo_annotated KeyPrimaryService ''default/main''"
  have keys: "KeyPrimaryService \<noteq> KeyNetwork" by (simp add: key_defs)
  show "result_of (resolveNetworkInterface join_manager ?svc) [] = Inr []"
    using keys by (simp add: resolveNetworkInterface_def)
  have split: "split_n2 (CHR ''/'') ''default/main'' = [''default'', ''main'']" by code_simp
  show "result_of (getPrimaryService join_manager ?svc) ([] @ trace_of (resolveNetworkInterface join_manager ?svc) []) = Inr (Some demo_primary)"
    by (simp add: getPrimaryService_def split) (simp add: join_manager_def demo_primary_def demo_svc_def mget_def)
  show "svcIngress demo_primary \<noteq> []" by (simp add: demo_primary_def)
  show "may_join join_manager ''c1'' demo_primary ?svc []"
    using keys by (simp add: may_join_def join_manager_def empty_env_def)
      (simp add: demo_primary_def demo_annotated_def demo_svc_def)
  show "cluster_responds join_manager ?svc []"
    by (auto simp: cluster_responds_def join_manager_def empty_env_def IsConflict_def demo_annotated_def demo_svc_def)
qed

text \<open>An address after nine sleeps, and three conflicts.\<close>

definition slow_manager :: lb_manager where
  "slow_manager = \<lparr>lmClients = empty_env\<lparr>
       envLbGet := (\<lambda>h ns n. if list_ex is_lb_put h then Ok (demo_lb\<lparr>lbAllocatedIP := if 9 \<le> sleeps h then ''10.0.0.5'' else []\<rparr>)
         else Fail not_found None),
       envSvcCacheGet := (\<lambda>h ns n. Ok demo_svc),
       envSvcUpdate := (\<lambda>h s. if conflicts h < 3 then Fail (StatusError ''Conflict'' 409) None else Ok s)\<rparr>,
     lmNamespace = ''default'', lmConfig = zero_config\<rparr>"

theorem ensure_primary_live_witness:
  "result_of (EnsureLoadBalancer slow_manager ''c1'' demo_svc) [] = (Some (svcIngress demo_svc), None)"
proof (rule ensure_primary_live)
  show "mlookup (svcAnnotations demo_svc) KeyPrimaryService = None" by (simp add: demo_svc_def mlookup_def)
  show "result_of (resolveNetworkInterface slow_manager demo_svc) ([] @ t) = Inr []" for t
    by (simp add: resolveNetworkInterface_def demo_svc_def)
  show "harvester_responds slow_manager ''c1'' demo_svc []"
    by (auto simp: harvester_responds_def slow_manager_def empty_env_def IsNetworkChanged_def demo_svc_def demo_lb_def absentLB_def)
  show "cluster_responds slow_manager demo_svc []"
    by (auto simp: cluster_responds_def slow_manager_def empty_env_def IsConflict_def)
qed

end
