(* ===== verification/NodeAddresses.thy ===== *)
theory NodeAddresses
  imports Config_Facts Gojson_Facts
begin

text \<open>
  Node addresses: \<open>pkg/cloud-controller-manager/instance_ip.go\<close> and the function
  \<open>getNodeAddresses\<close> of \<open>instance.go\<close>.  The addresses a VMI reports on its management
  network are parsed, stripped of unusable ones, categorized as internal or external and
  filtered.  The three ways to categorize and the two filters have a contract each, stated
  as the locales \<open>categorizer\<close> and \<open>candidate_filter\<close>; what holds of every
  combination is proved once, in the locale \<open>resolver\<close> that joins the two.
\<close>

section \<open>Definitions\<close>

datatype ProcessingMode = ModeProvidedIP | ModeNodeIPCIDR | ModeFallback

record candidate =
  candAddr :: addr
  candNodeAddr :: node_address

record address_context =
  ctxMode :: ProcessingMode
  ctxNodeIPCIDRPrefixes :: "ip_prefix list"
  ctxNodeExcludeIPPrefixes :: "ip_prefix list"
  ctxProvidedIP :: string
  ctxLegacyExcludes :: "string list"
  ctxNetwork :: string

definition AnnotationAlphaProvidedIPAddr :: string where
  "AnnotationAlphaProvidedIPAddr = ''alpha.kubernetes.io/provided-node-ip''"

definition ToNodeAddresses :: "candidate list \<Rightarrow> node_address list" where
  "ToNodeAddresses cas = map candNodeAddr cas"

text \<open>With a management network: the first NIC on that network; without: all multus NICs.\<close>

fun firstOnNetwork :: "string \<Rightarrow> vmi_network list \<Rightarrow> string list" where
  "firstOnNetwork mgmt [] = []"
| "firstOnNetwork mgmt (n # ns) = (case netMultus n of
     None \<Rightarrow> firstOnNetwork mgmt ns
   | Some nad \<Rightarrow> if nad = mgmt then [netName n] else firstOnNetwork mgmt ns)"

definition getManagementNetworks :: "vmi \<Rightarrow> config option \<Rightarrow> string list" where
  "getManagementNetworks v cfg = (case GetManagementNetwork cfg of
     Some mgmt \<Rightarrow> firstOnNetwork mgmt (vmiNetworks v)
   | None \<Rightarrow> map netName (filter (\<lambda>n. netMultus n \<noteq> None) (vmiNetworks v)))"

definition getAdditionalInternalIPs :: "node \<Rightarrow> string list" where
  "getAdditionalInternalIPs nd = (case mlookup (nodeAnnotations nd) KeyAdditionalInternalIPs of
     None \<Rightarrow> []
   | Some s \<Rightarrow>
       if s = [] \<or> s = ''[]'' \<or> s = ''null'' then []
       else (case unmarshal_strings s of None \<Rightarrow> [] | Some ips \<Rightarrow> ips))"

text \<open>Returns (disableProvidedIP, useProvidedIP, providedIP, legacyExcludes).\<close>

definition getLegacyModeRelatedParams :: "node \<Rightarrow> config \<Rightarrow> bool \<times> bool \<times> string \<times> string list" where
  "getLegacyModeRelatedParams nd cfg =
     (if cfgDisableAnnotationAlphaProvidedIPAddr cfg then (True, False, [], [])
      else (case mlookup (nodeAnnotations nd) AnnotationAlphaProvidedIPAddr of
              Some val \<Rightarrow> (False, True, val, getAdditionalInternalIPs nd)
            | None \<Rightarrow> (False, False, [], getAdditionalInternalIPs nd)))"

definition buildIPAddressProcessContext :: "node \<Rightarrow> string \<Rightarrow> config \<Rightarrow> address_context" where
  "buildIPAddressProcessContext nd network cfg =
     (let nodeIPCIDRPrefixes = GetNodeIPCIDRPrefixes (Some cfg);
          (disableAnnot, useAnnot, annotIP, excludes) = getLegacyModeRelatedParams nd cfg
      in if useAnnot \<and> \<not> disableAnnot then
           \<lparr>ctxMode = ModeProvidedIP, ctxNodeIPCIDRPrefixes = [], ctxNodeExcludeIPPrefixes = [],
            ctxProvidedIP = annotIP, ctxLegacyExcludes = excludes, ctxNetwork = network\<rparr>
         else if nodeIPCIDRPrefixes \<noteq> [] then
           \<lparr>ctxMode = ModeNodeIPCIDR, ctxNodeIPCIDRPrefixes = nodeIPCIDRPrefixes,
            ctxNodeExcludeIPPrefixes = GetNodeExcludeIPPrefixes (Some cfg),
            ctxProvidedIP = [], ctxLegacyExcludes = [], ctxNetwork = network\<rparr>
         else
           \<lparr>ctxMode = ModeFallback, ctxNodeIPCIDRPrefixes = [], ctxNodeExcludeIPPrefixes = [],
            ctxProvidedIP = [], ctxLegacyExcludes = excludes, ctxNetwork = network\<rparr>)"

fun rawIPsLoop :: "vmi \<Rightarrow> string \<Rightarrow> vmi_interface list \<Rightarrow> go_error + string list" where
  "rawIPsLoop v targetNetwork [] =
     Inl (Errorf ''management network %q status not yet available for VMI %s/%s''
       [FQuote targetNetwork, FStr (vmiNamespace v), FStr (vmiName v)])"
| "rawIPsLoop v targetNetwork (iface # ifs) =
     (if ifName iface \<noteq> targetNetwork then rawIPsLoop v targetNetwork ifs
      else if ifIPs iface \<noteq> [] then Inr (ifIPs iface)
      else if ifIP iface \<noteq> [] then Inr [ifIP iface]
      else Inl (Errorf ''management network %q found but no IPs reported yet for VMI %s/%s''
        [FQuote targetNetwork, FStr (vmiNamespace v), FStr (vmiName v)]))"

definition getRawIPsFromVMINetwork :: "vmi \<Rightarrow> string \<Rightarrow> go_error + string list" where
  "getRawIPsFromVMINetwork v targetNetwork = rawIPsLoop v targetNetwork (vmiInterfaces v)"

definition mkCandidate :: "addr \<Rightarrow> NodeAddressType \<Rightarrow> candidate" where
  "mkCandidate a ty = \<lparr>candAddr = a, candNodeAddr = \<lparr>naType = ty, naAddress = addr_String a\<rparr>\<rparr>"

text \<open>The loops carry \<open>hasInternalIPv4\<close> and \<open>hasInternalIPv6\<close>.\<close>

fun providedIPLoop :: "string \<Rightarrow> bool \<Rightarrow> bool \<Rightarrow> addr list \<Rightarrow> candidate list" where
  "providedIPLoop providedIP has4 has6 [] = []"
| "providedIPLoop providedIP has4 has6 (a # as) =
     (let isV4 = Is4 a;
          needsInternal = (isV4 \<and> \<not> has4) \<or> (\<not> isV4 \<and> \<not> has6)
      in if needsInternal \<and> addr_String a = providedIP
         then mkCandidate a NodeInternalIP # providedIPLoop providedIP (has4 \<or> isV4) (has6 \<or> \<not> isV4) as
         else mkCandidate a NodeExternalIP # providedIPLoop providedIP has4 has6 as)"

definition categorizeByProvidedIP :: "addr list \<Rightarrow> string \<Rightarrow> candidate list" where
  "categorizeByProvidedIP addrs providedIP = providedIPLoop providedIP False False addrs"

fun cidrLoop :: "ip_prefix list \<Rightarrow> bool \<Rightarrow> bool \<Rightarrow> addr list \<Rightarrow> candidate list" where
  "cidrLoop pfxs has4 has6 [] = []"
| "cidrLoop pfxs has4 has6 (a # as) =
     (let isV4 = Is4 a;
          needsInternal = (isV4 \<and> \<not> has4) \<or> (\<not> isV4 \<and> \<not> has6)
      in if needsInternal \<and> list_ex (\<lambda>p. prefix_Contains p a) pfxs
         then mkCandidate a NodeInternalIP # cidrLoop pfxs (has4 \<or> isV4) (has6 \<or> \<not> isV4) as
         else mkCandidate a NodeExternalIP # cidrLoop pfxs has4 has6 as)"

definition categorizeByCIDR :: "addr list \<Rightarrow> ip_prefix list \<Rightarrow> candidate list" where
  "categorizeByCIDR addrs pfxs = cidrLoop pfxs False False addrs"

fun fallbackLoop :: "bool \<Rightarrow> bool \<Rightarrow> addr list \<Rightarrow> candidate list" where
  "fallbackLoop has4 has6 [] = []"
| "fallbackLoop has4 has6 (a # as) =
     (let isV4 = Is4 a
      in if (isV4 \<and> \<not> has4) \<or> (\<not> isV4 \<and> \<not> has6)
         then mkCandidate a NodeInternalIP # fallbackLoop (has4 \<or> isV4) (has6 \<or> \<not> isV4) as
         else mkCandidate a NodeExternalIP # fallbackLoop has4 has6 as)"

definition categorizeByFallback :: "addr list \<Rightarrow> candidate list" where
  "categorizeByFallback addrs = fallbackLoop False False addrs"

fun filterByCIDRPolicy :: "candidate list \<Rightarrow> ip_prefix list \<Rightarrow> candidate list" where
  "filterByCIDRPolicy [] pfxs = []"
| "filterByCIDRPolicy (ca # cas) pfxs =
     (if naType (candNodeAddr ca) = NodeInternalIP then ca # filterByCIDRPolicy cas pfxs
      else if list_ex (\<lambda>p. prefix_Contains p (candAddr ca)) pfxs then filterByCIDRPolicy cas pfxs
      else ca # filterByCIDRPolicy cas pfxs)"

fun excludeListLoop :: "string list \<Rightarrow> candidate list \<Rightarrow> candidate list" where
  "excludeListLoop excludes [] = []"
| "excludeListLoop excludes (ca # cas) =
     (if naType (candNodeAddr ca) = NodeExternalIP \<and> naAddress (candNodeAddr ca) \<in> set excludes
      then excludeListLoop excludes cas
      else ca # excludeListLoop excludes cas)"

definition filterByExcludeList :: "candidate list \<Rightarrow> string list \<Rightarrow> candidate list" where
  "filterByExcludeList addrs excludes = (if excludes = [] then addrs else excludeListLoop excludes addrs)"

definition resolveNodeIPs :: "addr list \<Rightarrow> address_context \<Rightarrow> candidate list" where
  "resolveNodeIPs ips ctx = (case ctxMode ctx of
     ModeProvidedIP \<Rightarrow> filterByExcludeList (categorizeByProvidedIP ips (ctxProvidedIP ctx)) (ctxLegacyExcludes ctx)
   | ModeNodeIPCIDR \<Rightarrow> filterByCIDRPolicy (categorizeByCIDR ips (ctxNodeIPCIDRPrefixes ctx)) (ctxNodeExcludeIPPrefixes ctx)
   | ModeFallback \<Rightarrow> filterByExcludeList (categorizeByFallback ips) (ctxLegacyExcludes ctx))"

definition hostNameAddress :: "node \<Rightarrow> node_address" where
  "hostNameAddress nd = \<lparr>naType = NodeHostName, naAddress = nodeName nd\<rparr>"

definition getNodeAddresses :: "node \<Rightarrow> vmi option \<Rightarrow> config \<Rightarrow> go_error + node_address list" where
  "getNodeAddresses nd vmi_opt cfg = (case vmi_opt of
     None \<Rightarrow> Inl (Errorf ''unable to fetch IPs from node %s as its VMI is nil'' [FStr (nodeName nd)])
   | Some v \<Rightarrow>
      (case getManagementNetworks v (Some cfg) of
         [] \<Rightarrow> Inr [hostNameAddress nd]
       | targetNetwork # _ \<Rightarrow>
           let ctx = buildIPAddressProcessContext nd targetNetwork cfg in
           (case getRawIPsFromVMINetwork v targetNetwork of
              Inl _ \<Rightarrow> Inr [hostNameAddress nd]
            | Inr rawIPStrings \<Rightarrow>
               (case ConvertAndFilterIPs rawIPStrings of
                  Inl _ \<Rightarrow> Inr [hostNameAddress nd]
                | Inr validIPs \<Rightarrow>
                    if validIPs = [] then Inr [hostNameAddress nd]
                    else let candidates = resolveNodeIPs validIPs ctx in
                      if candidates = [] then Inr [hostNameAddress nd]
                      else Inr (ToNodeAddresses candidates @ [hostNameAddress nd])))))"

section \<open>The contract of categorizing\<close>

text \<open>
  An address is internal exactly when it is wanted and no earlier wanted address is of the
  same family (IPv4 against the rest); the addresses and their order are kept.
\<close>

abbreviation is_internal :: "candidate \<Rightarrow> bool" where
  "is_internal ca \<equiv> naType (candNodeAddr ca) = NodeInternalIP"

definition first_wanted :: "(addr \<Rightarrow> bool) \<Rightarrow> addr list \<Rightarrow> addr \<Rightarrow> bool" where
  "first_wanted wants before a \<longleftrightarrow> wants a \<and> (\<forall>b\<in>set before. wants b \<longrightarrow> Is4 b \<noteq> Is4 a)"

locale categorizer =
  fixes cat :: "addr list \<Rightarrow> candidate list"
    and wants :: "addr \<Rightarrow> bool"
  assumes cat_app: "cat (as @ [a]) = cat as @ [mkCandidate a
      (if first_wanted wants as a then NodeInternalIP else NodeExternalIP)]"
    and cat_Nil: "cat [] = []"
begin

lemma cat_eq: "cat as = map (\<lambda>i. mkCandidate (as ! i)
    (if first_wanted wants (take i as) (as ! i) then NodeInternalIP else NodeExternalIP)) [0..<length as]"
  by (induction as rule: rev_induct) (simp_all add: cat_Nil cat_app nth_append)

lemma cat_addrs: "map candAddr (cat as) = as"
  by (induction as rule: rev_induct) (simp_all add: cat_Nil cat_app mkCandidate_def)

lemma cat_text: "ca \<in> set (cat as) \<Longrightarrow> naAddress (candNodeAddr ca) = addr_String (candAddr ca)"
  by (induction as rule: rev_induct) (auto simp: cat_Nil cat_app mkCandidate_def)

lemma cat_type: "ca \<in> set (cat as) \<Longrightarrow> naType (candNodeAddr ca) \<in> {NodeInternalIP, NodeExternalIP}"
  by (induction as rule: rev_induct) (auto simp: cat_Nil cat_app mkCandidate_def split: if_splits)

lemma cat_internal_wanted: "ca \<in> set (cat as) \<Longrightarrow> is_internal ca \<Longrightarrow> wants (candAddr ca)"
  by (induction as rule: rev_induct)
    (auto simp: cat_Nil cat_app mkCandidate_def first_wanted_def split: if_splits)

lemma cat_internal_addr:
  "(\<exists>ca\<in>set (cat as). is_internal ca \<and> Is4 (candAddr ca) = f) \<longleftrightarrow> (\<exists>a\<in>set as. wants a \<and> Is4 a = f)"
  by (induction as rule: rev_induct)
    (auto simp: cat_Nil cat_app mkCandidate_def first_wanted_def)

lemma cat_one_per_family:
  "length (filter (\<lambda>ca. is_internal ca \<and> Is4 (candAddr ca) = f) (cat as)) \<le> 1"
proof (induction as rule: rev_induct)
  case (snoc a as)
  show ?case
  proof (cases "first_wanted wants as a \<and> Is4 a = f")
    case True
    then have "\<not> (\<exists>b\<in>set as. wants b \<and> Is4 b = f)" by (auto simp: first_wanted_def)
    then have "filter (\<lambda>ca. is_internal ca \<and> Is4 (candAddr ca) = f) (cat as) = []"
      using cat_internal_addr [of as f] by (auto simp: filter_empty_conv)
    then show ?thesis by (simp add: cat_app)
  next
    case False
    then show ?thesis using snoc by (auto simp: cat_app mkCandidate_def)
  qed
qed (simp add: cat_Nil)

end

section \<open>The contract of filtering\<close>

text \<open>Internal candidates are protected; the others stay unless they are excluded.\<close>

locale candidate_filter =
  fixes flt :: "candidate list \<Rightarrow> candidate list"
    and excluded :: "candidate \<Rightarrow> bool"
  assumes flt_eq: "\<forall>ca\<in>set cas. naType (candNodeAddr ca) \<in> {NodeInternalIP, NodeExternalIP} \<Longrightarrow>
    flt cas = filter (\<lambda>ca. is_internal ca \<or> \<not> excluded ca) cas"

section \<open>Categorizing, then filtering\<close>

locale resolver = categorizer cat wants + candidate_filter flt excluded
  for cat wants flt excluded
begin

lemma resolve_eq: "flt (cat as) = filter (\<lambda>ca. is_internal ca \<or> \<not> excluded ca) (cat as)"
  using cat_type by (intro flt_eq) blast

lemma resolve_set: "ca \<in> set (flt (cat as)) \<Longrightarrow> ca \<in> set (cat as) \<and> (is_internal ca \<or> \<not> excluded ca)"
  by (simp add: resolve_eq)

lemma resolve_addrs: "subseq (map candAddr (flt (cat as))) as"
proof -
  have "subseq (map candAddr (flt (cat as))) (map candAddr (cat as))"
    unfolding resolve_eq by (intro subseq_map subseq_filter_left)
  then show ?thesis by (simp add: cat_addrs)
qed

lemma resolve_one_per_family:
  "length (filter (\<lambda>ca. is_internal ca \<and> Is4 (candAddr ca) = f) (flt (cat as))) \<le> 1"
proof -
  have "filter (\<lambda>ca. is_internal ca \<and> Is4 (candAddr ca) = f) (flt (cat as)) =
        filter (\<lambda>ca. is_internal ca \<and> Is4 (candAddr ca) = f) (cat as)"
    by (auto simp: resolve_eq intro: filter_cong)
  then show ?thesis using cat_one_per_family by simp
qed

lemma resolve_keeps_internal:
  "a \<in> set as \<Longrightarrow> wants a \<Longrightarrow> \<exists>ca\<in>set (flt (cat as)). is_internal ca \<and> Is4 (candAddr ca) = Is4 a"
  using cat_internal_addr [of as "Is4 a"] by (auto simp: resolve_eq)

lemma resolve_text: "ca \<in> set (flt (cat as)) \<Longrightarrow> candNodeAddr ca =
    \<lparr>naType = naType (candNodeAddr ca), naAddress = addr_String (candAddr ca)\<rparr>"
  using resolve_set cat_text by (metis node_address.surjective unit.exhaust)

lemma resolve_type: "ca \<in> set (flt (cat as)) \<Longrightarrow> naType (candNodeAddr ca) \<in> {NodeInternalIP, NodeExternalIP}"
  using resolve_set cat_type by blast

end

section \<open>The three categorizers and the two filters meet their contracts\<close>

definition family_taken :: "(addr \<Rightarrow> bool) \<Rightarrow> addr list \<Rightarrow> bool \<Rightarrow> bool" where
  "family_taken wants as f \<longleftrightarrow> (\<exists>b\<in>set as. wants b \<and> Is4 b = f)"

lemma family_taken_simps [simp]:
  "\<not> family_taken wants [] f"
  "family_taken wants (a # as) f \<longleftrightarrow> (wants a \<and> Is4 a = f) \<or> family_taken wants as f"
  by (auto simp: family_taken_def)

lemma providedIPLoop_app:
  "providedIPLoop p h4 h6 (as @ [a]) = providedIPLoop p h4 h6 as @ [mkCandidate a
     (if addr_String a = p \<and> \<not> (if Is4 a then h4 else h6) \<and> \<not> family_taken (\<lambda>b. addr_String b = p) as (Is4 a)
      then NodeInternalIP else NodeExternalIP)]"
  by (induction as arbitrary: h4 h6) (auto simp: Let_def)

lemma cidrLoop_app:
  "cidrLoop ps h4 h6 (as @ [a]) = cidrLoop ps h4 h6 as @ [mkCandidate a
     (if list_ex (\<lambda>p. prefix_Contains p a) ps \<and> \<not> (if Is4 a then h4 else h6)
         \<and> \<not> family_taken (\<lambda>b. list_ex (\<lambda>p. prefix_Contains p b) ps) as (Is4 a)
      then NodeInternalIP else NodeExternalIP)]"
  by (induction as arbitrary: h4 h6) (auto simp: Let_def)

lemma fallbackLoop_app:
  "fallbackLoop h4 h6 (as @ [a]) = fallbackLoop h4 h6 as @ [mkCandidate a
     (if \<not> (if Is4 a then h4 else h6) \<and> \<not> family_taken (\<lambda>b. True) as (Is4 a)
      then NodeInternalIP else NodeExternalIP)]"
  by (induction as arbitrary: h4 h6) (auto simp: Let_def)

lemma filterByCIDRPolicy_eq:
  "filterByCIDRPolicy cas ps =
   filter (\<lambda>ca. is_internal ca \<or> \<not> list_ex (\<lambda>p. prefix_Contains p (candAddr ca)) ps) cas"
  by (induction cas) auto

lemma filterByExcludeList_eq:
  "\<forall>ca\<in>set cas. naType (candNodeAddr ca) \<in> {NodeInternalIP, NodeExternalIP} \<Longrightarrow>
   filterByExcludeList cas xs =
   filter (\<lambda>ca. is_internal ca \<or> naAddress (candNodeAddr ca) \<notin> set xs) cas"
proof -
  assume h: "\<forall>ca\<in>set cas. naType (candNodeAddr ca) \<in> {NodeInternalIP, NodeExternalIP}"
  then have "excludeListLoop xs cas = filter (\<lambda>ca. is_internal ca \<or> naAddress (candNodeAddr ca) \<notin> set xs) cas"
    by (induction cas) auto
  then show ?thesis by (simp add: filterByExcludeList_def)
qed

interpretation provided: resolver "\<lambda>as. categorizeByProvidedIP as p" "\<lambda>a. addr_String a = p"
    "\<lambda>cas. filterByExcludeList cas xs" "\<lambda>ca. naAddress (candNodeAddr ca) \<in> set xs" for p xs
  by unfold_locales
    (auto simp: categorizeByProvidedIP_def providedIPLoop_app first_wanted_def family_taken_def
      filterByExcludeList_eq)

interpretation cidr: resolver "\<lambda>as. categorizeByCIDR as ps" "\<lambda>a. list_ex (\<lambda>p. prefix_Contains p a) ps"
    "\<lambda>cas. filterByCIDRPolicy cas xs" "\<lambda>ca. list_ex (\<lambda>p. prefix_Contains p (candAddr ca)) xs" for ps xs
  by unfold_locales
    (auto simp: categorizeByCIDR_def cidrLoop_app first_wanted_def family_taken_def
      filterByCIDRPolicy_eq)

interpretation fallback: resolver categorizeByFallback "\<lambda>a. True"
    "\<lambda>cas. filterByExcludeList cas xs" "\<lambda>ca. naAddress (candNodeAddr ca) \<in> set xs" for xs
  by unfold_locales
    (auto simp: categorizeByFallback_def fallbackLoop_app first_wanted_def family_taken_def
      filterByExcludeList_eq)

section \<open>The policy the three modes implement\<close>

text \<open>
  Each mode is a pair of predicates: which addresses it wants as internal ones, and which
  external ones it drops.  \<open>policy_addresses\<close> says, position by position, what is
  reported; it is the specification of \<open>resolveNodeIPs\<close>.
\<close>

definition wanted :: "address_context \<Rightarrow> addr \<Rightarrow> bool" where
  "wanted ctx a = (case ctxMode ctx of
     ModeProvidedIP \<Rightarrow> addr_String a = ctxProvidedIP ctx
   | ModeNodeIPCIDR \<Rightarrow> list_ex (\<lambda>p. prefix_Contains p a) (ctxNodeIPCIDRPrefixes ctx)
   | ModeFallback \<Rightarrow> True)"

definition dropped :: "address_context \<Rightarrow> addr \<Rightarrow> bool" where
  "dropped ctx a = (case ctxMode ctx of
     ModeNodeIPCIDR \<Rightarrow> list_ex (\<lambda>p. prefix_Contains p a) (ctxNodeExcludeIPPrefixes ctx)
   | _ \<Rightarrow> addr_String a \<in> set (ctxLegacyExcludes ctx))"

definition policy_type :: "(addr \<Rightarrow> bool) \<Rightarrow> addr list \<Rightarrow> nat \<Rightarrow> NodeAddressType" where
  "policy_type wants xs i =
     (if wants (xs ! i) \<and> (\<forall>j<i. wants (xs ! j) \<longrightarrow> Is4 (xs ! j) \<noteq> Is4 (xs ! i))
      then NodeInternalIP else NodeExternalIP)"

definition policy_addresses :: "(addr \<Rightarrow> bool) \<Rightarrow> (addr \<Rightarrow> bool) \<Rightarrow> addr list \<Rightarrow> node_address list" where
  "policy_addresses wants drops xs =
     map (\<lambda>i. \<lparr>naType = policy_type wants xs i, naAddress = addr_String (xs ! i)\<rparr>)
       (filter (\<lambda>i. policy_type wants xs i = NodeInternalIP \<or> \<not> drops (xs ! i)) [0..<length xs])"

lemma first_wanted_policy:
  "i < length xs \<Longrightarrow>
   (if first_wanted wants (take i xs) (xs ! i) then NodeInternalIP else NodeExternalIP) = policy_type wants xs i"
  by (auto simp: first_wanted_def policy_type_def simp flip: nth_image)

context resolver
begin

lemma resolve_policy:
  assumes "\<And>ca. ca \<in> set (cat xs) \<Longrightarrow> excluded ca = drops (candAddr ca)"
  shows "map candNodeAddr (flt (cat xs)) = policy_addresses wants drops xs"
proof -
  let ?mk = "\<lambda>i. mkCandidate (xs ! i) (policy_type wants xs i)"
  have cat: "cat xs = map ?mk [0..<length xs]"
    unfolding cat_eq by (rule map_cong) (simp_all add: first_wanted_policy)
  have "flt (cat xs) = filter (\<lambda>ca. is_internal ca \<or> \<not> drops (candAddr ca)) (cat xs)"
    unfolding resolve_eq by (rule filter_cong) (simp_all add: assms)
  then show ?thesis by (simp add: cat policy_addresses_def filter_map o_def mkCandidate_def)
qed

end

lemma resolve_policy_all:
  "ToNodeAddresses (resolveNodeIPs ips ctx) = policy_addresses (wanted ctx) (dropped ctx) ips"
proof (cases "ctxMode ctx")
  case ModeProvidedIP
  then show ?thesis
    using provided.resolve_policy [of ips "ctxProvidedIP ctx" "ctxLegacyExcludes ctx" "dropped ctx"]
    by (simp add: provided.cat_text resolveNodeIPs_def ToNodeAddresses_def wanted_def [abs_def] dropped_def)
next
  case ModeNodeIPCIDR
  then show ?thesis
    using cidr.resolve_policy [of ips "ctxNodeIPCIDRPrefixes ctx" "ctxNodeExcludeIPPrefixes ctx" "dropped ctx"]
    by (simp add: resolveNodeIPs_def ToNodeAddresses_def wanted_def [abs_def] dropped_def)
next
  case ModeFallback
  then show ?thesis
    using fallback.resolve_policy [of ips "ctxLegacyExcludes ctx" "dropped ctx"]
    by (simp add: fallback.cat_text resolveNodeIPs_def ToNodeAddresses_def wanted_def [abs_def] dropped_def)
qed

end
