(* ===== verification/NodeAddresses_Facts.thy ===== *)
theory NodeAddresses_Facts
  imports NodeAddresses
begin

text \<open>
  What a node gets from \<open>getNodeAddresses\<close>.  The lemmas read the whole function as one of
  two outcomes, the host name alone or the addresses of the policy followed by the host
  name; the properties follow from the policy.
\<close>

section \<open>Outcomes\<close>

definition usable_addrs :: "string list \<Rightarrow> addr list" where
  "usable_addrs raw = filter (\<lambda>a. \<not> isInternalOnly a) (map (\<lambda>s. the (ParseAddr s)) raw)"

lemma ConvertAndFilterIPs_all:
  "\<forall>s\<in>set raw. ParseAddr s \<noteq> None \<Longrightarrow> ConvertAndFilterIPs raw = Inr (usable_addrs raw)"
  by (induction raw) (auto simp: usable_addrs_def)

lemma ConvertAndFilterIPs_Inr:
  "ConvertAndFilterIPs raw = Inr ips \<Longrightarrow> \<forall>s\<in>set raw. ParseAddr s \<noteq> None"
  by (induction raw arbitrary: ips) (auto split: option.splits sum.splits)

lemma ConvertAndFilterIPs_spec:
  "ConvertAndFilterIPs raw = Inr ips \<longleftrightarrow>
   (\<forall>s\<in>set raw. ParseAddr s \<noteq> None) \<and> ips = usable_addrs raw"
  using ConvertAndFilterIPs_all [of raw] ConvertAndFilterIPs_Inr [of raw ips] by auto

lemma usable_addrs_set:
  "\<forall>s\<in>set raw. ParseAddr s \<noteq> None \<Longrightarrow> a \<in> set (usable_addrs raw) \<longleftrightarrow>
   (\<exists>s\<in>set raw. ParseAddr s = Some a) \<and> \<not> isInternalOnly a"
  by (force simp: usable_addrs_def)

lemma rawIPsLoop_Inr:
  "rawIPsLoop v net ifs = Inr raw \<Longrightarrow>
   \<exists>ifc\<in>set ifs. ifName ifc = net \<and> set raw \<subseteq> insert (ifIP ifc) (set (ifIPs ifc))"
  by (induction v net ifs rule: rawIPsLoop.induct) (auto split: if_splits)

lemma policy_addresses_Nil [simp]: "policy_addresses w d [] = []"
  by (simp add: policy_addresses_def)

lemma policy_addresses_mem:
  assumes "a \<in> set (policy_addresses w d xs)"
  obtains x where "x \<in> set xs" "naAddress a = addr_String x"
    "naType a = NodeInternalIP \<and> w x \<or> naType a = NodeExternalIP \<and> \<not> d x"
proof -
  obtain i where "i < length xs" "a = \<lparr>naType = policy_type w xs i, naAddress = addr_String (xs ! i)\<rparr>"
    "policy_type w xs i = NodeInternalIP \<or> \<not> d (xs ! i)"
    using assms by (auto simp: policy_addresses_def)
  then show thesis using that [of "xs ! i"] by (auto simp: policy_type_def split: if_splits)
qed

lemma getNodeAddresses_None [simp]: "getNodeAddresses nd None cfg =
   Inl (Errorf ''unable to fetch IPs from node %s as its VMI is nil'' [FStr (nodeName nd)])"
  by (simp add: getNodeAddresses_def)

text \<open>The addresses the source has to work with: \<^term>\<open>None\<close> when it falls back to the host name.\<close>

definition vmi_addrs :: "vmi \<Rightarrow> config \<Rightarrow> addr list option" where
  "vmi_addrs v cfg = (case getManagementNetworks v (Some cfg) of
     [] \<Rightarrow> None
   | net # _ \<Rightarrow> (case getRawIPsFromVMINetwork v net of
       Inl _ \<Rightarrow> None
     | Inr raw \<Rightarrow> if \<forall>s\<in>set raw. ParseAddr s \<noteq> None then Some (usable_addrs raw) else None))"

definition node_ctx :: "node \<Rightarrow> vmi \<Rightarrow> config \<Rightarrow> address_context" where
  "node_ctx nd v cfg = buildIPAddressProcessContext nd (hd (getManagementNetworks v (Some cfg))) cfg"

lemma getNodeAddresses_Some:
  "getNodeAddresses nd (Some v) cfg = Inr ((case vmi_addrs v cfg of
     None \<Rightarrow> []
   | Some xs \<Rightarrow> policy_addresses (wanted (node_ctx nd v cfg)) (dropped (node_ctx nd v cfg)) xs)
   @ [hostNameAddress nd])"
proof (cases "getManagementNetworks v (Some cfg)")
  case Nil
  then show ?thesis by (simp add: getNodeAddresses_def vmi_addrs_def)
next
  case (Cons net nets)
  let ?ctx = "buildIPAddressProcessContext nd net cfg"
  have ctx: "node_ctx nd v cfg = ?ctx" using Cons by (simp add: node_ctx_def)
  show ?thesis
  proof (cases "getRawIPsFromVMINetwork v net")
    case (Inl e)
    with Cons show ?thesis by (simp add: getNodeAddresses_def vmi_addrs_def Let_def)
  next
    case (Inr raw)
    show ?thesis
    proof (cases "ConvertAndFilterIPs raw")
      case Inl': (Inl e)
      then have "\<not> (\<forall>s\<in>set raw. ParseAddr s \<noteq> None)"
        using ConvertAndFilterIPs_spec [of raw "usable_addrs raw"] by auto
      with Inl' Cons Inr show ?thesis by (auto simp: getNodeAddresses_def vmi_addrs_def Let_def)
    next
      case Inr': (Inr ips)
      then have *: "\<forall>s\<in>set raw. ParseAddr s \<noteq> None" "ips = usable_addrs raw"
        by (simp_all add: ConvertAndFilterIPs_spec)
      have "ToNodeAddresses (resolveNodeIPs ips ?ctx) = [] \<longleftrightarrow> resolveNodeIPs ips ?ctx = []"
        by (simp add: ToNodeAddresses_def)
      with * Inr' Cons Inr show ?thesis
        by (auto simp: getNodeAddresses_def vmi_addrs_def ctx Let_def resolve_policy_all)
    qed
  qed
qed

lemma vmi_addrs_source:
  assumes "vmi_addrs v cfg = Some xs" "x \<in> set xs"
  shows "\<not> isInternalOnly x \<and> (\<exists>net nets ifc s. getManagementNetworks v (Some cfg) = net # nets \<and>
    ifc \<in> set (vmiInterfaces v) \<and> ifName ifc = net \<and> s \<in> insert (ifIP ifc) (set (ifIPs ifc)) \<and>
    ParseAddr s = Some x)"
proof -
  obtain net nets raw where net: "getManagementNetworks v (Some cfg) = net # nets"
    and raw: "getRawIPsFromVMINetwork v net = Inr raw"
    and ok: "\<forall>s\<in>set raw. ParseAddr s \<noteq> None" and xs: "xs = usable_addrs raw"
    using assms(1) by (auto simp: vmi_addrs_def split: list.splits sum.splits if_splits)
  obtain s where "s \<in> set raw" "ParseAddr s = Some x" "\<not> isInternalOnly x"
    using assms(2) ok xs usable_addrs_set [OF ok] by auto
  moreover obtain ifc where "ifc \<in> set (vmiInterfaces v)" "ifName ifc = net"
      "set raw \<subseteq> insert (ifIP ifc) (set (ifIPs ifc))"
    using raw rawIPsLoop_Inr unfolding getRawIPsFromVMINetwork_def by metis
  ultimately show ?thesis using net by blast
qed

lemma vmi_addrs_valid: "vmi_addrs v cfg = Some xs \<Longrightarrow> x \<in> set xs \<Longrightarrow> IsValid x"
  using vmi_addrs_source by (auto simp: isInternalOnly_def)

lemma node_address_source:
  assumes "getNodeAddresses nd (Some v) cfg = Inr as" "a \<in> set as" "naType a \<noteq> NodeHostName"
  obtains xs x where "vmi_addrs v cfg = Some xs" "x \<in> set xs" "ParseAddr (naAddress a) = Some x"
    "naType a = NodeInternalIP \<and> wanted (node_ctx nd v cfg) x
     \<or> naType a = NodeExternalIP \<and> \<not> dropped (node_ctx nd v cfg) x"
proof -
  have "a \<noteq> hostNameAddress nd" using assms(3) by (auto simp: hostNameAddress_def)
  then obtain xs where xs: "vmi_addrs v cfg = Some xs"
    and mem: "a \<in> set (policy_addresses (wanted (node_ctx nd v cfg)) (dropped (node_ctx nd v cfg)) xs)"
    using assms(1,2) by (auto simp: getNodeAddresses_Some split: option.splits)
  from mem obtain x where "x \<in> set xs" "naAddress a = addr_String x"
    "naType a = NodeInternalIP \<and> wanted (node_ctx nd v cfg) x
     \<or> naType a = NodeExternalIP \<and> \<not> dropped (node_ctx nd v cfg) x"
    by (rule policy_addresses_mem)
  moreover from this have "ParseAddr (naAddress a) = Some x"
    using vmi_addrs_valid [OF xs] by (simp add: ParseAddr_String)
  ultimately show thesis by (intro that [OF xs])
qed

lemma policy_type_internal: "policy_type w xs i = NodeInternalIP \<longleftrightarrow>
    w (xs ! i) \<and> (\<forall>j<i. w (xs ! j) \<longrightarrow> Is4 (xs ! j) \<noteq> Is4 (xs ! i))"
  unfolding policy_type_def by (simp only: NodeAddressType.distinct simp_thms split: if_split)

lemma policy_type_one:
  assumes "i < j" "policy_type w xs i = NodeInternalIP" "policy_type w xs j = NodeInternalIP"
  shows "Is4 (xs ! i) \<noteq> Is4 (xs ! j)"
  using assms unfolding policy_type_internal by blast

lemma length_filter_le_1:
  assumes "\<And>i j. i < j \<Longrightarrow> j < length xs \<Longrightarrow> P (xs ! i) \<Longrightarrow> P (xs ! j) \<Longrightarrow> False"
  shows "length (filter P xs) \<le> 1"
proof -
  have "a = b" if "a < length xs" "P (xs ! a)" "b < length xs" "P (xs ! b)" for a b
    using assms [of a b] assms [of b a] that by (cases a b rule: linorder_cases) auto
  then have "card {i. i < length xs \<and> P (xs ! i)} \<le> Suc 0"
    by (subst card_le_Suc0_iff_eq) auto
  then show ?thesis by (simp add: length_filter_conv_card)
qed

definition internal_of :: "bool \<Rightarrow> node_address \<Rightarrow> bool" where
  "internal_of f a \<longleftrightarrow> naType a = NodeInternalIP \<and> map_option Is4 (ParseAddr (naAddress a)) = Some f"

lemma filter_subset_length: "length (filter P (map f (filter Q xs))) \<le> length (filter (\<lambda>x. P (f x)) xs)"
  by (induction xs) auto

lemma policy_one_per_family:
  assumes "\<forall>x\<in>set xs. IsValid x"
  shows "length (filter (internal_of f) (policy_addresses w d xs)) \<le> 1"
proof -
  let ?P = "\<lambda>i. policy_type w xs i = NodeInternalIP \<and> Is4 (xs ! i) = f"
  let ?mk = "\<lambda>i. \<lparr>naType = policy_type w xs i, naAddress = addr_String (xs ! i)\<rparr>"
  have "filter (\<lambda>i. internal_of f (?mk i)) [0..<length xs] = filter ?P [0..<length xs]"
    using assms by (intro filter_cong) (auto simp: internal_of_def ParseAddr_String)
  moreover have "length (filter ?P [0..<length xs]) \<le> 1"
    by (rule length_filter_le_1) (auto dest!: policy_type_one)
  ultimately show ?thesis
    unfolding policy_addresses_def by (intro le_trans [OF filter_subset_length]) simp
qed

lemma cidr_mode_ctx:
  assumes "cfgDisableAnnotationAlphaProvidedIPAddr cfg \<or> mlookup (nodeAnnotations nd) AnnotationAlphaProvidedIPAddr = None"
    and "internalNodeIPCIDRPrefixes cfg \<noteq> []"
  shows "wanted (node_ctx nd v cfg) = (\<lambda>x. \<exists>p\<in>set (internalNodeIPCIDRPrefixes cfg). prefix_Contains p x)"
    "dropped (node_ctx nd v cfg) = (\<lambda>x. \<exists>p\<in>set (internalNodeExcludeIPPrefixes cfg). prefix_Contains p x)"
  using assms by (auto simp: fun_eq_iff wanted_def dropped_def node_ctx_def buildIPAddressProcessContext_def
      getLegacyModeRelatedParams_def GetNodeIPCIDRPrefixes_def GetNodeExcludeIPPrefixes_def list_ex_iff
      Let_def)

section \<open>A node to try the properties on\<close>

definition demo_vmi :: "string list \<Rightarrow> vmi" where
  "demo_vmi ips = \<lparr>vmiNamespace = ''default'', vmiName = ''vm1'', vmiAnnotations = None, vmiLabels = None,
     vmiDeleted = False, vmiNetworks = [\<lparr>netName = ''nic-0'', netMultus = Some ''default/mgmt''\<rparr>],
     vmiPhase = ''Running'',
     vmiInterfaces = [\<lparr>ifName = ''nic-0'', ifIP = [], ifIPs = ips, ifInterfaceName = ''enp1s0''\<rparr>],
     vmiMigration = None\<rparr>"

definition demo_node :: node where
  "demo_node = \<lparr>nodeName = ''node1'', nodeAnnotations = None, nodeLabels = None, nodeTaints = []\<rparr>"

section \<open>Properties\<close>

text \<open>\<open>getNodeAddresses\<close> fails exactly when there is no VMI; otherwise the list ends
  with the host name of the node, and every entry before it is an internal or external IP.\<close>

lemma node_addresses_shape:
  "case getNodeAddresses nd vo cfg of
     Inl _ \<Rightarrow> vo = None
   | Inr as \<Rightarrow> vo \<noteq> None \<and> as \<noteq> [] \<and> last as = hostNameAddress nd \<and>
       list_all (\<lambda>a. naType a = NodeInternalIP \<or> naType a = NodeExternalIP) (butlast as)"
proof (cases vo)
  case (Some v)
  have "naType a = NodeInternalIP \<or> naType a = NodeExternalIP"
    if "a \<in> set (policy_addresses w d xs)" for a w d xs
    using that by (rule policy_addresses_mem) blast
  with Some show ?thesis
    by (auto simp: getNodeAddresses_Some list_all_iff butlast_append split: option.splits)
qed simp

text \<open>Every IP a node reports parses, is usable outside the node (not loopback, link-local,
  multicast, unspecified or broadcast), and is an address that the VMI reports for an
  interface on the first management network.\<close>

lemma node_addresses_sound:
  assumes "getNodeAddresses nd (Some v) cfg = Inr as" "a \<in> set as" "naType a \<noteq> NodeHostName"
  shows "\<exists>x. ParseAddr (naAddress a) = Some x \<and> \<not> isInternalOnly x \<and>
    (\<exists>net nets ifc s. getManagementNetworks v (Some cfg) = net # nets \<and> ifc \<in> set (vmiInterfaces v) \<and>
       ifName ifc = net \<and> s \<in> insert (ifIP ifc) (set (ifIPs ifc)) \<and> ParseAddr s = Some x)"
  using assms by (rule node_address_source) (use vmi_addrs_source in blast)

lemma demo_addresses:
  "getNodeAddresses demo_node (Some (demo_vmi [''192.168.1.10'', ''127.0.0.1'', ''192.168.1.11''])) zero_config =
   Inr [\<lparr>naType = NodeInternalIP, naAddress = ''192.168.1.10''\<rparr>, \<lparr>naType = NodeExternalIP, naAddress = ''192.168.1.11''\<rparr>,
        \<lparr>naType = NodeHostName, naAddress = ''node1''\<rparr>]"
  by code_simp

text \<open>At most one internal IPv4 address and at most one internal IPv6 address are reported,
  in every mode.\<close>

lemma node_one_internal_per_family:
  assumes "getNodeAddresses nd (Some v) cfg = Inr as"
  shows "length (filter (\<lambda>a. naType a = NodeInternalIP \<and>
           map_option Is4 (ParseAddr (naAddress a)) = Some isV4) as) \<le> 1"
proof -
  have "\<not> internal_of isV4 (hostNameAddress nd)" by (simp add: internal_of_def hostNameAddress_def)
  then have "length (filter (internal_of isV4) as) \<le> 1"
    using assms policy_one_per_family vmi_addrs_valid
    by (auto simp: getNodeAddresses_Some split: option.splits)
  then show ?thesis by (simp add: internal_of_def [abs_def])
qed

text \<open>C37: The list of a node's addresses is well formed, in every mode: \<open>getNodeAddresses\<close> fails only without a VMI;
  otherwise the list ends with the host name of the node; every other entry is an internal or
  external IP that parses, is usable outside the node (not loopback, link-local, multicast, unspecified
  or broadcast) and is reported by the VMI for an interface on the first management network; and at most one
  internal address of each family is listed.\<close>

theorem node_addresses_wellformed:
  "case getNodeAddresses nd vo cfg of
     Inl _ \<Rightarrow> vo = None
   | Inr as \<Rightarrow> \<exists>v bs. vo = Some v \<and> as = bs @ [hostNameAddress nd] \<and>
       (\<forall>a\<in>set bs. naType a \<in> {NodeInternalIP, NodeExternalIP} \<and>
          (\<exists>x net nets ifc s. ParseAddr (naAddress a) = Some x \<and> \<not> isInternalOnly x \<and>
             getManagementNetworks v (Some cfg) = net # nets \<and> ifc \<in> set (vmiInterfaces v) \<and>
             ifName ifc = net \<and> s \<in> insert (ifIP ifc) (set (ifIPs ifc)) \<and> ParseAddr s = Some x)) \<and>
       (\<forall>isV4. length (filter (\<lambda>a. naType a = NodeInternalIP \<and>
          map_option Is4 (ParseAddr (naAddress a)) = Some isV4) as) \<le> 1)"
proof (cases "getNodeAddresses nd vo cfg")
  case (Inl err)
  then show ?thesis using node_addresses_shape [of vo nd cfg] by simp
next
  case (Inr as)
  then obtain v where v: "vo = Some v" and as: "as \<noteq> []" "last as = hostNameAddress nd"
    and ip: "list_all (\<lambda>a. naType a = NodeInternalIP \<or> naType a = NodeExternalIP) (butlast as)"
    using node_addresses_shape [of vo nd cfg] by auto
  have "naType a \<noteq> NodeHostName" if "a \<in> set (butlast as)" for a using ip that by (auto simp: list_all_iff)
  note sound = node_addresses_sound [OF Inr [unfolded v] in_set_butlastD this]
  have "as = butlast as @ [hostNameAddress nd]" using as by (metis append_butlast_last_id)
  then show ?thesis
    unfolding Inr sum.case
    using v ip sound node_one_internal_per_family [OF Inr [unfolded v]]
    by (intro exI [of _ v] exI [of _ "butlast as"] conjI) (simp_all add: list_all_iff)
qed

theorem node_addresses_wellformed_witness:
  "\<exists>x. ParseAddr ''192.168.1.10'' = Some x \<and> \<not> isInternalOnly x"
  using node_addresses_wellformed [of "Some (demo_vmi [''192.168.1.10'', ''127.0.0.1'', ''192.168.1.11''])" demo_node zero_config]
  unfolding demo_addresses by auto

text \<open>C10: \<open>resolveNodeIPs\<close> implements the addressing policy in all three modes: position by
  position, an address is internal if the mode wants it and no earlier wanted address has its
  family, external otherwise; only external addresses that the mode excludes are left out, and
  the order is kept.\<close>

theorem resolveNodeIPs_refines_policy:
  "ToNodeAddresses (resolveNodeIPs ips ctx) = policy_addresses (wanted ctx) (dropped ctx) ips"
  by (rule resolve_policy_all)

text \<open>A single malformed address among those the VMI reports makes the node fall back to its
  host name: no address of that interface is reported.\<close>

lemma malformed_ip_hostname_only:
  assumes "getManagementNetworks v (Some cfg) = net # nets" "getRawIPsFromVMINetwork v net = Inr raw"
    and "s \<in> set raw" "ParseAddr s = None"
  shows "getNodeAddresses nd (Some v) cfg = Inr [hostNameAddress nd]"
proof -
  have "\<not> (\<forall>t\<in>set raw. ParseAddr t \<noteq> None)" using assms(3,4) by blast
  then have "vmi_addrs v cfg = None" unfolding vmi_addrs_def by (simp only: assms(1,2) list.case sum.case if_False)
  then show ?thesis by (simp add: getNodeAddresses_Some)
qed

text \<open>The provided-node-ip annotation has priority over the CIDR flags unless it is disabled:
  with it, every internal address is written exactly like its value, whatever the CIDR
  prefixes are.\<close>

lemma provided_ip_priority:
  assumes "\<not> cfgDisableAnnotationAlphaProvidedIPAddr cfg"
    and "mlookup (nodeAnnotations nd) AnnotationAlphaProvidedIPAddr = Some ip"
    and "getNodeAddresses nd (Some v) cfg = Inr as" "a \<in> set as" "naType a = NodeInternalIP"
  shows "naAddress a = ip"
proof -
  have "wanted (node_ctx nd v cfg) = (\<lambda>x. addr_String x = ip)"
    using assms(1,2) by (auto simp: fun_eq_iff wanted_def node_ctx_def buildIPAddressProcessContext_def
        getLegacyModeRelatedParams_def Let_def)
  moreover have "a \<noteq> hostNameAddress nd" using assms(5) by (auto simp: hostNameAddress_def)
  ultimately obtain xs where
    "a \<in> set (policy_addresses (\<lambda>x. addr_String x = ip) (dropped (node_ctx nd v cfg)) xs)"
    using assms(3,4) by (auto simp: getNodeAddresses_Some split: option.splits)
  then show ?thesis using assms(5) by (auto elim: policy_addresses_mem)
qed

end
