(* ===== verification/Instances.thy ===== *)
theory Instances
  imports NodeAddresses_Facts Traces
begin

text \<open>
  The instance manager, \<open>pkg/cloud-controller-manager/instance.go\<close>: whether the virtual
  machine of a node exists, whether it is shut down, and the metadata of a node.  The map from
  node names to VM names is shared with the VMI controller; a load reads the last store of the
  history.
\<close>

section \<open>Definitions\<close>

record instance_manager =
  imClients :: env
  imNamespace :: string
  imConfig :: config

definition ProviderName :: string where "ProviderName = ''harvester''"
definition LabelTopologyZone :: string where "LabelTopologyZone = ''topology.kubernetes.io/zone''"
definition LabelTopologyRegion :: string where "LabelTopologyRegion = ''topology.kubernetes.io/region''"

record instance_metadata =
  mdProviderID :: string
  mdNodeAddresses :: "node_address list"
  mdZone :: string
  mdRegion :: string

definition getVM :: "instance_manager \<Rightarrow> node \<Rightarrow> vm resp io" where
  "getVM i nd = do {
     vmName \<leftarrow> loadVMName (nodeName nd);
     vmGet (imClients i) (imNamespace i) (case vmName of Some n \<Rightarrow> n | None \<Rightarrow> nodeName nd)
   }"

definition InstanceExists :: "instance_manager \<Rightarrow> node \<Rightarrow> (bool \<times> go_error option) io" where
  "InstanceExists i nd = do {
     r \<leftarrow> getVM i nd;
     ret (case r of
        Fail err _ \<Rightarrow> if \<not> IsNotFound err then (False, Some err) else (False, None)
      | Ok _ \<Rightarrow> (True, None))
   }"

definition InstanceShutdown :: "instance_manager \<Rightarrow> node \<Rightarrow> (bool \<times> go_error option) io" where
  "InstanceShutdown i nd = do {
     r \<leftarrow> getVM i nd;
     ret (case r of Fail err _ \<Rightarrow> (False, Some err) | Ok v \<Rightarrow> (\<not> vmReady v, None))
   }"

definition InstanceMetadata ::
  "instance_manager \<Rightarrow> node \<Rightarrow> (instance_metadata option \<times> go_error option) io" where
  "InstanceMetadata i nd = do {
     r \<leftarrow> getVM i nd;
     (case r of
        Fail err _ \<Rightarrow> ret (None, Some err)
      | Ok v \<Rightarrow> do {
          let meta = \<lparr>mdProviderID = ProviderName @ ''://'' @ vmUID v, mdNodeAddresses = [], mdZone = [], mdRegion = []\<rparr>;
          q \<leftarrow> vmiGet (imClients i) (imNamespace i) (vmName v);
          ret (case q of
             Fail err _ \<Rightarrow> if IsNotFound err then (Some meta, None) else (None, Some err)
           | Ok vi \<Rightarrow>
               let annotations = vmiAnnotations vi;
                   meta1 = (case mlookup annotations LabelTopologyRegion of
                              Some region \<Rightarrow> meta\<lparr>mdRegion := region\<rparr> | None \<Rightarrow> meta);
                   meta2 = (case mlookup annotations LabelTopologyZone of
                              Some zone \<Rightarrow> meta1\<lparr>mdZone := zone\<rparr> | None \<Rightarrow> meta1)
               in (case getNodeAddresses nd (Some vi) (imConfig i) of
                     Inl err \<Rightarrow> (None, Some err)
                   | Inr addrs \<Rightarrow> (Some (meta2\<lparr>mdNodeAddresses := addrs\<rparr>), None)))
        })
   }"

section \<open>Facts\<close>

definition vm_of_node :: "history \<Rightarrow> node \<Rightarrow> string" where
  "vm_of_node h nd = (case vm_names h (nodeName nd) of Some n \<Rightarrow> n | None \<Rightarrow> nodeName nd)"

abbreviation vm_answer :: "instance_manager \<Rightarrow> history \<Rightarrow> node \<Rightarrow> vm resp" where
  "vm_answer i h nd \<equiv> envVmGet (imClients i) h (imNamespace i) (vm_of_node h nd)"

lemma vm_names_store: "vm_names h k = Some n \<Longrightarrow> StoreVMName k n \<in> set h"
proof (induction h)
  case (Cons e h)
  then show ?case by (cases e) (auto split: option.splits if_splits)
qed simp

text \<open>Without a store, the machine of a node stays the same.\<close>

lemma vm_of_node_append: "\<forall>k n. StoreVMName k n \<notin> set t \<Longrightarrow> vm_of_node (h @ t) nd = vm_of_node h nd"
  using vm_names_store [of t "nodeName nd"] by (auto simp: vm_of_node_def vm_names_append split: option.split)

lemma getVM_simps [simp]:
  "appends (getVM i nd)"
  "result_of (getVM i nd) h = vm_answer i h nd"
  "trace_of (getVM i nd) h = [VmGet (imNamespace i) (vm_of_node h nd) (vm_answer i h nd)]"
  by (simp_all add: getVM_def vm_of_node_def)

section \<open>Properties\<close>

text \<open>A node exists for the cloud provider exactly when its virtual machine is found; a missing
  virtual machine is an answer and not an error, any other failure is an error.  The machine
  is the one the VMI controller recorded for the node name, or the one named like the node.\<close>

lemma InstanceExists_spec:
  "result_of (InstanceExists i nd) h =
     (case envVmGet (imClients i) h (imNamespace i) (vm_of_node h nd) of
        Ok _ \<Rightarrow> (True, None)
      | Fail e _ \<Rightarrow> (False, if IsNotFound e then None else Some e)) \<and>
   vm_of_node h nd = (case vm_names h (nodeName nd) of Some n \<Rightarrow> n | None \<Rightarrow> nodeName nd)"
  by (simp add: InstanceExists_def vm_of_node_def split: resp.split)

text \<open>The metadata of a node whose virtual machine and instance are found: the provider id is
  made of the provider name and the UID of the machine, zone and region are the topology
  annotations of the instance, and the addresses are those of \<open>getNodeAddresses\<close>; in
  particular there is no error, and the last address is the host name.\<close>

lemma InstanceMetadata_found:
  assumes "envVmGet (imClients i) h (imNamespace i) (vm_of_node h nd) = Ok v"
    and "envVmiGet (imClients i) (h @ [VmGet (imNamespace i) (vm_of_node h nd) (Ok v)]) (imNamespace i) (vmName v) = Ok vi"
  shows "\<exists>addrs. getNodeAddresses nd (Some vi) (imConfig i) = Inr addrs \<and> last addrs = hostNameAddress nd \<and>
    result_of (InstanceMetadata i nd) h =
      (Some \<lparr>mdProviderID = ''harvester://'' @ vmUID v, mdNodeAddresses = addrs,
             mdZone = mget (vmiAnnotations vi) LabelTopologyZone, mdRegion = mget (vmiAnnotations vi) LabelTopologyRegion\<rparr>, None)"
  using assms by (auto simp: InstanceMetadata_def getNodeAddresses_Some ProviderName_def mget_mlookup Let_def
      split: option.split)

text \<open>A virtual machine that is found but has no running instance still gives metadata, with its
  provider id and no addresses, so that the node is not taken for deleted.\<close>

lemma InstanceMetadata_no_vmi:
  assumes "envVmGet (imClients i) h (imNamespace i) (vm_of_node h nd) = Ok v"
    and "envVmiGet (imClients i) (h @ [VmGet (imNamespace i) (vm_of_node h nd) (Ok v)]) (imNamespace i) (vmName v) = Fail e x"
    and "IsNotFound e"
  shows "result_of (InstanceMetadata i nd) h =
    (Some \<lparr>mdProviderID = ''harvester://'' @ vmUID v, mdNodeAddresses = [], mdZone = [], mdRegion = []\<rparr>, None)"
  using assms by (simp add: InstanceMetadata_def ProviderName_def Let_def)

end
