(* ===== verification/VMIController.thy ===== *)
theory VMIController
  imports Instances NAD
begin

text \<open>
  The controller of virtual machine instances,
  \<open>pkg/controller/virtualmachineinstance/controller.go\<close>: it records which virtual machine
  a node runs on, asks the node lifecycle controller to refresh the topology labels of a node
  by tainting it, and keeps the stored NAD mapping up to date.  The taint helper is
  \<open>k8s.io/cloud-provider/node/helpers/taints.go\<close>.
\<close>

section \<open>Definitions\<close>

record handler =
  hClients :: env
  hNamespace :: string
  hConfig :: config

text \<open>
  \<open>Register\<close> builds the handler over the clients and hands its \<open>OnVmiChanged\<close> to the controller
  factory under the controller's name.
\<close>

definition vmiControllerName :: string where
  "vmiControllerName = ''harvester-cloudprovider-resync-topology''"

definition Register :: "env \<Rightarrow> config \<Rightarrow> string \<Rightarrow> string \<times> handler" where
  "Register E cfg namespace =
     (vmiControllerName, \<lparr>hClients = E, hNamespace = namespace, hConfig = cfg\<rparr>)"

definition LabelKeyVirtualMachineCreator :: string where
  "LabelKeyVirtualMachineCreator = ''harvesterhci.io/creator''"
definition VirtualMachineCreatorNodeDriver :: string where
  "VirtualMachineCreatorNodeDriver = ''docker-machine-driver-harvester''"

definition resyncTaint :: taint where
  "resyncTaint = \<lparr>taintKey = ''node.cloudprovider.kubernetes.io/uninitialized'', taintValue = ''true'',
     taintEffect = ''PreferNoSchedule'', taintTimeAdded = None\<rparr>"

definition MatchTaint :: "taint \<Rightarrow> taint \<Rightarrow> bool" where
  "MatchTaint t u \<longleftrightarrow> taintKey t = taintKey u \<and> taintEffect t = taintEffect u"

text \<open>
  The loop of \<open>addOrUpdateTaint\<close>: \<^term>\<open>None\<close> is the early return for a taint that is there
  already, otherwise the new taints and whether one was replaced.
\<close>

fun taintLoop :: "taint \<Rightarrow> bool \<Rightarrow> taint list \<Rightarrow> (taint list \<times> bool) option" where
  "taintLoop t updated [] = Some ([], updated)"
| "taintLoop t updated (u # us) =
     (if MatchTaint t u then
        (if t = u then None
         else map_option (\<lambda>(ts, b). (t # ts, b)) (taintLoop t True us))
      else map_option (\<lambda>(ts, b). (u # ts, b)) (taintLoop t updated us))"

text \<open>The new taints, and whether something was updated.\<close>

definition addOrUpdateTaint :: "node \<Rightarrow> taint \<Rightarrow> taint list \<times> bool" where
  "addOrUpdateTaint nd t = (case taintLoop t False (nodeTaints nd) of
     None \<Rightarrow> (nodeTaints nd, False)
   | Some (ts, updated) \<Rightarrow> (if updated then ts else ts @ [t], True))"

definition updateTaintSteps :: nat where "updateTaintSteps = 5"

text \<open>One attempt; the captured variable is \<open>firstTry\<close>.\<close>

definition taintAttempt :: "env \<Rightarrow> string \<Rightarrow> taint \<Rightarrow> bool \<Rightarrow> (go_error option \<times> bool) io" where
  "taintAttempt E name t firstTry = do {
     r \<leftarrow> nodeGet E name firstTry;
     (case r of
        Fail err _ \<Rightarrow> ret (Some err, False)
      | Ok oldNode \<Rightarrow>
          (case addOrUpdateTaint oldNode t of (newTaints, updated) \<Rightarrow>
             if \<not> updated then ret (None, False)
             else do {
               e \<leftarrow> nodePatchTaints E name oldNode newTaints;
               ret (e, False)
             }))
   }"

definition AddOrUpdateTaintOnNode :: "env \<Rightarrow> string \<Rightarrow> taint \<Rightarrow> go_error option io" where
  "AddOrUpdateTaintOnNode E name t = RetryOnConflict updateTaintSteps (taintAttempt E name t) True"

definition reSync :: "handler \<Rightarrow> vmi \<Rightarrow> go_error option io" where
  "reSync h v = AddOrUpdateTaintOnNode (hClients h) (vmiName v) resyncTaint"

definition compareTopology :: "gomap \<Rightarrow> gomap \<Rightarrow> bool" where
  "compareTopology a b \<longleftrightarrow> mget a LabelTopologyRegion = mget b LabelTopologyRegion \<and>
     mget a LabelTopologyZone = mget b LabelTopologyZone"

text \<open>The value to store: the empty string when the mapping has no entries.\<close>

definition nadMappingValue :: "vmi list \<Rightarrow> string" where
  "nadMappingValue vmis = (case GetCommonVMINADs (map Some vmis) of
     None \<Rightarrow> []
   | Some mapping \<Rightarrow> if mapping = fmempty then [] else marshal_map mapping)"

definition storeAttempt :: "env \<Rightarrow> string \<Rightarrow> unit \<Rightarrow> (go_error option \<times> unit) io" where
  "storeAttempt E value u = do {
     r \<leftarrow> cmGet E NamespaceSystem ConfigMapNADMapping;
     (case r of
        Fail err _ \<Rightarrow>
          if \<not> IsNotFound err then ret (Some err, u)
          else do {
            c \<leftarrow> cmCreate E \<lparr>cmNamespace = NamespaceSystem, cmName = ConfigMapNADMapping,
                 cmData = Some (fmupd ConfigMapKeyNADMapping value fmempty)\<rparr>;
            ret (case c of Ok _ \<Rightarrow> None | Fail e _ \<Rightarrow> Some e, u)
          }
      | Ok existing \<Rightarrow>
          if mget (cmData existing) ConfigMapKeyNADMapping = value then ret (None, u)
          else do {
            c \<leftarrow> cmUpdate E (existing\<lparr>cmData := mset_key ConfigMapKeyNADMapping value (made (cmData existing))\<rparr>);
            ret (case c of Ok _ \<Rightarrow> None | Fail e _ \<Rightarrow> Some e, u)
          })
   }"

definition syncNADMappingConfigMap :: "handler \<Rightarrow> go_error option io" where
  "syncNADMappingConfigMap h =
     (let clusterName = cfgClusterName (hConfig h) in
      if clusterName = [] \<or> clusterName = DefaultGuestClusterName
      then ret (Some (Errorf ''failed to sync NAD mapping ConfigMap: guest cluster name configuration is empty/default, we cannot identify the cluster'' []))
      else do {
        r \<leftarrow> vmiCacheList (hClients h) (hNamespace h) (LabelKeyGuestClusterNameOnVM, clusterName);
        (case r of
           Fail err _ \<Rightarrow> ret (Some err)
         | Ok vmis \<Rightarrow> RetryOnConflict DefaultBackoffSteps (storeAttempt (hClients h) (nadMappingValue vmis)) ())
      })"

text \<open>The guards at the start of the handler.\<close>

definition skipsVmi :: "handler \<Rightarrow> vmi \<Rightarrow> bool" where
  "skipsVmi h v \<longleftrightarrow> vmiDeleted v \<or>
     vmiAnnotations v = None \<or> vmiLabels v = None \<or> vmiNamespace v \<noteq> hNamespace h \<or> \<not> IsMigrationCompleted v \<or>
     mget (vmiLabels v) LabelKeyVirtualMachineCreator \<noteq> VirtualMachineCreatorNodeDriver"

text \<open>The node name: the host name the guest agent reports, which is recorded, or the name of the VMI.\<close>

definition nodeNameOfVmi :: "handler \<Rightarrow> vmi \<Rightarrow> string io" where
  "nodeNameOfVmi h v = do {
     g \<leftarrow> guestOsInfo (hClients h) (vmiNamespace v) (vmiName v);
     (case g of
        Fail _ _ \<Rightarrow> ret (vmiName v)
      | Ok hostname \<Rightarrow> do {
          _ \<leftarrow> storeVMName hostname (vmiName v);
          ret hostname
        })
   }"

definition OnVmiChanged :: "handler \<Rightarrow> vmi option \<Rightarrow> (vmi option \<times> go_error option) io" where
  "OnVmiChanged h vo = (case vo of
     None \<Rightarrow> ret (None, None)
   | Some v \<Rightarrow>
       if skipsVmi h v then ret (Some v, None)
       else do {
         name \<leftarrow> nodeNameOfVmi h v;
         r \<leftarrow> nodeCacheGet (hClients h) name;
         (case r of
            Fail err _ \<Rightarrow> if \<not> IsNotFound err then ret (Some v, Some err) else ret (Some v, None)
          | Ok nd \<Rightarrow> do {
              e \<leftarrow> (if \<not> compareTopology (vmiAnnotations v) (nodeLabels nd) then reSync h v else ret None);
              (case e of
                 Some err \<Rightarrow> ret (Some v, Some err)
               | None \<Rightarrow> do {
                   s \<leftarrow> syncNADMappingConfigMap h;
                   ret (Some v, case s of
                      Some err \<Rightarrow> Some (Wrapf ''failed to sync NAD mapping ConfigMap: %w'' [] err)
                    | None \<Rightarrow> None)
                 })
            })
       })"

section \<open>The taint\<close>

lemma taintLoop_None: "taintLoop t b us = None \<longleftrightarrow> t \<in> set us"
  by (induction t b us rule: taintLoop.induct) (auto simp: MatchTaint_def)

lemma taintLoop_Some:
  "taintLoop t b us = Some (ts, b') \<Longrightarrow>
   ts = map (\<lambda>u. if MatchTaint t u then t else u) us \<and> b' = (b \<or> list_ex (MatchTaint t) us)"
  by (induction t b us arbitrary: ts b' rule: taintLoop.induct) (auto split: if_splits)

lemma addOrUpdateTaint_spec:
  "addOrUpdateTaint nd t =
   (if t \<in> set (nodeTaints nd) then (nodeTaints nd, False)
    else (map (\<lambda>u. if MatchTaint t u then t else u) (nodeTaints nd)
            @ (if list_ex (MatchTaint t) (nodeTaints nd) then [] else [t]), True))"
proof (cases "taintLoop t False (nodeTaints nd)")
  case None
  then have "t \<in> set (nodeTaints nd)" using taintLoop_None by blast
  with None show ?thesis by (simp add: addOrUpdateTaint_def)
next
  case (Some p)
  obtain ts b where p: "p = (ts, b)" by fastforce
  have "t \<notin> set (nodeTaints nd)" using Some taintLoop_None [of t False "nodeTaints nd"] by auto
  with Some p taintLoop_Some [of t False "nodeTaints nd" ts b] show ?thesis
    by (auto simp: addOrUpdateTaint_def)
qed

section \<open>Appending and writes\<close>

lemma appends_taintAttempt [simp]: "appends (taintAttempt E n t b)"
  by (simp add: taintAttempt_def)

interpretation taint_retry: retried "taintAttempt E n t" for E n t
  by unfold_locales simp

lemma appends_storeAttempt [simp]: "appends (storeAttempt E v u)"
  by (simp add: storeAttempt_def)

interpretation store_retry: retried "storeAttempt E v" for E v
  by unfold_locales simp

lemma appends_controller [simp]:
  "appends (AddOrUpdateTaintOnNode E n t)" "appends (reSync h v)" "appends (syncNADMappingConfigMap h)"
  "appends (nodeNameOfVmi h v)"
  by (simp_all add: AddOrUpdateTaintOnNode_def reSync_def syncNADMappingConfigMap_def nodeNameOfVmi_def Let_def)

lemma appends_OnVmiChanged [simp]: "appends (OnVmiChanged h vo)"
  by (simp add: OnVmiChanged_def)

text \<open>The writes of the controller, with the reads before them.\<close>

fun vmi_write_ok :: "handler \<Rightarrow> vmi \<Rightarrow> event_pred" where
  "vmi_write_ok h v pre (StoreVMName k n) \<longleftrightarrow>
     n = vmiName v \<and> GuestOsInfo (vmiNamespace v) (vmiName v) (Ok k) \<in> set pre"
| "vmi_write_ok h v pre (NodePatchTaints n nd ts r) \<longleftrightarrow>
     n = vmiName v \<and> (\<exists>b. NodeGet n b (Ok nd) \<in> set pre) \<and> resyncTaint \<in> set ts"
| "vmi_write_ok h v pre (CmCreate cm r) \<longleftrightarrow>
     cmNamespace cm = NamespaceSystem \<and> cmName cm = ConfigMapNADMapping \<and>
     (\<exists>vmis. VmiCacheList (hNamespace h) (LabelKeyGuestClusterNameOnVM, cfgClusterName (hConfig h)) (Ok vmis) \<in> set pre \<and>
        mget (cmData cm) ConfigMapKeyNADMapping = nadMappingValue vmis)"
| "vmi_write_ok h v pre (CmUpdate cm r) \<longleftrightarrow>
     (\<exists>old vmis. CmGet NamespaceSystem ConfigMapNADMapping (Ok old) \<in> set pre \<and>
        VmiCacheList (hNamespace h) (LabelKeyGuestClusterNameOnVM, cfgClusterName (hConfig h)) (Ok vmis) \<in> set pre \<and>
        cm = old\<lparr>cmData := mset_key ConfigMapKeyNADMapping (nadMappingValue vmis) (made (cmData old))\<rparr>)"
| "vmi_write_ok h v pre e \<longleftrightarrow> \<not> is_write e"

lemma vmi_write_ok_mono: "monoP (vmi_write_ok h v)"
  unfolding monoP_def
proof (intro allI impI)
  fix pre pre' e
  assume "vmi_write_ok h v pre e" "set pre \<subseteq> set pre'"
  then show "vmi_write_ok h v pre' e" by (cases e; fastforce)
qed

lemma addOrUpdateTaint_has: "addOrUpdateTaint nd t = (ts, True) \<Longrightarrow> t \<in> set ts"
  by (auto simp: addOrUpdateTaint_spec list_ex_iff split: if_splits)

lemma reSync_writes: "holds (vmi_write_ok h v) (reSync h v)"
proof -
  have "holds (vmi_write_ok h v) (taintAttempt (hClients h) (vmiName v) resyncTaint b)" for b
    by (auto simp: holds_def taintAttempt_def dest: addOrUpdateTaint_has split: resp.split prod.split)
  then show ?thesis
    unfolding reSync_def AddOrUpdateTaintOnNode_def by (intro holds_retry vmi_write_ok_mono) auto
qed

lemma sync_writes: "holds (vmi_write_ok h v) (syncNADMappingConfigMap h)"
proof (cases "cfgClusterName (hConfig h) = [] \<or> cfgClusterName (hConfig h) = DefaultGuestClusterName")
  case True
  then show ?thesis by (simp add: syncNADMappingConfigMap_def Let_def)
next
  case False
  let ?l = "VmiCacheList (hNamespace h) (LabelKeyGuestClusterNameOnVM, cfgClusterName (hConfig h))"
  let ?P = "\<lambda>vmis pre. vmi_write_ok h v (?l (Ok vmis) # pre)"
  have m: "monoP (?P vmis)" for vmis by (intro monoP_Cons vmi_write_ok_mono)
  have "holds (?P vmis) (storeAttempt (hClients h) (nadMappingValue vmis) u)" for vmis u
    by (auto simp: holds_def storeAttempt_def mget_def split: resp.split)
  then have "holds (?P vmis) (RetryOnConflict DefaultBackoffSteps (storeAttempt (hClients h) (nadMappingValue vmis)) ())" for vmis
    by (intro holds_retry m) auto
  with False show ?thesis
    by (auto simp: holds_def syncNADMappingConfigMap_def Let_def split: resp.split)
qed

lemma nodeName_writes: "holds (vmi_write_ok h v) (nodeNameOfVmi h v)"
  by (auto simp: holds_def nodeNameOfVmi_def split: resp.split)

lemma OnVmiChanged_writes: "holds (vmi_write_ok h v) (OnVmiChanged h (Some v))"
proof -
  have "holds (vmi_write_ok h v) (nodeCacheGet E n)" for E n by (simp add: holds_def)
  then show ?thesis
    unfolding OnVmiChanged_def option.case
    by (intro holds_bind holds_branches vmi_write_ok_mono nodeName_writes reSync_writes sync_writes holds_ret)
qed

section \<open>Storing the mapping\<close>

definition no_cm_timeout :: "env \<Rightarrow> bool" where
  "no_cm_timeout E \<longleftrightarrow> (\<forall>h ns n x. envCmGet E h ns n \<noteq> Fail ErrWaitTimeout x) \<and>
     (\<forall>h c x. envCmCreate E h c \<noteq> Fail ErrWaitTimeout x) \<and> (\<forall>h c x. envCmUpdate E h c \<noteq> Fail ErrWaitTimeout x)"

definition stores :: "event \<Rightarrow> configmap \<Rightarrow> bool" where
  "stores e cm \<longleftrightarrow> e = CmGet NamespaceSystem ConfigMapNADMapping (Ok cm) \<or>
     (\<exists>r. e = CmCreate cm (Ok r)) \<or> (\<exists>r. e = CmUpdate cm (Ok r))"

lemma storeAttempt_success:
  assumes "fst (result_of (storeAttempt E value u) h) = None"
  shows "\<exists>t e cm. trace_of (storeAttempt E value u) h = t @ [e] \<and> stores e cm \<and>
    mget (cmData cm) ConfigMapKeyNADMapping = value"
proof (cases "envCmGet E h NamespaceSystem ConfigMapNADMapping")
  case (Ok existing)
  show ?thesis
  proof (cases "mget (cmData existing) ConfigMapKeyNADMapping = value")
    case True
    with Ok show ?thesis by (auto simp: storeAttempt_def stores_def)
  next
    case False
    let ?cm = "existing\<lparr>cmData := mset_key ConfigMapKeyNADMapping value (made (cmData existing))\<rparr>"
    let ?g = "[CmGet NamespaceSystem ConfigMapNADMapping (Ok existing)]"
    have "mget (cmData ?cm) ConfigMapKeyNADMapping = value" by simp
    with False Ok assms show ?thesis
      by (intro exI [of _ ?g] exI [of _ "CmUpdate ?cm (envCmUpdate E (h @ ?g) ?cm)"] exI [of _ ?cm])
        (auto simp: storeAttempt_def stores_def split: resp.splits)
  qed
next
  case (Fail e x)
  with assms show ?thesis
    by (auto simp: storeAttempt_def stores_def mget_def split: resp.splits if_splits)
qed

lemma sync_success:
  assumes "no_cm_timeout (hClients h)" "result_of (syncNADMappingConfigMap h) hs = None"
  shows "\<exists>vmis t e cm. trace_of (syncNADMappingConfigMap h) hs =
      VmiCacheList (hNamespace h) (LabelKeyGuestClusterNameOnVM, cfgClusterName (hConfig h)) (Ok vmis) # t @ [e] \<and>
    stores e cm \<and> mget (cmData cm) ConfigMapKeyNADMapping = nadMappingValue vmis"
proof -
  let ?l = "VmiCacheList (hNamespace h) (LabelKeyGuestClusterNameOnVM, cfgClusterName (hConfig h))"
  obtain vmis where
    n: "cfgClusterName (hConfig h) \<noteq> []" "cfgClusterName (hConfig h) \<noteq> DefaultGuestClusterName" and
    vmis: "envVmiCacheList (hClients h) hs (hNamespace h) (LabelKeyGuestClusterNameOnVM, cfgClusterName (hConfig h)) = Ok vmis"
    using assms(2) by (auto simp: syncNADMappingConfigMap_def Let_def split: resp.splits if_splits)
  let ?fn = "storeAttempt (hClients h) (nadMappingValue vmis)"
  have "fst (result_of (?fn u) h') \<noteq> Some ErrWaitTimeout" for u h'
    using assms(1) by (auto simp: storeAttempt_def no_cm_timeout_def split: resp.split)
  moreover have "result_of (RetryOnConflict DefaultBackoffSteps ?fn ()) (hs @ [?l (Ok vmis)]) = None"
    using assms(2) n vmis by (simp add: syncNADMappingConfigMap_def Let_def)
  ultimately obtain t u where "fst (result_of (?fn u) ((hs @ [?l (Ok vmis)]) @ t)) = None"
    and t: "trace_of (RetryOnConflict DefaultBackoffSteps ?fn ()) (hs @ [?l (Ok vmis)]) =
      t @ trace_of (?fn u) ((hs @ [?l (Ok vmis)]) @ t)"
    using store_retry.retry_success [of "hClients h" "nadMappingValue vmis" DefaultBackoffSteps "()" "hs @ [?l (Ok vmis)]"]
    by (auto simp: DefaultBackoffSteps_def)
  from storeAttempt_success [OF this(1)] obtain t' e cm where
    "trace_of (?fn u) ((hs @ [?l (Ok vmis)]) @ t) = t' @ [e]" "stores e cm"
    "mget (cmData cm) ConfigMapKeyNADMapping = nadMappingValue vmis" by blast
  with n vmis t show ?thesis
    by (intro exI [of _ vmis] exI [of _ "t @ t'"] exI [of _ e] exI [of _ cm])
      (simp add: syncNADMappingConfigMap_def Let_def)
qed

section \<open>Properties\<close>

text \<open>A deleted instance, one that is migrating, in another namespace, without labels or
  annotations or not created by the node driver, is left alone: no call is made and no error is
  returned.\<close>

lemma skipped_vmi_untouched:
  assumes "vmiDeleted v \<or> vmiAnnotations v = None \<or> vmiLabels v = None \<or> vmiNamespace v \<noteq> hNamespace h \<or>
    \<not> IsMigrationCompleted v \<or> mget (vmiLabels v) LabelKeyVirtualMachineCreator \<noteq> VirtualMachineCreatorNodeDriver"
  shows "result_of (OnVmiChanged h (Some v)) hs = (Some v, None) \<and> trace_of (OnVmiChanged h (Some v)) hs = []"
proof -
  have "skipsVmi h v" using assms by (simp add: skipsVmi_def)
  then show ?thesis by (simp add: OnVmiChanged_def)
qed

text \<open>What the controller may write: the VM name under the host name the guest agent reported;
  the taints of a node it has just read, now with the re-initialization taint; and the NAD
  mapping ConfigMap, with the value computed from the instances it has listed for this
  guest cluster.\<close>

lemma vmi_controller_writes:
  assumes "trace_of (OnVmiChanged h (Some v)) hs = pre @ e # post" "is_write e"
  shows "(\<exists>k. e = StoreVMName k (vmiName v) \<and> GuestOsInfo (vmiNamespace v) (vmiName v) (Ok k) \<in> set pre) \<or>
    (\<exists>nd ts r b. e = NodePatchTaints (vmiName v) nd ts r \<and> NodeGet (vmiName v) b (Ok nd) \<in> set pre \<and> resyncTaint \<in> set ts) \<or>
    (\<exists>vmis cm r. (e = CmCreate cm r \<and> cmNamespace cm = NamespaceSystem \<and> cmName cm = ConfigMapNADMapping \<or>
        e = CmUpdate cm r \<and> (\<exists>old. CmGet NamespaceSystem ConfigMapNADMapping (Ok old) \<in> set pre \<and> cm = old\<lparr>cmData := cmData cm\<rparr>)) \<and>
       VmiCacheList (hNamespace h) (LabelKeyGuestClusterNameOnVM, cfgClusterName (hConfig h)) (Ok vmis) \<in> set pre \<and>
       mget (cmData cm) ConfigMapKeyNADMapping = nadMappingValue vmis)"
proof -
  have "vmi_write_ok h v pre e"
    using OnVmiChanged_writes [of h v] assms(1) by (auto simp: holds_def always_def)
  with assms(2) show ?thesis by (cases e) auto
qed

text \<open>C40: The taint that asks for a refresh of the node is put on the node named like the
  virtual machine, also when the guest reports another host name.  Then, if there is no node
  with the name of the virtual machine, the handler fails for a node whose topology labels are
  out of date: the node is not tainted, and the NAD mapping is not synchronized.\<close>

theorem resync_wrong_node:
  assumes "\<not> skipsVmi h v" "envGuestOsInfo (hClients h) hs (vmiNamespace v) (vmiName v) = Ok hostname"
    and "envNodeCacheGet (hClients h) (hs @ [GuestOsInfo (vmiNamespace v) (vmiName v) (Ok hostname), StoreVMName hostname (vmiName v)]) hostname = Ok nd"
    and "\<not> compareTopology (vmiAnnotations v) (nodeLabels nd)"
    and "\<And>hs'. envNodeGet (hClients h) hs' (vmiName v) True = Fail err x" "IsNotFound err"
  shows "result_of (OnVmiChanged h (Some v)) hs = (Some v, Some err) \<and>
    trace_of (OnVmiChanged h (Some v)) hs =
      [GuestOsInfo (vmiNamespace v) (vmiName v) (Ok hostname), StoreVMName hostname (vmiName v),
       NodeCacheGet hostname (Ok nd), NodeGet (vmiName v) True (Fail err x)]"
proof -
  have "result_of (taintAttempt (hClients h) (vmiName v) resyncTaint True) hs' = (Some err, False)"
    "trace_of (taintAttempt (hClients h) (vmiName v) resyncTaint True) hs' = [NodeGet (vmiName v) True (Fail err x)]" for hs'
    using assms(5) by (simp_all add: taintAttempt_def)
  moreover have "\<not> IsConflict err" "err \<noteq> ErrWaitTimeout"
    using assms(6) IsNotFound_not_IsConflict by (auto simp: IsNotFound_def)
  ultimately have "result_of (reSync h v) hs' = Some err" "trace_of (reSync h v) hs' = [NodeGet (vmiName v) True (Fail err x)]" for hs'
    using taint_retry.retry_no_conflict [of "hClients h" "vmiName v" resyncTaint True hs' "Some err" False updateTaintSteps]
    by (simp_all add: reSync_def AddOrUpdateTaintOnNode_def updateTaintSteps_def)
  then show ?thesis using assms(1-4) by (simp add: OnVmiChanged_def nodeNameOfVmi_def)
qed

text \<open>Adding a taint: afterwards it is there, taints with another key or effect are
  kept in their order, and adding it again changes nothing.\<close>

lemma addOrUpdateTaint_correct:
  "let ts = fst (addOrUpdateTaint nd t) in
     t \<in> set ts \<and> filter (\<lambda>u. \<not> MatchTaint t u) ts = filter (\<lambda>u. \<not> MatchTaint t u) (nodeTaints nd) \<and>
     addOrUpdateTaint (nd\<lparr>nodeTaints := ts\<rparr>) t = (ts, False)"
proof -
  have m: "MatchTaint t t" by (simp add: MatchTaint_def)
  have f: "filter (\<lambda>u. \<not> MatchTaint t u) (map (\<lambda>u. if MatchTaint t u then t else u) us) = filter (\<lambda>u. \<not> MatchTaint t u) us" for us
    by (induction us) (auto simp: m)
  have "t \<in> set (fst (addOrUpdateTaint nd t))" by (auto simp: addOrUpdateTaint_spec list_ex_iff)
  moreover have "filter (\<lambda>u. \<not> MatchTaint t u) (fst (addOrUpdateTaint nd t)) = filter (\<lambda>u. \<not> MatchTaint t u) (nodeTaints nd)"
    by (simp add: addOrUpdateTaint_spec f m)
  ultimately show ?thesis by (simp add: Let_def addOrUpdateTaint_spec [of "nd\<lparr>nodeTaints := fst (addOrUpdateTaint nd t)\<rparr>"])
qed

text \<open>Without a cluster name of its own (empty, or the default the framework injects) the
  controller refuses to compute a NAD mapping, before any call.\<close>

lemma sync_needs_cluster_name:
  assumes "cfgClusterName (hConfig h) = [] \<or> cfgClusterName (hConfig h) = DefaultGuestClusterName"
  shows "result_of (syncNADMappingConfigMap h) hs \<noteq> None \<and> trace_of (syncNADMappingConfigMap h) hs = []"
  using assms by (simp add: syncNADMappingConfigMap_def Let_def)

section \<open>Witnesses\<close>

definition driver_vmi :: vmi where
  "driver_vmi = (demo_vmi [])\<lparr>vmiAnnotations := Some (fmupd LabelTopologyZone ''zone1'' fmempty),
     vmiLabels := Some (fmupd LabelKeyVirtualMachineCreator VirtualMachineCreatorNodeDriver fmempty)\<rparr>"

definition demo_handler :: "node resp \<Rightarrow> handler" where
  "demo_handler a = \<lparr>hClients = empty_env\<lparr>envGuestOsInfo := (\<lambda>h ns n. Ok ''host1''), envNodeCacheGet := (\<lambda>h n. a)\<rparr>,
     hNamespace = ''default'', hConfig = zero_config\<rparr>"

lemma driver_vmi_handled: "\<not> skipsVmi (demo_handler a) driver_vmi"
  by (simp add: skipsVmi_def driver_vmi_def demo_vmi_def demo_handler_def IsMigrationCompleted_def mget_def)

lemma demo_handler_trace:
  "trace_of (OnVmiChanged (demo_handler (Fail not_found None)) (Some driver_vmi)) [] =
   [GuestOsInfo ''default'' ''vm1'' (Ok ''host1'')] @ StoreVMName ''host1'' ''vm1'' # [NodeCacheGet ''host1'' (Fail not_found None)]"
proof -
  have "vmiName driver_vmi = ''vm1''" "vmiNamespace driver_vmi = ''default''" by (simp_all add: driver_vmi_def demo_vmi_def)
  then show ?thesis
    using driver_vmi_handled [of "Fail not_found None"]
    by (simp add: OnVmiChanged_def nodeNameOfVmi_def) (simp add: demo_handler_def)
qed

theorem resync_wrong_node_witness:
  "result_of (OnVmiChanged (demo_handler (Ok demo_node)) (Some driver_vmi)) [] = (Some driver_vmi, Some not_found) \<and>
    trace_of (OnVmiChanged (demo_handler (Ok demo_node)) (Some driver_vmi)) [] =
      [GuestOsInfo (vmiNamespace driver_vmi) (vmiName driver_vmi) (Ok ''host1''), StoreVMName ''host1'' (vmiName driver_vmi),
       NodeCacheGet ''host1'' (Ok demo_node), NodeGet (vmiName driver_vmi) True (Fail not_found None)]"
proof (rule resync_wrong_node)
  show "\<not> compareTopology (vmiAnnotations driver_vmi) (nodeLabels demo_node)"
    by (simp add: compareTopology_def demo_node_def driver_vmi_def mget_def)
qed (rule driver_vmi_handled, simp_all add: demo_handler_def empty_env_def)

end
