(* ===== verification/Bootstrap.thy ===== *)
theory Bootstrap
  imports Config_Facts
begin

text \<open>
  Starting the process: the log level is read from the raw arguments
  (\<open>pkg/utils/log.go\<close>), the help output is configured, the flags are validated before the
  framework runs, and a failure is reported (\<open>pkg/utils/config.go\<close>, \<open>main.go\<close>).  The
  framework's own run function is a parameter.
\<close>

section \<open>Log level\<close>

datatype log_level = InfoLevel | DebugLevel | TraceLevel

text \<open>\<open>strconv.Atoi\<close> on a 64-bit platform: an optional sign, digits, and the range of \<open>int64\<close>.\<close>

definition parse_digits :: "string \<Rightarrow> nat option" where
  "parse_digits s = (if s \<noteq> [] \<and> list_all is_dec s
     then Some (foldl (\<lambda>a c. a * 10 + dec_val c) 0 s) else None)"

definition Atoi :: "string \<Rightarrow> int option" where
  "Atoi s =
     (let neg = (s \<noteq> [] \<and> hd s = CHR ''-'');
          digits = (if s \<noteq> [] \<and> (hd s = CHR ''-'' \<or> hd s = CHR ''+'') then tl s else s)
      in case parse_digits digits of
        None \<Rightarrow> None
      | Some n \<Rightarrow>
          let v = (if neg then - int n else int n) in
          if - (2 ^ 63) \<le> v \<and> v < 2 ^ 63 then Some v else None)"

definition MapK8sLevelToLogrus :: "string \<Rightarrow> log_level" where
  "MapK8sLevelToLogrus vString = (case Atoi vString of
     None \<Rightarrow> InfoLevel
   | Some v \<Rightarrow> if 5 \<le> v then TraceLevel else if 3 \<le> v then DebugLevel else InfoLevel)"

text \<open>\<open>strings.Cut(arg, "=")\<close>: what follows the first separator, if there is one.\<close>

definition cut_value :: "string \<Rightarrow> string option" where
  "cut_value arg = (case split_n2 (CHR ''='') arg of [_, v] \<Rightarrow> Some v | _ \<Rightarrow> None)"

fun bootstrapLoop :: "log_level \<Rightarrow> string list \<Rightarrow> log_level" where
  "bootstrapLoop level [] = level"
| "bootstrapLoop level (arg # args) = bootstrapLoop
     (if has_prefix arg ''-v='' \<or> has_prefix arg ''--v='' then
        (case cut_value arg of Some v \<Rightarrow> MapK8sLevelToLogrus v | None \<Rightarrow> level)
      else if (arg = ''-v'' \<or> arg = ''--v'') \<and> args \<noteq> [] then MapK8sLevelToLogrus (hd args)
      else level) args"

definition BootstrapLogrus :: "string list \<Rightarrow> log_level" where
  "BootstrapLogrus os_args = bootstrapLoop InfoLevel os_args"

section \<open>Help output and errors\<close>

record command =
  SilenceUsage :: bool
  SilenceErrors :: bool

definition CheckFlagShowFullHelpOnError :: "string list \<Rightarrow> command \<Rightarrow> config \<Rightarrow> command \<times> config" where
  "CheckFlagShowFullHelpOnError os_args cmd cfg =
     (let showFullHelp = list_ex (\<lambda>arg. arg = ''--'' @ FlagShowFullHelpOnError @ ''=true'' \<or>
            arg = ''--'' @ FlagShowFullHelpOnError) os_args
      in (if \<not> showFullHelp then cmd\<lparr>SilenceUsage := True, SilenceErrors := True\<rparr> else cmd,
          cfg\<lparr>cfgShowFullHelpOnError := showFullHelp\<rparr>))"

datatype startup_line = Boundary | FatalLine | ErrorDetail string | FlagCause | HelmCheck | FlagAction | HelpHint

text \<open>The lines written, and the exit code.\<close>

definition HandleStartupError :: "config \<Rightarrow> string \<Rightarrow> startup_line list \<times> nat" where
  "HandleStartupError cfg errStr =
     (let isFlagError = str_contains errStr ''unknown flag'' \<or>
            str_contains errStr ''flag provided but not defined'' \<or> str_contains errStr ''bad flag syntax''
      in ([Boundary, FatalLine, ErrorDetail errStr]
          @ (if isFlagError
             then [FlagCause, HelmCheck, FlagAction] @ (if \<not> cfgShowFullHelpOnError cfg then [HelpHint] else [])
             else [])
          @ [Boundary], 1))"

section \<open>Running\<close>

text \<open>
  The wrapped run function: either an error, with the configuration as far as it was filled, or
  the framework is started with the configuration.
\<close>

datatype run_result = RunFailed go_error config | RunFramework config

definition RunE :: "flags \<Rightarrow> bool \<Rightarrow> config \<Rightarrow> run_result" where
  "RunE fl originalRunE c0 = (case SyncAndValidateHarvesterConfig fl c0 of
     (Some err, cfg) \<Rightarrow> RunFailed err cfg
   | (None, cfg) \<Rightarrow>
       if \<not> originalRunE
       then RunFailed (Errorf ''the original runE command was nil, initialization failed'' []) cfg
       else RunFramework cfg)"

text \<open>The static flags: the value a flag of that name is set to, if any.\<close>

definition staticFlagValue :: "string \<Rightarrow> string option" where
  "staticFlagValue name =
     (if name = ''allow-untagged-cloud'' \<or> name = ''authentication-skip-lookup'' then Some ''true''
      else if name = ''cloud-provider'' then Some ''harvester''
      else None)"

section \<open>Facts\<close>

lemma parse_digits_dec: "parse_digits (dec n) = Some n"
proof -
  have "foldl (\<lambda>a c. a * 10 + dec_val c) 0 (dec n) = n"
  proof (induction n rule: dec.induct)
    case (1 n)
    then show ?case
      by (cases "n < 10") (simp_all add: dec_1 dec.simps [of n])
  qed
  then show ?thesis using dec_chars by (simp add: parse_digits_def list_all_iff)
qed

lemma hd_dec: "is_dec (hd (dec n))"
  using dec_chars [of "hd (dec n)" n] by simp

lemma Atoi_dec: "n < 2 ^ 63 \<Longrightarrow> Atoi (dec n) = Some (int n)"
  using hd_dec [of n] by (auto simp: Atoi_def parse_digits_dec is_dec_def Let_def)

lemma bootstrapLoop_append:
  "bootstrapLoop lv (args @ [''--v='' @ s]) = MapK8sLevelToLogrus s"
proof -
  have "cut_value (''--v='' @ s) = Some s"
    using split_n2_append [of "CHR ''=''" "''--v''" s] by (simp add: cut_value_def)
  then show ?thesis by (induction args arbitrary: lv) (simp_all add: has_prefix_def)
qed

text \<open>The framework is started only with validated settings.\<close>

lemma RunE_config_ok: "RunE fl orig c0 = RunFramework cfg \<Longrightarrow> config_ok cfg"
  using Sync_success validate_network_settings_ok(1)
  by (fastforce simp: RunE_def split: prod.splits option.splits if_splits)

definition demo_flags :: flags where
  "demo_flags = \<lparr>GetString = (\<lambda>n. Inr (if n = FlagClusterName then ''c1'' else if n = FlagManagementNetwork then ''mgmt'' else ''10.0.0.0/8, 2001:db8::1'')),
     GetBool = (\<lambda>n. Inr False), GetStringSlice = (\<lambda>n. Inr (if n = FlagNodeExcludeIPRanges then [''10.9.0.0/16''] else [''*'']))\<rparr>"

definition demo_config :: config where
  "demo_config = \<lparr>cfgClusterName = ''c1'', cfgCloudProviderControllers = ''*'',
     cfgDisableAnnotationAlphaProvidedIPAddr = False, cfgManagementNetwork = ''default/mgmt'',
     cfgNodeIPCIDR = ''10.0.0.0/8,2001:db8::1'', cfgNodeExcludeIPRanges = [''10.9.0.0/16''],
     cfgDisableVMIController = False, cfgShowFullHelpOnError = False,
     internalNodeIPCIDRPrefixes = [PrefixFrom (Addr4 0x0A000000) 8, PrefixFrom (Addr6 0x20010db8000000000000000000000001 []) 128],
     internalNodeExcludeIPPrefixes = [PrefixFrom (Addr4 0x0A090000) 16]\<rparr>"

lemma demo_boot: "RunE demo_flags True zero_config = RunFramework demo_config"
  by code_simp

text \<open>A verbosity given last on the command line decides the log level: at least 5 is trace, at
  least 3 is debug, less is info.\<close>

lemma log_level_of_last_flag:
  assumes "n < 2 ^ 63"
  shows "BootstrapLogrus (args @ [''--v='' @ dec n]) =
    (if 5 \<le> n then TraceLevel else if 3 \<le> n then DebugLevel else InfoLevel)"
  unfolding BootstrapLogrus_def bootstrapLoop_append
  using assms by (simp add: MapK8sLevelToLogrus_def Atoi_dec)

end
