(* ===== verification/CloudProvider.thy ===== *)
theory CloudProvider
  imports LoadBalancer_Props VMIController Bootstrap
begin

text \<open>
  The assembled provider, \<open>pkg/cloud-controller-manager/ccm.go\<close>: the load balancer manager,
  the instance manager and, unless it is disabled, the VMI controller share one namespace, one
  configuration and the map from node names to VM names.  The framework calls their operations
  in any order; \<open>reachable\<close> is the set of histories this can produce.
\<close>

section \<open>Definitions\<close>

record cloud_provider =
  loadBalancers :: lb_manager
  instances :: instance_manager
  vmiHandler :: "handler option"
  cpNamespace :: string

text \<open>
  The provider over its clients; \<open>contextNamespace\<close> is the namespace of the current context of
  the cloud config, or the default one.  How the clients come about is in \<open>ProviderInit\<close>.
\<close>

definition contextNamespace :: "string \<Rightarrow> string" where
  "contextNamespace ns = (if ns = [] then DefaultNamespace else ns)"

definition buildCloudProvider :: "env \<Rightarrow> config \<Rightarrow> string \<Rightarrow> cloud_provider" where
  "buildCloudProvider E cfg rawNamespace =
     (let ns = contextNamespace rawNamespace in
      \<lparr>loadBalancers = \<lparr>lmClients = E, lmNamespace = ns, lmConfig = cfg\<rparr>,
       instances = \<lparr>imClients = E, imNamespace = ns, imConfig = cfg\<rparr>,
       vmiHandler = None, cpNamespace = ns\<rparr>)"

text \<open>\<open>Initialize\<close> registers the VMI controller unless it is disabled.\<close>

definition Initialize :: "env \<Rightarrow> config \<Rightarrow> cloud_provider \<Rightarrow> cloud_provider" where
  "Initialize E cfg cp = (if \<not> cfgDisableVMIController cfg
     then cp\<lparr>vmiHandler := Some (snd (Register E cfg (cpNamespace cp)))\<rparr> else cp)"

definition startProvider :: "env \<Rightarrow> config \<Rightarrow> string \<Rightarrow> cloud_provider" where
  "startProvider E cfg rawNamespace = Initialize E cfg (buildCloudProvider E cfg rawNamespace)"

text \<open>The calls of the framework and of the controller factory.\<close>

datatype operation =
    OpGetLoadBalancer string service
  | OpEnsureLoadBalancer string service
  | OpUpdateLoadBalancer string service
  | OpEnsureLoadBalancerDeleted string service
  | OpInstanceExists node
  | OpInstanceShutdown node
  | OpInstanceMetadata node
  | OpVmiChanged "vmi option"

fun op_trace :: "cloud_provider \<Rightarrow> operation \<Rightarrow> history \<Rightarrow> history" where
  "op_trace cp (OpGetLoadBalancer cl svc) h = trace_of (GetLoadBalancer (loadBalancers cp) cl svc) h"
| "op_trace cp (OpEnsureLoadBalancer cl svc) h = trace_of (EnsureLoadBalancer (loadBalancers cp) cl svc) h"
| "op_trace cp (OpUpdateLoadBalancer cl svc) h = trace_of (UpdateLoadBalancer (loadBalancers cp) cl svc) h"
| "op_trace cp (OpEnsureLoadBalancerDeleted cl svc) h = trace_of (EnsureLoadBalancerDeleted (loadBalancers cp) cl svc) h"
| "op_trace cp (OpInstanceExists nd) h = trace_of (InstanceExists (instances cp) nd) h"
| "op_trace cp (OpInstanceShutdown nd) h = trace_of (InstanceShutdown (instances cp) nd) h"
| "op_trace cp (OpInstanceMetadata nd) h = trace_of (InstanceMetadata (instances cp) nd) h"
| "op_trace cp (OpVmiChanged vo) h = (case vmiHandler cp of
     None \<Rightarrow> []
   | Some vh \<Rightarrow> trace_of (OnVmiChanged vh vo) h)"

inductive step :: "cloud_provider \<Rightarrow> history \<Rightarrow> history \<Rightarrow> bool" where
  run_operation: "step cp h (h @ op_trace cp op h)"

inductive reachable :: "cloud_provider \<Rightarrow> history \<Rightarrow> bool" where
  initial: "reachable cp []"
| run: "reachable cp h \<Longrightarrow> step cp h h' \<Longrightarrow> reachable cp h'"

inductive_simps step_simps: "step cp h h'"
inductive_cases stepE: "step cp h h'"

section \<open>Invariants along a history\<close>

text \<open>
  An event predicate that every operation respects is an invariant of the system; the interface
  for such predicates is the locale \<open>provider_invariant\<close>.
\<close>

locale provider_invariant =
  fixes cp :: cloud_provider and P :: event_pred
  assumes mono: "monoP P"
    and op_ok: "always P (op_trace cp op h)"
begin

lemma reachable_always: "reachable cp h \<Longrightarrow> always P h"
proof (induction cp \<equiv> cp h rule: reachable.induct)
  case (run h h')
  then show ?case using monoP_always [OF mono op_ok] by (auto simp: step_simps always_append)
qed simp

lemma reachable_mem: "reachable cp h \<Longrightarrow> e \<in> set h \<Longrightarrow> \<exists>pre post. h = pre @ e # post \<and> P pre e"
  using reachable_always always_memD by blast

end

text \<open>The writes the whole provider may make.\<close>

definition provider_write_ok :: "cloud_provider \<Rightarrow> event_pred" where
  "provider_write_ok cp pre e \<longleftrightarrow> \<not> is_write e \<or>
     (\<exists>cl svc. write_ok (loadBalancers cp) cl svc pre e) \<or>
     (\<exists>vh v. vmiHandler cp = Some vh \<and> \<not> skipsVmi vh v \<and> vmi_write_ok vh v pre e)"

lemma provider_write_mono: "monoP (provider_write_ok cp)"
  using write_ok_pred(1) vmi_write_ok_mono unfolding monoP_def provider_write_ok_def by metis

lemma always_weaken: "always P t \<Longrightarrow> (\<And>pre e. P pre e \<Longrightarrow> Q pre e) \<Longrightarrow> always Q t"
  by (simp add: always_def)

lemma read_only_always: "read_only t \<Longrightarrow> always (provider_write_ok cp) t"
  by (auto simp: read_only_def always_def provider_write_ok_def)

lemma lb_op_ok:
  "holds (write_ok (loadBalancers cp) cl svc) m \<Longrightarrow> always (provider_write_ok cp) (trace_of m h)"
  unfolding holds_def by (rule always_weaken [where P = "write_ok (loadBalancers cp) cl svc"])
    (auto simp: provider_write_ok_def)

lemma GetLoadBalancer_read_only: "read_only (trace_of (GetLoadBalancer l cl svc) h)"
  by (simp add: GetLoadBalancer_def GetLoadBalancerName_def Let_def)

lemma instances_reads:
  "read_only (trace_of (InstanceExists i nd) h)" "read_only (trace_of (InstanceShutdown i nd) h)"
  "read_only (trace_of (InstanceMetadata i nd) h)"
  by (simp_all add: InstanceExists_def InstanceShutdown_def InstanceMetadata_def Let_def split: resp.split)

lemma vmi_op_ok:
  assumes "vmiHandler cp = Some vh"
  shows "always (provider_write_ok cp) (trace_of (OnVmiChanged vh vo) h)"
proof (cases vo)
  case (Some v)
  show ?thesis
  proof (cases "skipsVmi vh v")
    case False
    have "always (vmi_write_ok vh v) (trace_of (OnVmiChanged vh vo) h)"
      using OnVmiChanged_writes [of vh v] Some by (simp add: holds_def)
    then show ?thesis
      by (rule always_weaken) (use False assms in \<open>unfold provider_write_ok_def, blast\<close>)
  qed (use Some in \<open>simp add: OnVmiChanged_def\<close>)
qed (simp add: OnVmiChanged_def)

interpretation writes: provider_invariant cp "provider_write_ok cp" for cp
proof
  show "monoP (provider_write_ok cp)" by (rule provider_write_mono)
  show "always (provider_write_ok cp) (op_trace cp op h)" for op h
    by (cases op) (auto simp: update_trace lb_op_ok [OF ensure_writes] lb_op_ok [OF deleted_writes]
        read_only_always GetLoadBalancer_read_only instances_reads vmi_op_ok split: option.split)
qed

lemma provider_delete:
  "provider_write_ok cp pre (LbDelete ns n r) \<Longrightarrow> \<exists>cl svc. ns = lmNamespace (loadBalancers cp) \<and> n = lb_name_of cl svc \<and>
     SvcCacheList NamespaceAll (KeyPrimaryService, primaryServiceLabelValue svc) (Ok []) \<in> set pre \<and>
     (\<exists>lb. LbGet ns n (Ok lb) \<in> set pre)"
  by (auto simp: provider_write_ok_def)

lemma provider_store:
  "provider_write_ok cp pre (StoreVMName k n) \<Longrightarrow> \<exists>vh v. vmiHandler cp = Some vh \<and> \<not> skipsVmi vh v \<and> n = vmiName v \<and>
     GuestOsInfo (vmiNamespace v) n (Ok k) \<in> set pre"
  by (auto simp: provider_write_ok_def)

lemma startProvider_simps [simp]:
  "lmNamespace (loadBalancers (startProvider E cfg ns)) = contextNamespace ns"
  "imNamespace (instances (startProvider E cfg ns)) = contextNamespace ns"
  "imClients (instances (startProvider E cfg ns)) = E"
  "vmiHandler (startProvider E cfg ns) = (if cfgDisableVMIController cfg then None
     else Some \<lparr>hClients = E, hNamespace = contextNamespace ns, hConfig = cfg\<rparr>)"
  by (simp_all add: startProvider_def Initialize_def Register_def buildCloudProvider_def Let_def)

section \<open>Two runs\<close>

lemma reachable_one: "reachable cp (op_trace cp op [])"
  using run [OF initial run_operation, of cp op] by simp

definition delete_env :: env where
  "delete_env = empty_env\<lparr>envLbGet := (\<lambda>h ns n. Ok demo_lb)\<rparr>"

lemma delete_history:
  "op_trace (startProvider delete_env zero_config []) (OpEnsureLoadBalancerDeleted ''c1'' demo_svc) [] =
   [SvcCacheList NamespaceAll (KeyPrimaryService, primaryServiceLabelValue demo_svc) (Ok []),
    LbGet ''default'' (lb_name_of ''c1'' demo_svc) (Ok demo_lb)] @ LbDelete ''default'' (lb_name_of ''c1'' demo_svc) None # []"
  by (simp add: EnsureLoadBalancerDeleted_def getPrimaryService_def deleteLoadBalancer_def
      checkSecondaryServicesBeforeDeleted_def demo_svc_def mlookup_def startProvider_def buildCloudProvider_def
      Initialize_def Register_def contextNamespace_def DefaultNamespace_def delete_env_def empty_env_def
      other_error_def resp_err_def lb_name_of_def Let_def)

definition guest_env :: env where
  "guest_env = empty_env\<lparr>envGuestOsInfo := (\<lambda>h ns n. Ok ''node1'')\<rparr>"

lemma guest_history:
  "op_trace (startProvider guest_env zero_config []) (OpVmiChanged (Some driver_vmi)) [] =
   [GuestOsInfo ''default'' ''vm1'' (Ok ''node1''), StoreVMName ''node1'' ''vm1'', NodeCacheGet ''node1'' (Fail not_found None)]"
proof -
  let ?h = "\<lparr>hClients = guest_env, hNamespace = ''default'', hConfig = zero_config\<rparr>"
  have "\<not> skipsVmi ?h driver_vmi"
    using driver_vmi_handled [of "Fail not_found None"] by (simp add: skipsVmi_def demo_handler_def)
  moreover have "vmiName driver_vmi = ''vm1''" "vmiNamespace driver_vmi = ''default''"
    by (simp_all add: driver_vmi_def demo_vmi_def)
  ultimately show ?thesis
    by (simp add: OnVmiChanged_def nodeNameOfVmi_def contextNamespace_def DefaultNamespace_def zero_config_def)
      (simp add: guest_env_def empty_env_def)
qed

end
