(* ===== verification/Sharing.thy ===== *)
theory Sharing
  imports ServiceStore Progress CloudProvider
begin

text \<open>
  Sharing one address between services: two services clash if they use one address and have a port in common.  The
  provider makes two services clash only when its cache, or the service it was called with, was out of date; and then it does:
  the check of the ports refuses a service exactly because of what the cache lists.
\<close>

section \<open>Clashes\<close>

text \<open>The first service is labelled with the primary service of the second, or with the second service itself.\<close>

definition clash :: "share_view \<Rightarrow> string \<times> string \<Rightarrow> string \<times> string \<Rightarrow> bool" where
  "clash V a b \<longleftrightarrow> (case (V a, V b) of
     (Some x, Some y) \<Rightarrow> a \<noteq> b \<and> shLabel x \<noteq> [] \<and> (shLabel y = shLabel x \<or> primary_label b = shLabel x) \<and>
        set (shPorts x) \<inter> set (shPorts y) \<noteq> {}
   | _ \<Rightarrow> False)"

definition unique_uids :: "share_view \<Rightarrow> bool" where
  "unique_uids V \<longleftrightarrow> (\<forall>k x k' y. V k = Some x \<longrightarrow> V k' = Some y \<longrightarrow> shUID x = shUID y \<longrightarrow> k = k')"

text \<open>Namespaces are DNS labels, so the label of a primary service names it.\<close>

definition dotless :: "share_view \<Rightarrow> bool" where
  "dotless V \<longleftrightarrow> (\<forall>k. V k \<noteq> None \<longrightarrow> CHR ''.'' \<notin> set (fst k))"

lemma clash_iff: "clash V a b \<longleftrightarrow> (\<exists>x y. V a = Some x \<and> V b = Some y \<and> a \<noteq> b \<and> shLabel x \<noteq> [] \<and>
    (shLabel y = shLabel x \<or> primary_label b = shLabel x) \<and> set (shPorts x) \<inter> set (shPorts y) \<noteq> {})"
  by (auto simp: clash_def split: option.splits)

lemma primary_label_inj:
  assumes "CHR ''.'' \<notin> set (fst k)" "CHR ''.'' \<notin> set (fst k')" "primary_label k = primary_label k'"
  shows "k = k'"
proof -
  have "takeWhile (\<lambda>c. c \<noteq> CHR ''.'') (primary_label k) = fst k" if "CHR ''.'' \<notin> set (fst k)" for k
    using that unfolding primary_label_def by (subst takeWhile_append2) auto
  then have "fst k = fst k'" using assms by metis
  then show ?thesis using assms(3) by (simp add: primary_label_def prod_eq_iff)
qed

text \<open>Relabelling the service at \<open>k\<close> makes no two services clash if it is not labelled, or is apart from the users of the address.\<close>

lemma relabel_clash:
  assumes "V k = Some x" "clash (V(k \<mapsto> x\<lparr>shLabel := lab\<rparr>)) a b" "\<not> clash V a b"
  shows "lab \<noteq> []" "(\<exists>c y. {a, b} = {k, c} \<and> c \<noteq> k \<and> V c = Some y \<and> (shLabel y = lab \<or> primary_label c = lab) \<and>
    set (shPorts y) \<inter> set (shPorts x) \<noteq> {})"
proof -
  let ?V = "V(k \<mapsto> x\<lparr>shLabel := lab\<rparr>)"
  obtain u v where uv: "?V a = Some u" "?V b = Some v" "a \<noteq> b" "shLabel u \<noteq> []" "shLabel v = shLabel u \<or> primary_label b = shLabel u"
    "set (shPorts u) \<inter> set (shPorts v) \<noteq> {}" using assms(2) unfolding clash_iff by blast
  have *: "(a = k \<or> b = k \<and> shLabel u = lab) \<and> lab \<noteq> []"
  proof (rule ccontr)
    assume *: "\<not> ((a = k \<or> b = k \<and> shLabel u = lab) \<and> lab \<noteq> [])"
    then have "a \<noteq> k" using uv(1,4) by auto
    moreover from this * have "b = k \<longrightarrow> primary_label b = shLabel u" using uv(2,4,5) by auto
    ultimately have "clash V a b" using uv assms(1) unfolding clash_iff by (cases "b = k") auto
    with assms(3) show False by blast
  qed
  then show "lab \<noteq> []" by blast
  from * show "\<exists>c y. {a, b} = {k, c} \<and> c \<noteq> k \<and> V c = Some y \<and> (shLabel y = lab \<or> primary_label c = lab) \<and> set (shPorts y) \<inter> set (shPorts x) \<noteq> {}"
  proof (elim conjE disjE)
    assume "a = k"
    then show ?thesis using uv by (intro exI [of _ b] exI [of _ v]) auto
  next
    assume "b = k" "shLabel u = lab"
    then show ?thesis using uv by (intro exI [of _ a] exI [of _ u]) auto
  qed
qed

lemma step_clash:
  assumes "share_step seen svc V V'" "unique_uids V" "dotless V" "\<forall>W\<in>seen. dotless W"
    and "clash V' a b" "\<not> clash V a b" "\<forall>x. V (svc_id svc) = Some x \<longrightarrow> shPorts x = svcPorts svc"
  shows "svc_id svc \<in> {a, b} \<and> (\<exists>W\<in>seen. \<exists>c\<in>{a, b} - {svc_id svc}. W c \<noteq> V c)"
  using assms(1)
proof cases
  case (release x)
  have "[] \<noteq> ([] :: string)" by (rule relabel_clash(1) [of V, OF release(2) assms(5) [unfolded release(1)] assms(6)])
  then show ?thesis by simp
next
  case (join x P C q p)
  obtain c y where c: "{a, b} = {svc_id svc, c}" "c \<noteq> svc_id svc" and y: "V c = Some y" "shLabel y = primary_label q \<or> primary_label c = primary_label q"
      "set (shPorts y) \<inter> set (shPorts x) \<noteq> {}"
    using relabel_clash(2) [of V, OF join(2) assms(5) [unfolded join(1)] assms(6)] by blast
  have uid: "shUID y \<noteq> svcUID svc" using assms(2) y(1) join(2,3) c(2) unfolding unique_uids_def by metis
  have "c = q" if "primary_label c = primary_label q"
    using primary_label_inj [OF _ _ that] assms(3,4) y(1) join(4,6) unfolding dotless_def by blast
  then have "P c \<noteq> V c \<or> C c \<noteq> V c"
    using join(7) y uid join(2) assms(7) unfolding ports_free_def by metis
  with c join(4,5) show ?thesis by blast
qed

section \<open>Operations of the provider\<close>

text \<open>The service an operation was called with, if it may update it.\<close>

fun op_service :: "operation \<Rightarrow> service option" where
  "op_service (OpEnsureLoadBalancer cl svc) = Some svc"
| "op_service (OpUpdateLoadBalancer cl svc) = Some svc"
| "op_service _ = None"

lemma no_acked_update:
  assumes "op_service op = None" "e \<in> set (op_trace cp op h)"
  shows "\<not> acked_update e"
proof -
  have read: "acked_update e \<Longrightarrow> is_write e" by (cases e) auto
  have vmi: "\<not> acked_update e" if "e \<in> set (trace_of (OnVmiChanged vh vo) h)" for vh vo
  proof (cases vo)
    case (Some v)
    then have "\<exists>pre. vmi_write_ok vh v pre e"
      using that OnVmiChanged_writes [of vh v] always_memD unfolding holds_def by blast
    then show ?thesis by (cases e; fastforce)
  qed (use that in \<open>simp add: OnVmiChanged_def\<close>)
  have del: "holds (\<lambda>_ e. \<forall>s r. e \<noteq> SvcUpdate s r) (EnsureLoadBalancerDeleted l cl svc)" for l cl svc
    unfolding EnsureLoadBalancerDeleted_def by (intro holds_bind holds_branches holds_ret holds_reads no_update_pred no_update_lb)
  have "\<not> acked_update e" if e: "e \<in> set (trace_of (EnsureLoadBalancerDeleted l cl svc) h)" for l cl svc
  proof -
    have "\<forall>s r. e \<noteq> SvcUpdate s r" using always_memD [OF conjunct2 [OF del [unfolded holds_def], rule_format] e] by blast
    then show ?thesis by (cases e) auto
  qed
  with assms read vmi show ?thesis
    using GetLoadBalancer_read_only instances_reads by (cases op) (auto simp: read_only_def split: option.splits)
qed

lemma op_trace_service:
  assumes "op_service op = Some svc"
  obtains cl where "op_trace (startProvider E cfg ns) op h = trace_of (EnsureLoadBalancer (loadBalancers (startProvider E cfg ns)) cl svc) h"
    "lmClients (loadBalancers (startProvider E cfg ns)) = E"
proof -
  have "lmClients (loadBalancers (startProvider E cfg ns)) = E"
    by (simp add: startProvider_def Initialize_def Register_def buildCloudProvider_def Let_def)
  with assms that show thesis by (cases op) (auto simp: update_trace)
qed

section \<open>Properties\<close>

text \<open>C3: The provider lets two services that share an address have a port in common only because of outdated
  information.  Whatever other clients do and however the cache lags, if the acknowledged write of an operation makes two services
  clash that did not clash on the server before, then the operation was for one of them, and
  either it was called with ports that are not those on the server, or, at some call of the run, the cache did not show the other one as
  it is on the server when the write is acknowledged.\<close>

theorem clash_needs_stale_data:
  assumes "cached_services E sv ca" "op_trace (startProvider E cfg ns) op h = pre @ SvcUpdate s (Ok r) # post"
    and "unique_uids (view (sv (h @ pre)))"
    and "clash (view ((sv (h @ pre))(svc_id s \<mapsto> s))) a b" "\<not> clash (view (sv (h @ pre))) a b"
  shows "\<exists>svc. op_service op = Some svc \<and> svc_id svc = svc_id s \<and> svc_id svc \<in> {a, b} \<and>
    ((\<exists>x. sv (h @ pre) (svc_id svc) = Some x \<and> svcPorts x \<noteq> svcPorts svc) \<or>
     (\<exists>u c. prefix u pre \<and> c \<in> {a, b} - {svc_id svc} \<and> view (ca (h @ u)) c \<noteq> view (sv (h @ pre)) c))"
proof -
  let ?V = "view (sv (h @ pre))" and ?seen = "{view (ca (h @ u)) |u. prefix u pre}"
  have "SvcUpdate s (Ok r) \<in> set (op_trace (startProvider E cfg ns) op h)" by (simp add: assms(2))
  then have "op_service op \<noteq> None" using no_acked_update by fastforce
  then obtain svc where svc: "op_service op = Some svc" by blast
  obtain cl where "trace_of (EnsureLoadBalancer (loadBalancers (startProvider E cfg ns)) cl svc) h = pre @ SvcUpdate s (Ok r) # post"
    "E = lmClients (loadBalancers (startProvider E cfg ns))"
    using op_trace_service [OF svc] assms(2) by metis
  note step = cached_services.update_step [OF assms(1) this(2,1)]
  have "dotless (view (sv h'))" "dotless (view (ca h'))" for h'
    using cached_services.keyed [OF assms(1)] unfolding dotless_def view_def by (metis map_option_eq_Some not_None_eq)+
  then have named: "dotless ?V" "\<forall>W\<in>?seen. dotless W" by blast+
  have "svc_id svc \<in> {a, b} \<and> (\<exists>W\<in>?seen. \<exists>c\<in>{a, b} - {svc_id svc}. W c \<noteq> ?V c)"
    if "\<forall>x. sv (h @ pre) (svc_id svc) = Some x \<longrightarrow> svcPorts x = svcPorts svc"
    by (rule step_clash [OF step(2) assms(3) named assms(4,5)]) (use that in \<open>auto simp: view_def share_of_def\<close>)
  moreover have "svc_id svc \<in> {a, b}"
  proof (rule ccontr)
    assume "svc_id svc \<notin> {a, b}"
    then have "view ((sv (h @ pre))(svc_id s \<mapsto> s)) k = ?V k" if "k \<in> {a, b}" for k using that step(1) by (auto simp: view_def)
    then show False using assms(4,5) by (simp add: clash_def)
  qed
  ultimately have "(\<exists>x. sv (h @ pre) (svc_id svc) = Some x \<and> svcPorts x \<noteq> svcPorts svc) \<or>
     (\<exists>u c. prefix u pre \<and> c \<in> {a, b} - {svc_id svc} \<and> view (ca (h @ u)) c \<noteq> ?V c)" by blast
  then show ?thesis using svc step(1) \<open>svc_id svc \<in> {a, b}\<close> by (intro exI [of _ svc]) simp
qed

text \<open>C39: The check of the ports sees the other users of the address only through the cache.  Take a service that names an existing
  primary service with an address, and another service that has joined this primary service and has a port in common
  with it.  If the cache lists the other service, the run fails and writes nothing.  If no listing of the cache
  has it, and nothing else stands in the way, the run labels the service, so that on the server the two services clash.\<close>

theorem port_check_trusts_cache:
  assumes "result_of (resolveNetworkInterface l svc) h = Inr ifc" "h1 = h @ trace_of (resolveNetworkInterface l svc) h"
    and "result_of (getPrimaryService l svc) h1 = Inr (Some primary)" "h2 = h1 @ trace_of (getPrimaryService l svc) h1"
    and "svcIngress primary = ing # rest" "lab = primaryServiceLabelValue primary"
    and "svcUID rival \<noteq> svcUID svc" "svc_id rival \<noteq> svc_id svc" "mget (svcLabels rival) KeyPrimaryService = lab"
    and "set (svcPorts rival) \<inter> set (svcPorts svc) \<noteq> {}"
  shows "(\<forall>xs. envSvcCacheList (lmClients l) h2 NamespaceAll (KeyPrimaryService, lab) = Ok xs \<longrightarrow> rival \<in> set xs \<longrightarrow>
      snd (result_of (EnsureLoadBalancer l cl svc) h) \<noteq> None \<and> read_only (trace_of (EnsureLoadBalancer l cl svc) h)) \<and>
    (may_join l cl primary svc h \<longrightarrow> cluster_responds l svc h \<longrightarrow> no_wait_timeout (lmClients l) \<longrightarrow>
     (\<forall>t. envSvcCacheGet (lmClients l) (h @ t) (svcNamespace svc) (svcName svc) = Ok svc) \<longrightarrow>
     \<not> isSecondaryServiceUpdatedWithPrimary primary svc (ingIP ing) lab \<longrightarrow>
      (\<exists>s r. SvcUpdate s (Ok r) \<in> set (trace_of (EnsureLoadBalancer l cl svc) h) \<and>
        (\<forall>S. S (svc_id rival) = Some rival \<longrightarrow> clash (view (S(svc_id s \<mapsto> s))) (svc_id svc) (svc_id rival))))"
proof (intro conjI allI impI)
  let ?E = "ensureSecondaryLoadBalancer l cl primary svc"
  have run: "result_of (EnsureLoadBalancer l cl svc) h = result_of ?E h2"
    "trace_of (EnsureLoadBalancer l cl svc) h = trace_of (resolveNetworkInterface l svc) h @ trace_of (getPrimaryService l svc) h1 @ trace_of ?E h2"
    using assms(1-4) by (simp_all add: EnsureLoadBalancer_def)
  {
    fix xs
    assume "envSvcCacheList (lmClients l) h2 NamespaceAll (KeyPrimaryService, lab) = Ok xs" "rival \<in> set xs"
    then have "result_of (checkPortOverlap l primary svc) h2 \<noteq> None"
      using assms(6,7,10) by (auto simp: checkPortOverlap_def portOverlapLoop_None)
    then have "snd (result_of ?E h2) \<noteq> None" "trace_of ?E h2 = trace_of (checkPortOverlap l primary svc) h2"
      using assms(5) by (auto simp: ensureSecondaryLoadBalancer_def)
    then show "snd (result_of (EnsureLoadBalancer l cl svc) h) \<noteq> None" "read_only (trace_of (EnsureLoadBalancer l cl svc) h)"
      unfolding run using read_only_reads by (auto simp: read_only_def)
  }
  assume join: "may_join l cl primary svc h" "cluster_responds l svc h" "no_wait_timeout (lmClients l)"
    "\<forall>t. envSvcCacheGet (lmClients l) (h @ t) (svcNamespace svc) (svcName svc) = Ok svc"
    "\<not> isSecondaryServiceUpdatedWithPrimary primary svc (ingIP ing) lab"
  obtain t where t: "h2 = h @ t" using assms(2,4) by simp
  let ?U = "retryUpdateService l svc ''secondary'' (ingIP ing) lab (updateSecondaryServiceObject primary)"
  let ?C = "checkPortOverlap l primary svc" and ?N = "checkNetworkChanged l svc (lb_name_of cl primary) True" and ?D = "deleteLoadBalancer l cl svc"
  define u where "u = t @ trace_of ?C h2"
  define v where "v = u @ trace_of ?N (h @ u)"
  define w where "w = v @ trace_of ?D (h @ v)"
  have "trace_of ?E h2 = trace_of ?C h2 @ trace_of ?N (h @ u) @ trace_of ?D (h @ v) @ trace_of ?U (h @ w)"
    using join(5) assms(5,6) join_progress [OF join(1)]
    by (simp add: ensureSecondaryLoadBalancer_def updateSecondaryServiceLoadBalancerIP_def Let_def lb_name_of_def [symmetric] t u_def v_def w_def)
  moreover from retryUpdateService_success [OF join(3) retryUpdateService_progress [OF join(2)]]
  obtain x old r where x: "trace_of ?U (h @ w) = x @ [SvcCacheGet (svcNamespace svc) (svcName svc) (Ok old)] @
      SvcUpdate (updateSecondaryServiceObject primary old (ingIP ing) lab) (Ok r) # []" by fastforce
  moreover have "old = svc"
    using answered_split [OF answered_stages(7) [OF refl], of l svc "''secondary''" "ingIP ing" lab "updateSecondaryServiceObject primary"
        "h @ w" x "SvcCacheGet (svcNamespace svc) (svcName svc) (Ok old)"] x join(4) by simp
  moreover have "clash (view (S(svc_id s \<mapsto> s))) (svc_id svc) (svc_id rival)"
    if s: "s = updateSecondaryServiceObject primary svc (ingIP ing) lab" and S: "S (svc_id rival) = Some rival" for s S
  proof -
    have "svc_id s = svc_id svc" "svcPorts s = svcPorts svc" "mget (svcLabels s) KeyPrimaryService = lab"
      by (simp_all add: s updateSecondaryServiceObject_def svc_id_def Let_def)
    then show ?thesis using S assms(6,8-10) by (auto simp: clash_def view_def share_of_def primaryServiceLabelValue_id)
  qed
  ultimately show "\<exists>s r. SvcUpdate s (Ok r) \<in> set (trace_of (EnsureLoadBalancer l cl svc) h) \<and>
      (\<forall>S. S (svc_id rival) = Some rival \<longrightarrow> clash (view (S(svc_id s \<mapsto> s))) (svc_id svc) (svc_id rival))"
    unfolding run by (intro exI [of _ "updateSecondaryServiceObject primary svc (ingIP ing) lab"] exI [of _ r]) simp
qed

section \<open>Witnesses\<close>

lemma joined_simps:
  "svc_id joined = (''default'', ''web'')" "svcPorts joined = [80]" "svcUID joined = ''u1''" "mget (svcLabels joined) KeyPrimaryService = ''default.main''"
  "svc_id demo_primary = (''default'', ''main'')" "svc_id demo_joining = (''default'', ''web'')"
  by (simp_all add: joined_def updateSecondaryServiceObject_def svc_id_def demo_joining_simps demo_primary_simps Let_def)

lemma rival_view:
  "lookup_store demo_services (rival_past @ joining_past) k = (if k = (''default'', ''other'') then Some rival_joined
     else if k = (''default'', ''main'') then Some demo_primary else if k = (''default'', ''web'') then Some demo_joining else None)"
  by (simp add: lookup_store_def joining_past_def stored_def rival_simps joined_simps)

text \<open>The server has a service with port 80 under the label; the cache does not show the label yet.\<close>

theorem clash_needs_stale_data_witness:
  "\<exists>svc. op_service (OpEnsureLoadBalancer ''c1'' demo_joining) = Some svc \<and> svc_id svc = svc_id joined \<and>
    svc_id svc \<in> {(''default'', ''web''), (''default'', ''other'')} \<and>
    ((\<exists>x. lookup_store demo_services (rival_past @ joining_past) (svc_id svc) = Some x \<and> svcPorts x \<noteq> svcPorts svc) \<or>
     (\<exists>u c. prefix u joining_past \<and> c \<in> {(''default'', ''web''), (''default'', ''other'')} - {svc_id svc} \<and>
        view (lookup_store demo_services (lagged 1 (rival_past @ u))) c \<noteq> view (lookup_store demo_services (rival_past @ joining_past)) c))"
proof (rule clash_needs_stale_data)
  show "cached_services (serve 1 demo_services empty_env) (lookup_store demo_services) (\<lambda>h. lookup_store demo_services (lagged 1 h))"
    by (rule served.cached_services_axioms)
  have "loadBalancers (startProvider (serve 1 demo_services empty_env) zero_config []) = store_manager"
    by (simp add: startProvider_def Initialize_def Register_def buildCloudProvider_def store_manager_def contextNamespace_def DefaultNamespace_def Let_def)
  then show "op_trace (startProvider (serve 1 demo_services empty_env) zero_config []) (OpEnsureLoadBalancer ''c1'' demo_joining) rival_past =
      joining_past @ SvcUpdate joined (Ok joined) # []" by (simp add: joining_run del: One_nat_def)
  show "unique_uids (view (lookup_store demo_services (rival_past @ joining_past)))"
    unfolding unique_uids_def view_def rival_view
    by (auto simp: share_of_def rival_simps demo_joining_simps demo_primary_simps split: if_splits)
  show "clash (view ((lookup_store demo_services (rival_past @ joining_past))(svc_id joined \<mapsto> joined))) (''default'', ''web'') (''default'', ''other'')"
    unfolding clash_def view_def fun_upd_apply rival_view by (simp add: share_of_def rival_simps joined_simps)
  show "\<not> clash (view (lookup_store demo_services (rival_past @ joining_past))) (''default'', ''web'') (''default'', ''other'')"
    unfolding clash_def view_def rival_view by (simp add: share_of_def demo_joining_simps)
qed

text \<open>One cluster whose cache lists the other service, and one whose cache does not.\<close>

definition listing_manager :: "service list \<Rightarrow> lb_manager" where
  "listing_manager xs = \<lparr>lmClients = empty_env\<lparr>
       envSvcCacheGet := (\<lambda>h ns n. Ok (if n = ''main'' then demo_primary else demo_joining)),
       envSvcCacheList := (\<lambda>h ns sel. Ok (if sel = (KeyPrimaryService, ''default.main'') then xs else []))\<rparr>,
     lmNamespace = ''default'', lmConfig = zero_config\<rparr>"

lemma listing_run:
  "resolveNetworkInterface (listing_manager xs) demo_joining = ret (Inr [])"
  "result_of (getPrimaryService (listing_manager xs) demo_joining) h = Inr (Some demo_primary)"
  "primaryServiceLabelValue demo_primary = ''default.main''" "primaryServiceLabelValue demo_joining = ''default.web''"
  "svcIngress demo_primary = [\<lparr>ingIP = ''10.0.0.5''\<rparr>]"
proof -
  have split: "split_n2 (CHR ''/'') ''default/main'' = [''default'', ''main'']" by code_simp
  show "result_of (getPrimaryService (listing_manager xs) demo_joining) h = Inr (Some demo_primary)"
    by (simp add: getPrimaryService_def demo_joining_simps split listing_manager_def demo_primary_simps)
qed (simp_all add: resolveNetworkInterface_def primaryServiceLabelValue_def demo_joining_simps demo_primary_simps)

lemma listing_may_join:
  "may_join (listing_manager []) ''c1'' demo_primary demo_joining []" "cluster_responds (listing_manager []) demo_joining []"
  "no_wait_timeout (lmClients (listing_manager []))"
  "envSvcCacheGet (lmClients (listing_manager [])) h (svcNamespace demo_joining) (svcName demo_joining) = Ok demo_joining"
  "\<not> isSecondaryServiceUpdatedWithPrimary demo_primary demo_joining ''10.0.0.5'' ''default.main''"
  by (simp_all add: may_join_def cluster_responds_def no_wait_timeout_def listing_manager_def empty_env_def listing_run demo_joining_simps
      demo_primary_simps isSecondaryServiceUpdatedWithPrimary_def)

theorem port_check_trusts_cache_witness:
  "snd (result_of (EnsureLoadBalancer (listing_manager [rival_joined]) ''c1'' demo_joining) []) \<noteq> None \<and>
   read_only (trace_of (EnsureLoadBalancer (listing_manager [rival_joined]) ''c1'' demo_joining) []) \<and>
   (\<exists>s r. SvcUpdate s (Ok r) \<in> set (trace_of (EnsureLoadBalancer (listing_manager []) ''c1'' demo_joining) []) \<and>
      (\<forall>S. S (svc_id rival_joined) = Some rival_joined \<longrightarrow> clash (view (S(svc_id s \<mapsto> s))) (svc_id demo_joining) (svc_id rival_joined)))"
proof -
  have r: "result_of (resolveNetworkInterface (listing_manager xs) demo_joining) [] = Inr []" for xs by (simp add: listing_run)
  have rival: "svcUID rival_joined \<noteq> svcUID demo_joining" "svc_id rival_joined \<noteq> svc_id demo_joining"
    "mget (svcLabels rival_joined) KeyPrimaryService = primaryServiceLabelValue demo_primary" "set (svcPorts rival_joined) \<inter> set (svcPorts demo_joining) \<noteq> {}"
    by (simp_all add: rival_simps joined_simps demo_joining_simps listing_run)
  note check = port_check_trusts_cache [OF r refl listing_run(2) refl listing_run(5) refl rival, of _ "''c1''"]
  have "envSvcCacheList (lmClients (listing_manager [rival_joined])) h NamespaceAll (KeyPrimaryService, primaryServiceLabelValue demo_primary) =
      Ok [rival_joined]" for h by (simp add: listing_manager_def listing_run)
  with check [of "[rival_joined]", THEN conjunct1] check [of "[]", THEN conjunct2] listing_may_join
  show ?thesis by (simp add: listing_run)
qed

end
