(* ===== verification/LBStore.thy ===== *)
theory LBStore
  imports Progress
begin

text \<open>
  What the load balancer manager does to the load balancers of Harvester.  A store gives the
  answers of the Harvester API (the locale \<open>lb_store\<close>); its controllers may change the status of a
  load balancer at any time, so only the part the guest cluster owns, \<open>lb_spec\<close>, is observed.
  A successful run of \<open>EnsureLoadBalancer\<close> for a primary service is then one function on the map of
  load balancers, it is idempotent, and no run touches the load balancer of another service.
\<close>

section \<open>Specifications of load balancers\<close>

type_synonym lb_map = "string \<times> string \<Rightarrow> loadbalancer option"

text \<open>Without the status.\<close>

definition lb_spec :: "loadbalancer \<Rightarrow> loadbalancer" where
  "lb_spec lb = lb\<lparr>lbAddress := [], lbAllocatedIP := [], lbConditions := []\<rparr>"

definition specs :: "lb_map \<Rightarrow> lb_map" where
  "specs S k = map_option lb_spec (S k)"

definition lb_id :: "loadbalancer \<Rightarrow> string \<times> string" where
  "lb_id lb = (lbNamespace lb, lbName lb)"

text \<open>The key of the load balancer of a service, and the specification \<open>EnsureLoadBalancer\<close>
  establishes from the present one.\<close>

definition lb_key :: "lb_manager \<Rightarrow> string \<Rightarrow> service \<Rightarrow> string \<times> string" where
  "lb_key l cl svc = (lmNamespace l, lb_name_of cl svc)"

definition ensured :: "lb_manager \<Rightarrow> string \<Rightarrow> service \<Rightarrow> loadbalancer option \<Rightarrow> loadbalancer" where
  "ensured l cl svc old = lb_spec (constructLB l old svc (lb_name_of cl svc) cl)"

lemma lb_name_of_not_Nil [simp]: "lb_name_of cl svc \<noteq> []"
  by (metis append_is_Nil_conv hex8_length lb_name_of_def list.size(3) loadBalancerName_bounds zero_neq_numeral)

lemma lb_spec_idem [simp]: "lb_spec (lb_spec lb) = lb_spec lb"
  by (simp add: lb_spec_def)

lemma lb_spec_annotations: "lbAnnotations (lb_spec lb) = lbAnnotations lb"
  by (simp add: lb_spec_def)

lemma lb_spec_eqI:
  "\<lbrakk>lb_id a = lb_id b; lbLabels a = lbLabels b; lbAnnotations a = lbAnnotations b; lbAPIVersion a = lbAPIVersion b;
    lbIPAM a = lbIPAM b; lbWorkloadType a = lbWorkloadType b\<rbrakk> \<Longrightarrow> lb_spec a = lb_spec b"
  for a b :: loadbalancer
  by (intro loadbalancer.equality) (simp_all add: lb_spec_def lb_id_def)

lemma ensured_spec: "ensured l cl svc (map_option lb_spec old) = ensured l cl svc old"
  by (cases old) (auto simp: ensured_def constructLB_def absentLB_def lb_spec_def patchLBObject_def Let_def
      split: list.split option.split sum.split)

lemma constructLB_id:
  "lb_id (constructLB l old svc n cl) = (if absentLB old then (lmNamespace l, n) else lb_id (the old))"
  by (auto simp: lb_id_def constructLB_def newLBObject_def patchLBObject_def Let_def split: list.split)

lemma constructLB_name: "n \<noteq> [] \<Longrightarrow> lbName (constructLB l old svc n cl) \<noteq> []"
  using constructLB_id [of l old svc n cl] by (auto simp: lb_id_def absentLB_def split: if_splits option.splits)

text \<open>Constructing the object again from its own result changes nothing.\<close>

lemma gomap_eqI: "m \<noteq> None \<Longrightarrow> m' \<noteq> None \<Longrightarrow> (\<And>k. mlookup m k = mlookup m' k) \<Longrightarrow> m = m'"
  by (auto simp: mlookup_def intro: fmap_ext)

lemma constructLB_labels:
  "lbLabels (constructLB l old svc n cl) \<noteq> None"
  "mlookup (lbLabels (constructLB l old svc n cl)) k =
     (if k = LBServiceNameKey then Some (svcName svc) else if k = LBServiceNamespaceKey then Some (svcNamespace svc)
      else if k = LBClusterNameKey then Some cl else if absentLB old then None else mlookup (lbLabels (the old)) k)"
  by (auto simp: constructLB_def patchLBObject_def newLBObject_def mlookup_def [of None] Let_def
      simp del: not_None_eq split: list.split)

lemma constructLB_annotations:
  "lbAnnotations (constructLB l old svc n cl) \<noteq> None"
  "mlookup (lbAnnotations (constructLB l old svc n cl)) k =
     (if k = AnnotationKeyGuestClusterManagementNetworkOnLB then
        (case GetManagementNetwork (Some (lmConfig l)) of None \<Rightarrow> None
         | Some m \<Rightarrow> (case NormalizeNetworkName NetworkTypeManagement m of Inl _ \<Rightarrow> None | Inr t \<Rightarrow> Some t))
      else if k = AnnotationKeyCluster then Some cl
      else if k = AnnotationKeyNamespace then Some (mget (svcAnnotations svc) KeyNamespace)
      else if k = AnnotationKeyProject then Some (mget (svcAnnotations svc) KeyProject)
      else if \<not> absentLB old then mlookup (lbAnnotations (the old)) k
      else if k = AnnotationKeyNetworkOnLB \<or> k = AnnotationKeyNetwork then Some (mget (svcAnnotations svc) KeyNetwork)
      else None)"
  by (auto simp: constructLB_def patchLBObject_def newLBObject_def mlookup_def [of None] Let_def
      simp del: not_None_eq split: list.split option.split sum.split)

lemma constructLB_rest:
  "lbIPAM (constructLB l old svc n cl) = (case mlookup (svcAnnotations svc) KeyIPAM of Some m \<Rightarrow> m | None \<Rightarrow> ''pool'')"
  "lbWorkloadType (constructLB l old svc n cl) = ''cluster''"
  "lbAPIVersion (constructLB l old svc n cl) = (if absentLB old then ''loadbalancer.harvesterhci.io/v1beta1'' else lbAPIVersion (the old))"
  by (auto simp: constructLB_def patchLBObject_def newLBObject_def Let_def split: list.split)

lemma ensured_idem: "ensured l cl svc (Some (ensured l cl svc old)) = ensured l cl svc old"
proof -
  let ?n = "lb_name_of cl svc" and ?e = "ensured l cl svc old"
  let ?a = "constructLB l old svc ?n cl" and ?b = "constructLB l (Some ?e) svc ?n cl"
  have e: "lb_id ?e = lb_id ?a" "lbLabels ?e = lbLabels ?a" "lbAnnotations ?e = lbAnnotations ?a" "lbAPIVersion ?e = lbAPIVersion ?a"
    by (simp_all add: ensured_def lb_spec_def lb_id_def)
  have p: "\<not> absentLB (Some ?e)" using constructLB_name [of ?n l old svc cl] e(1) by (simp add: absentLB_def lb_id_def)
  have "lbLabels ?b = lbLabels ?a"
    by (rule gomap_eqI) (use p in \<open>simp_all add: constructLB_labels e del: not_None_eq\<close>)
  moreover have "lbAnnotations ?b = lbAnnotations ?a"
    by (rule gomap_eqI) (use p in \<open>simp_all add: constructLB_annotations e del: not_None_eq\<close>)
  moreover have "lb_id ?b = lb_id ?a" using p by (simp add: constructLB_id [of l "Some ?e"] e)
  moreover have "lbAPIVersion ?b = lbAPIVersion ?a" using p by (simp add: constructLB_rest(3) [of l "Some ?e"] e)
  ultimately have "lb_spec ?b = lb_spec ?a" by (intro lb_spec_eqI) (simp_all add: constructLB_rest(1,2))
  then show ?thesis by (simp only: ensured_def)
qed

section \<open>The store behind the Harvester API\<close>

text \<open>The load balancer a write is about.\<close>

fun lb_written :: "event \<Rightarrow> (string \<times> string) option" where
  "lb_written (LbCreate lb r) = Some (lb_id lb)"
| "lb_written (LbUpdate lb r) = Some (lb_id lb)"
| "lb_written (LbDelete ns n r) = Some (ns, n)"
| "lb_written _ = None"

text \<open>Writes of no load balancer, or of one only.\<close>

lemma only_reads: "allows_reads (\<lambda>_ e. lb_written e = None)" "allows_reads (\<lambda>_ e. lb_written e = None \<or> lb_written e = Some k)"
proof -
  have "\<not> is_write e \<Longrightarrow> lb_written e = None" for e by (cases e) auto
  then show "allows_reads (\<lambda>_ e. lb_written e = None)" "allows_reads (\<lambda>_ e. lb_written e = None \<or> lb_written e = Some k)"
    by (auto simp: allows_reads_def)
qed

lemma retryUpdateService_no_lb: "holds (\<lambda>_ e. lb_written e = None) (retryUpdateService l svc ty ip lab upd)"
proof -
  have "holds (\<lambda>_ e. lb_written e = None) (retryFunc l svc ty ip lab upd u)" for u
    by (auto simp: holds_def retryFunc_def split: resp.split)
  then show ?thesis unfolding retryUpdateService_def by (intro holds_bind holds_retry) auto
qed

lemma updatePrimary_no_lb: "holds (\<lambda>_ e. lb_written e = None) (updatePrimaryServiceLoadBalancerIP l n svc)"
  unfolding updatePrimaryServiceLoadBalancerIP_def
  by (intro holds_bind holds_branches holds_reads only_reads holds_ret holds_waitForIP retryUpdateService_no_lb monoP_const)

text \<open>
  The laws of the store.  They say nothing of a load balancer whose deletion was acknowledged: the controller of
  Harvester keeps it, until its own finalizer is done.
\<close>

locale lb_store =
  fixes E :: env and st :: "history \<Rightarrow> lb_map"
  assumes keyed: "st h k = Some lb \<Longrightarrow> lb_id lb = k \<and> lbName lb \<noteq> []"
    and get_found: "envLbGet E h ns n = Ok lb \<Longrightarrow> st h (ns, n) = Some lb"
    and get_missing: "envLbGet E h ns n = Fail err x \<Longrightarrow> IsNotFound err \<Longrightarrow> st h (ns, n) = None \<and> absentLB x"
    and created: "lbName lb \<noteq> [] \<Longrightarrow> specs (st (h @ [LbCreate lb (Ok r)])) = (specs (st h))(lb_id lb \<mapsto> lb_spec lb)"
    and updated: "lbName lb \<noteq> [] \<Longrightarrow> specs (st (h @ [LbUpdate lb (Ok r)])) = (specs (st h))(lb_id lb \<mapsto> lb_spec lb)"
    and frame: "lb_written e \<noteq> Some k \<Longrightarrow> specs (st (h @ [e])) k = specs (st h) k"
begin

lemma frame_trace: "\<forall>e\<in>set t. lb_written e \<noteq> Some k \<Longrightarrow> specs (st (h @ t)) k = specs (st h) k"
proof (induction t rule: rev_induct)
  case (snoc e t)
  then show ?case using frame [of e k "h @ t"] by simp
qed simp

lemma silent_trace: "\<forall>e\<in>set t. lb_written e = None \<Longrightarrow> specs (st (h @ t)) = specs (st h)"
  by (rule ext, rule frame_trace) simp

lemma silent_specs: "holds (\<lambda>_ e. lb_written e = None) m \<Longrightarrow> specs (st (h @ trace_of m h)) = specs (st h)"
  unfolding holds_def by (intro silent_trace ballI) (use always_memD in blast)

lemma createOrUpdate_specs:
  assumes "E = lmClients l" "result_of (createOrUpdateLoadBalancer l (lb_name_of cl svc) cl svc) h = None"
  shows "specs (st (h @ trace_of (createOrUpdateLoadBalancer l (lb_name_of cl svc) cl svc) h)) =
    (specs (st h))(lb_key l cl svc \<mapsto> ensured l cl svc (specs (st h) (lb_key l cl svc)))"
proof (cases "envLbGet E h (lmNamespace l) (lb_name_of cl svc)")
  case (Ok lb)
  let ?new = "constructLB l (Some lb) svc (lb_name_of cl svc) cl" and ?get = "LbGet (lmNamespace l) (lb_name_of cl svc) (Ok lb)"
  have lb: "st h (lb_key l cl svc) = Some lb" "lb_id lb = lb_key l cl svc" "\<not> absentLB (Some lb)"
    using get_found [OF Ok] keyed by (auto simp: lb_key_def absentLB_def)
  obtain r where "trace_of (createOrUpdateLoadBalancer l (lb_name_of cl svc) cl svc) h = [?get, LbUpdate ?new (Ok r)]"
    using assms Ok by (auto simp: createOrUpdateLoadBalancer_def other_error_def resp_err_def resp_obj_def Let_def split: resp.splits)
  moreover have "specs (st (h @ [?get])) = specs (st h)" by (rule silent_trace) simp
  ultimately show ?thesis
    using updated [of ?new "h @ [?get]" r] constructLB_name [of "lb_name_of cl svc" l "Some lb" svc cl] lb ensured_spec [of l cl svc "Some lb"]
    by (simp add: constructLB_id specs_def ensured_def)
next
  case (Fail e x)
  then have nf: "IsNotFound e" using assms
    by (auto simp: createOrUpdateLoadBalancer_def other_error_def resp_err_def Let_def split: if_splits)
  let ?new = "constructLB l x svc (lb_name_of cl svc) cl"
  obtain t r where t: "trace_of (createOrUpdateLoadBalancer l (lb_name_of cl svc) cl svc) h = t @ [LbCreate ?new (Ok r)]"
    "\<forall>e\<in>set t. lb_written e = None"
    using assms Fail nf
    by (auto simp: createOrUpdateLoadBalancer_def other_error_def resp_err_def resp_obj_def Let_def split: resp.splits if_splits)
  have x: "st h (lb_key l cl svc) = None" "absentLB x" using get_missing [OF Fail nf] by (simp_all add: lb_key_def)
  have "constructLB l x svc (lb_name_of cl svc) cl = constructLB l None svc (lb_name_of cl svc) cl"
    using x(2) by (simp add: constructLB_def absentLB_def)
  then show ?thesis
    using t created [of ?new "h @ t" r] constructLB_name [of "lb_name_of cl svc" l x svc cl] silent_trace [OF t(2), of h] x
    by (simp add: constructLB_id specs_def ensured_def lb_key_def absentLB_def)
qed

lemma ensurePrimary_specs:
  assumes "E = lmClients l" "snd (result_of (ensurePrimaryLoadBalancer l cl svc) h) = None"
  shows "specs (st (h @ trace_of (ensurePrimaryLoadBalancer l cl svc) h)) =
    (specs (st h))(lb_key l cl svc \<mapsto> ensured l cl svc (specs (st h) (lb_key l cl svc)))"
proof -
  let ?n = "lb_name_of cl svc"
  let ?c = "createOrUpdateLoadBalancer l ?n cl svc" and ?u = "updatePrimaryServiceLoadBalancerIP l ?n svc"
  let ?h1 = "h @ trace_of (checkNetworkChanged l svc ?n False) h"
  let ?h2 = "?h1 @ trace_of ?c ?h1"
  have c: "result_of ?c ?h1 = None"
    and t: "h @ trace_of (ensurePrimaryLoadBalancer l cl svc) h = ?h2 @ trace_of ?u ?h2"
    using assms(2) by (auto simp: ensurePrimaryLoadBalancer_def Let_def lb_name_of_def split: option.splits)
  have "specs (st ?h1) = specs (st h)"
    by (rule silent_specs) (intro holds_reads only_reads monoP_const)
  then show ?thesis
    unfolding t silent_specs [OF updatePrimary_no_lb] createOrUpdate_specs [OF assms(1) c] by simp
qed

lemma ensure_specs:
  assumes "E = lmClients l" "mlookup (svcAnnotations svc) KeyPrimaryService = None"
    and "snd (result_of (EnsureLoadBalancer l cl svc) h) = None"
  shows "specs (st (h @ trace_of (EnsureLoadBalancer l cl svc) h)) =
    (specs (st h))(lb_key l cl svc \<mapsto> ensured l cl svc (specs (st h) (lb_key l cl svc)))"
proof -
  let ?h = "h @ trace_of (resolveNetworkInterface l svc) h"
  have p: "getPrimaryService l svc = ret (Inr None)" using assms(2) by (simp add: getPrimaryService_def)
  have e: "snd (result_of (ensurePrimaryLoadBalancer l cl svc) ?h) = None"
    and t: "h @ trace_of (EnsureLoadBalancer l cl svc) h = ?h @ trace_of (ensurePrimaryLoadBalancer l cl svc) ?h"
    using assms(3) p by (auto simp: EnsureLoadBalancer_def split: sum.splits)
  have "specs (st ?h) = specs (st h)"
    by (rule silent_specs) (intro holds_reads only_reads monoP_const)
  then show ?thesis unfolding t using ensurePrimary_specs [OF assms(1) e] by simp
qed

text \<open>A load balancer that is there is seen.\<close>

lemma present: "st h (ns, n) = Some lb \<Longrightarrow> envLbGet E h ns n = Ok lb \<or> (\<exists>err x. envLbGet E h ns n = Fail err x \<and> \<not> IsNotFound err)"
  using get_found get_missing by (cases "envLbGet E h ns n") auto

text \<open>All operations leave other load balancers alone.\<close>

definition owned :: "lb_manager \<Rightarrow> string \<Rightarrow> service \<Rightarrow> event_pred" where
  "owned l cl svc pre e \<longleftrightarrow> lb_written e = None \<or> lb_written e = Some (lb_key l cl svc)"

lemma owned_pred: "monoP (owned l cl svc)" "allows_reads (owned l cl svc)"
  using only_reads(2) by (simp_all add: owned_def [abs_def])

lemma owned_silent: "holds (\<lambda>_ e. lb_written e = None) m \<Longrightarrow> holds (owned l cl svc) m"
  by (auto simp: holds_def always_def owned_def)

lemma createOrUpdate_owned:
  assumes "E = lmClients l"
  shows "holds (owned l cl svc) (createOrUpdateLoadBalancer l (lb_name_of cl svc) cl svc)"
  unfolding holds_def
proof (intro conjI allI)
  fix h
  show "always (owned l cl svc) (trace_of (createOrUpdateLoadBalancer l (lb_name_of cl svc) cl svc) h)"
  proof (cases "envLbGet E h (lmNamespace l) (lb_name_of cl svc)")
    case (Ok lb)
    then show ?thesis using assms keyed [OF get_found [OF Ok]]
      by (auto simp: createOrUpdateLoadBalancer_def other_error_def resp_err_def resp_obj_def owned_def constructLB_id absentLB_def
          lb_key_def Let_def)
  next
    case (Fail err x)
    show ?thesis
    proof (cases "IsNotFound err")
      case True
      then show ?thesis using assms Fail get_missing [OF Fail]
        by (auto simp: createOrUpdateLoadBalancer_def other_error_def resp_err_def resp_obj_def owned_def constructLB_id
            lb_key_def Let_def)
    qed (use assms Fail in \<open>simp add: createOrUpdateLoadBalancer_def other_error_def resp_err_def owned_def Let_def\<close>)
  qed
qed simp

lemma delete_owned: "holds (owned l cl svc) (deleteLoadBalancer l cl svc)"
proof -
  have "holds (owned l cl svc) (lbDelete (lmClients l) (lmNamespace l) (loadBalancerName cl (svcNamespace svc) (svcName svc) (svcUID svc)))"
    by (simp add: holds_def owned_def lb_key_def lb_name_of_def)
  then show ?thesis unfolding deleteLoadBalancer_def Let_def
    by (intro holds_bind holds_branches holds_reads owned_pred holds_ret holds_call)
qed

lemma ensure_owned:
  assumes "E = lmClients l"
  shows "holds (owned l cl svc) (EnsureLoadBalancer l cl svc)" "holds (owned l cl svc) (EnsureLoadBalancerDeleted l cl svc)"
proof -
  have p: "holds (owned l cl svc) (ensurePrimaryLoadBalancer l cl svc)"
    unfolding ensurePrimaryLoadBalancer_def Let_def lb_name_of_def [symmetric]
    by (intro holds_bind holds_branches holds_reads owned_pred holds_ret createOrUpdate_owned [OF assms]
        owned_silent [OF updatePrimary_no_lb] delete_owned)
  have s: "holds (owned l cl svc) (ensureSecondaryLoadBalancer l cl p svc)" for p
    unfolding ensureSecondaryLoadBalancer_def updateSecondaryServiceLoadBalancerIP_def Let_def
    by (intro holds_bind holds_branches holds_reads owned_pred holds_ret owned_silent [OF retryUpdateService_no_lb] delete_owned)
  show "holds (owned l cl svc) (EnsureLoadBalancer l cl svc)"
    unfolding EnsureLoadBalancer_def by (intro holds_bind holds_branches holds_reads owned_pred holds_ret p s)
  show "holds (owned l cl svc) (EnsureLoadBalancerDeleted l cl svc)"
    unfolding EnsureLoadBalancerDeleted_def by (intro holds_bind holds_branches holds_reads owned_pred holds_ret delete_owned)
qed

lemma owned_frame:
  assumes "holds (owned l cl svc) m" "k \<noteq> lb_key l cl svc"
  shows "specs (st (h @ trace_of m h)) k = specs (st h) k"
proof (rule frame_trace, rule ballI)
  fix e
  assume "e \<in> set (trace_of m h)"
  then obtain pre where "owned l cl svc pre e" using assms(1) always_memD unfolding holds_def by blast
  then show "lb_written e \<noteq> Some k" using assms(2) by (auto simp: owned_def)
qed

end

section \<open>A store that answers\<close>

text \<open>
  The laws hold of a Harvester that keeps the load balancers it acknowledged and allocates
  addresses from a pool at once, in an otherwise arbitrary environment.
\<close>

fun lb_event :: "loadbalancer list \<Rightarrow> event \<Rightarrow> loadbalancer list" where
  "lb_event S (LbCreate lb (Ok r)) = lb # filter (\<lambda>x. lb_id x \<noteq> lb_id lb) S"
| "lb_event S (LbUpdate lb (Ok r)) = lb # filter (\<lambda>x. lb_id x \<noteq> lb_id lb) S"
| "lb_event S (LbDelete ns n None) = filter (\<lambda>x. lb_id x \<noteq> (ns, n)) S"
| "lb_event S _ = S"

definition hosted :: "(string \<times> string \<Rightarrow> string) \<Rightarrow> loadbalancer list \<Rightarrow> history \<Rightarrow> lb_map" where
  "hosted pool S h k = map_option (\<lambda>lb. lb\<lparr>lbAllocatedIP := pool k\<rparr>)
     (find (\<lambda>lb. lb_id lb = k \<and> lbName lb \<noteq> []) (foldl lb_event S h))"

definition host :: "(string \<times> string \<Rightarrow> string) \<Rightarrow> loadbalancer list \<Rightarrow> env \<Rightarrow> env" where
  "host pool S E0 = E0\<lparr>envLbGet := (\<lambda>h ns n. case hosted pool S h (ns, n) of Some lb \<Rightarrow> Ok lb | None \<Rightarrow> Fail not_found None)\<rparr>"

lemma find_lb_filter:
  "find (\<lambda>lb. lb_id lb = k \<and> lbName lb \<noteq> []) (filter (\<lambda>x. lb_id x \<noteq> i) S) =
   (if k = i then None else find (\<lambda>lb. lb_id lb = k \<and> lbName lb \<noteq> []) S)"
  by (induction S) auto

lemma lb_spec_allocated [simp]: "lb_spec (lb\<lparr>lbAllocatedIP := ip\<rparr>) = lb_spec lb"
  by (simp add: lb_spec_def)

lemma lb_event_frame:
  "lb_written e \<noteq> Some k \<Longrightarrow> find (\<lambda>lb. lb_id lb = k \<and> lbName lb \<noteq> []) (lb_event S e) = find (\<lambda>lb. lb_id lb = k \<and> lbName lb \<noteq> []) S"
  by (cases "(S, e)" rule: lb_event.cases) (auto simp: find_lb_filter)

interpretation hosted: lb_store "host pool S E0" "hosted pool S" for pool S E0
proof
  fix h k lb ns n err x r e
  show "hosted pool S h k = Some lb \<Longrightarrow> lb_id lb = k \<and> lbName lb \<noteq> []"
    by (auto simp: hosted_def lb_id_def dest!: find_Some_mem)
  show "envLbGet (host pool S E0) h ns n = Ok lb \<Longrightarrow> hosted pool S h (ns, n) = Some lb"
    by (auto simp: host_def split: option.splits)
  show "envLbGet (host pool S E0) h ns n = Fail err x \<Longrightarrow> IsNotFound err \<Longrightarrow> hosted pool S h (ns, n) = None \<and> absentLB x"
    by (auto simp: host_def absentLB_def split: option.splits)
  show "lbName lb \<noteq> [] \<Longrightarrow> specs (hosted pool S (h @ [LbCreate lb (Ok r)])) = (specs (hosted pool S h))(lb_id lb \<mapsto> lb_spec lb)"
    "lbName lb \<noteq> [] \<Longrightarrow> specs (hosted pool S (h @ [LbUpdate lb (Ok r)])) = (specs (hosted pool S h))(lb_id lb \<mapsto> lb_spec lb)"
    by (auto simp: specs_def hosted_def find_lb_filter fun_eq_iff)
  show "lb_written e \<noteq> Some k \<Longrightarrow> specs (hosted pool S (h @ [e])) k = specs (hosted pool S h) k"
    by (simp add: specs_def hosted_def lb_event_frame)
qed

subsection \<open>Two runs\<close>

definition host_manager :: lb_manager where
  "host_manager = \<lparr>lmClients = host (\<lambda>k. ''10.0.0.5'') [] (demo_env []), lmNamespace = ''default'', lmConfig = zero_config\<rparr>"

lemma host_manager_simps [simp]: "lmNamespace host_manager = ''default''"
  "envLbCreate (lmClients host_manager) h lb = Ok lb" "envLbUpdate (lmClients host_manager) h lb = Ok lb"
  "cluster_responds host_manager demo_svc h"
  by (simp_all add: host_manager_def host_def demo_env_def empty_env_def cluster_responds_def)

lemma host_get:
  "envLbGet (lmClients host_manager) h ''default'' n =
     (case hosted (\<lambda>k. ''10.0.0.5'') [] h (''default'', n) of Some lb \<Rightarrow> Ok lb | None \<Rightarrow> Fail not_found None)"
  by (simp add: host_manager_def host_def)

text \<open>The load balancer of the demo service, if there is one, is on its (empty) network.\<close>

lemma hosted_snoc:
  "lb_written e = None \<Longrightarrow> hosted pool S (h @ [e]) = hosted pool S h"
  "lb_id lb = k \<Longrightarrow> lbName lb \<noteq> [] \<Longrightarrow> hosted pool S (h @ [LbCreate lb (Ok r)]) k = Some (lb\<lparr>lbAllocatedIP := pool k\<rparr>)"
  "lb_id lb = k \<Longrightarrow> lbName lb \<noteq> [] \<Longrightarrow> hosted pool S (h @ [LbUpdate lb (Ok r)]) k = Some (lb\<lparr>lbAllocatedIP := pool k\<rparr>)"
  by (cases e) (auto simp: hosted_def fun_eq_iff)

lemma hosted_quiet: "\<forall>e\<in>set t. lb_written e = None \<Longrightarrow> hosted pool S (h @ t) = hosted pool S h"
proof (induction t rule: rev_induct)
  case (snoc e t)
  then show ?case using hosted_snoc(1) [of e pool S "h @ t"] by simp
qed simp

text \<open>A manager of such a Harvester, in a cluster that keeps the demo service.\<close>

definition hosting :: "lb_manager \<Rightarrow> bool" where
  "hosting l \<longleftrightarrow> lmNamespace l = ''default'' \<and>
     (\<forall>h n. envLbGet (lmClients l) h ''default'' n =
        (case hosted (\<lambda>k. ''10.0.0.5'') [] h (''default'', n) of Some lb \<Rightarrow> Ok lb | None \<Rightarrow> Fail not_found None)) \<and>
     (\<forall>h lb. envLbCreate (lmClients l) h lb = Ok lb \<and> envLbUpdate (lmClients l) h lb = Ok lb) \<and> (\<forall>h. cluster_responds l demo_svc h)"

lemma host_manager_hosting: "hosting host_manager"
  by (simp add: hosting_def host_get)

lemma hostingD:
  assumes "hosting l"
  shows "lmNamespace l = ''default''" "envLbCreate (lmClients l) h lb = Ok lb" "envLbUpdate (lmClients l) h lb = Ok lb" "cluster_responds l demo_svc h"
    "envLbGet (lmClients l) h ''default'' n =
       (case hosted (\<lambda>k. ''10.0.0.5'') [] h (''default'', n) of Some lb \<Rightarrow> Ok lb | None \<Rightarrow> Fail not_found None)"
  using assms by (simp_all add: hosting_def)

lemma host_created:
  fixes h :: history
  assumes "hosting l"
  defines "n \<equiv> lb_name_of ''c1'' demo_svc"
  defines "c \<equiv> createOrUpdateLoadBalancer l n ''c1'' demo_svc"
  shows "result_of c h = None \<and>
    (\<exists>lb. hosted (\<lambda>k. ''10.0.0.5'') [] (h @ trace_of c h) (''default'', n) = Some lb \<and> lbAllocatedIP lb = ''10.0.0.5'')"
proof (cases "hosted (\<lambda>k. ''10.0.0.5'') [] h (''default'', n)")
  case None
  note hosts = hostingD [OF assms(1)]
  let ?new = "constructLB l None demo_svc n ''c1''"
  have "lb_id ?new = (''default'', n)" by (simp add: constructLB_id absentLB_def hosts)
  moreover have "trace_of c h = [LbGet ''default'' n (Fail not_found None)] @ [LbCreate ?new (Ok ?new)]" "result_of c h = None"
    using None by (simp_all add: c_def createOrUpdateLoadBalancer_def hosts other_error_def resp_err_def resp_obj_def Let_def DefaultGuestClusterName_def)
  ultimately show ?thesis
    using hosted_snoc(2) [of ?new _ "\<lambda>k. ''10.0.0.5''" "[]" "h @ [LbGet ''default'' n (Fail not_found None)]"]
      constructLB_name by (simp add: n_def)
next
  case (Some lb)
  note hosts = hostingD [OF assms(1)]
  let ?new = "constructLB l (Some lb) demo_svc n ''c1''"
  have "lb_id lb = (''default'', n)" "\<not> absentLB (Some lb)" using hosted.keyed [OF Some] by (auto simp: absentLB_def)
  then have "lb_id ?new = (''default'', n)" by (simp add: constructLB_id)
  moreover have "trace_of c h = [LbGet ''default'' n (Ok lb)] @ [LbUpdate ?new (Ok ?new)]" "result_of c h = None"
    using Some by (simp_all add: c_def createOrUpdateLoadBalancer_def hosts other_error_def resp_err_def resp_obj_def Let_def)
  ultimately show ?thesis
    using hosted_snoc(3) [of ?new _ "\<lambda>k. ''10.0.0.5''" "[]" "h @ [LbGet ''default'' n (Ok lb)]"] constructLB_name
    by (simp add: n_def)
qed

lemma host_run:
  assumes "hosting l"
    and "\<And>lb. hosted (\<lambda>k. ''10.0.0.5'') [] h (lb_key l ''c1'' demo_svc) = Some lb \<Longrightarrow>
      mget (lbAnnotations lb) AnnotationKeyNetworkOnLB = []"
  shows "result_of (EnsureLoadBalancer l ''c1'' demo_svc) h = (Some [], None)"
proof -
  note hosts = hostingD [OF assms(1)]
  let ?l = l and ?n = "lb_name_of ''c1'' demo_svc" and ?H = "hosted (\<lambda>k. ''10.0.0.5'') []"
  have k: "lb_key ?l ''c1'' demo_svc = (''default'', ?n)" by (simp add: lb_key_def hosts)
  have svc: "mlookup (svcAnnotations demo_svc) x = None" "mget (svcAnnotations demo_svc) x = []" for x
    by (simp_all add: demo_svc_def mlookup_def)
  have res: "resolveNetworkInterface ?l demo_svc = ret (Inr [])" by (simp add: resolveNetworkInterface_def svc)
  let ?get = "LbGet ''default'' ?n (envLbGet (lmClients ?l) h ''default'' ?n)"
  let ?c = "createOrUpdateLoadBalancer ?l ?n ''c1'' demo_svc" and ?h1 = "h @ [?get]"
  have chk: "result_of (checkNetworkChanged ?l demo_svc ?n False) h = None"
    "trace_of (checkNetworkChanged ?l demo_svc ?n False) h = [?get]"
    using assms(2) unfolding k
    by (auto simp: checkNetworkChanged_def networkChangedError_def other_error_def resp_err_def resp_obj_def hosts
        IsNetworkChanged_def svc split: option.splits)
  have c: "result_of ?c ?h1 = None \<and> (\<exists>lb. ?H (?h1 @ trace_of ?c ?h1) (''default'', ?n) = Some lb \<and> lbAllocatedIP lb = ''10.0.0.5'')"
    by (rule host_created [OF assms(1)])
  then obtain lb where "result_of (allocatedIP ?l ?n) (?h1 @ trace_of ?c ?h1) = Inr (lb, ''10.0.0.5'')"
    by (auto simp: allocatedIP_def hosts)
  then have "result_of (waitForIP (allocatedIP ?l ?n)) (?h1 @ trace_of ?c ?h1) = Inr (lb, ''10.0.0.5'')" by (simp add: waitForIP_now)
  moreover have "result_of (retryUpdateService ?l demo_svc ty ip lab upd) h' = None" for ty ip lab upd h'
    using retryUpdateService_progress [of ?l demo_svc h' ty ip lab upd "[]"] hosts(4) by simp
  ultimately have "result_of (updatePrimaryServiceLoadBalancerIP ?l ?n demo_svc) (?h1 @ trace_of ?c ?h1) = None"
    by (simp add: updatePrimaryServiceLoadBalancerIP_def res hosts)
  then show ?thesis using chk c
    by (simp add: EnsureLoadBalancer_def res getPrimaryService_def svc ensurePrimaryLoadBalancer_def Let_def lb_name_of_def [symmetric])
      (simp add: demo_svc_def)
qed

abbreviation demo_hosted :: "history \<Rightarrow> lb_map" where
  "demo_hosted \<equiv> hosted (\<lambda>k. ''10.0.0.5'') []"

definition first_run :: history where
  "first_run = trace_of (EnsureLoadBalancer host_manager ''c1'' demo_svc) []"

lemma host_store: "lb_store (lmClients host_manager) demo_hosted"
  by (simp add: host_manager_def hosted.lb_store_axioms)

lemma demo_not_secondary: "mlookup (svcAnnotations demo_svc) KeyPrimaryService = None"
  by (simp add: demo_svc_def mlookup_def)

lemma first_run_ok: "snd (result_of (EnsureLoadBalancer host_manager ''c1'' demo_svc) []) = None"
  using host_run [OF host_manager_hosting, of "[]"] by (simp add: hosted_def)

lemma second_run_ok: "snd (result_of (EnsureLoadBalancer host_manager ''c1'' demo_svc) first_run) = None"
proof -
  let ?k = "lb_key host_manager ''c1'' demo_svc"
  have "specs (demo_hosted first_run) = (specs (demo_hosted []))(?k \<mapsto> ensured host_manager ''c1'' demo_svc (specs (demo_hosted []) ?k))"
    using lb_store.ensure_specs [OF host_store refl demo_not_secondary first_run_ok] by (simp add: first_run_def)
  moreover have "specs (demo_hosted []) ?k = None" by (simp add: specs_def hosted_def)
  ultimately have "specs (demo_hosted first_run) ?k = Some (ensured host_manager ''c1'' demo_svc None)" by simp
  moreover have "mget (lbAnnotations (ensured host_manager ''c1'' demo_svc None)) AnnotationKeyNetworkOnLB = []"
    using constructLB_annotations(2) [of host_manager None demo_svc "lb_name_of ''c1'' demo_svc" "''c1''" AnnotationKeyNetworkOnLB]
    by (simp add: mget_mlookup ensured_def lb_spec_def absentLB_def key_defs lb_key_defs demo_svc_def mlookup_def [of None])
  ultimately have "mget (lbAnnotations lb) AnnotationKeyNetworkOnLB = []" if "demo_hosted first_run ?k = Some lb" for lb
    using that lb_spec_annotations [of lb] by (auto simp: specs_def)
  then show ?thesis using host_run [OF host_manager_hosting, of first_run] by simp
qed

section \<open>Properties\<close>

text \<open>C4: A successful run for a primary service is one function on the load balancers of Harvester:
  whatever calls, retries and polls it made, and although Harvester changes the status meanwhile,
  the specification stored for the service becomes the one constructed from the one that was
  there, and nothing else changes.\<close>

theorem ensure_refines_lb_map:
  assumes "lb_store (lmClients l) st" "mlookup (svcAnnotations svc) KeyPrimaryService = None"
    and "snd (result_of (EnsureLoadBalancer l cl svc) h) = None"
  shows "specs (st (h @ trace_of (EnsureLoadBalancer l cl svc) h)) =
    (specs (st h))(lb_key l cl svc \<mapsto> ensured l cl svc (specs (st h) (lb_key l cl svc)))"
  by (rule lb_store.ensure_specs [OF assms(1) refl assms(2,3)])

text \<open>C9: Reconciling a primary service again has no effect: after a second successful run in a row
  the load balancers of Harvester have the specifications the first run left.\<close>

theorem ensure_again_same:
  assumes "lb_store (lmClients l) st" "mlookup (svcAnnotations svc) KeyPrimaryService = None"
    and "snd (result_of (EnsureLoadBalancer l cl svc) h) = None" "h' = h @ trace_of (EnsureLoadBalancer l cl svc) h"
    and "snd (result_of (EnsureLoadBalancer l cl svc) h') = None"
  shows "specs (st (h' @ trace_of (EnsureLoadBalancer l cl svc) h')) = specs (st h')"
  using lb_store.ensure_specs [OF assms(1) refl assms(2,3)] lb_store.ensure_specs [OF assms(1) refl assms(2,5)] assms(4)
  by (simp add: ensured_idem)

text \<open>C31: No run, successful or not, of ensuring or deleting a load balancer touches the load balancer
  of another service.\<close>

theorem other_load_balancers_untouched:
  assumes "lb_store (lmClients l) st" "k \<noteq> lb_key l cl svc"
  shows "specs (st (h @ trace_of (EnsureLoadBalancer l cl svc) h)) k = specs (st h) k \<and>
    specs (st (h @ trace_of (EnsureLoadBalancerDeleted l cl svc) h)) k = specs (st h) k"
  using lb_store.owned_frame [OF assms(1) lb_store.ensure_owned(1) [OF assms(1) refl] assms(2)]
    lb_store.owned_frame [OF assms(1) lb_store.ensure_owned(2) [OF assms(1) refl] assms(2)] by simp

section \<open>Witnesses\<close>

theorem ensure_refines_lb_map_witness:
  "specs (demo_hosted ([] @ trace_of (EnsureLoadBalancer host_manager ''c1'' demo_svc) [])) =
    (specs (demo_hosted []))(lb_key host_manager ''c1'' demo_svc \<mapsto>
       ensured host_manager ''c1'' demo_svc (specs (demo_hosted []) (lb_key host_manager ''c1'' demo_svc)))"
  by (rule ensure_refines_lb_map [OF host_store demo_not_secondary first_run_ok])

theorem ensure_again_same_witness:
  "specs (demo_hosted (first_run @ trace_of (EnsureLoadBalancer host_manager ''c1'' demo_svc) first_run)) = specs (demo_hosted first_run)"
  by (rule ensure_again_same [OF host_store demo_not_secondary first_run_ok _ second_run_ok]) (simp add: first_run_def)

theorem other_load_balancers_untouched_witness:
  "specs (demo_hosted ([] @ trace_of (EnsureLoadBalancer host_manager ''c1'' demo_svc) [])) (''default'', ''other'') =
     specs (demo_hosted []) (''default'', ''other'') \<and>
   specs (demo_hosted ([] @ trace_of (EnsureLoadBalancerDeleted host_manager ''c1'' demo_svc) [])) (''default'', ''other'') =
     specs (demo_hosted []) (''default'', ''other'')"
proof (rule other_load_balancers_untouched [OF host_store])
  obtain base w where "lb_name_of ''c1'' demo_svc = base @ hex8 w"
    using loadBalancerName_bounds by (metis lb_name_of_def)
  then have "length (lb_name_of ''c1'' demo_svc) \<noteq> length ''other''" by simp
  then show "(''default'', ''other'') \<noteq> lb_key host_manager ''c1'' demo_svc" unfolding lb_key_def by (metis snd_conv)
qed

end
