(* ===== verification/Concurrent.thy ===== *)
theory Concurrent
  imports CloudProvider
begin

text \<open>
  The framework and the controller factory run several workers, so the calls of different
  operations interleave.  A concurrent history is any interleaving of runs of operations, finished or
  not.  Each run is one of the sequential model, with an environment and a past of its own: the
  answers it gets may depend in any way on what the other workers do meanwhile, and so may the map
  from node names to VM names it finds.  Invariants of single operations that survive more events in
  front (\<open>monoP\<close>) are invariants of all these histories.
\<close>

section \<open>Interleaved runs\<close>

inductive concurrent :: "config \<Rightarrow> string \<Rightarrow> history \<Rightarrow> bool" for cfg ns where
  idle: "concurrent cfg ns []"
| worker: "\<lbrakk>concurrent cfg ns h; t = take n (op_trace (startProvider E cfg ns) op past); h' \<in> shuffles h t\<rbrakk> \<Longrightarrow>
    concurrent cfg ns h'"

lemma concurrent_same:
  assumes eq: "\<And>E. startProvider E cfg ns = startProvider E cfg ns'" and "concurrent cfg ns h"
  shows "concurrent cfg ns' h"
  using assms(2)
proof (induction rule: concurrent.induct)
  case (worker h t n E op past h')
  show ?case by (rule concurrent.worker [OF worker.IH worker.hyps(2) [unfolded eq] worker.hyps(3)])
qed (rule idle)

lemma append_in_shuffles: "h @ t \<in> shuffles h t"
  by (induction h) (simp_all add: Cons_in_shuffles_leftI)

lemma reachable_concurrent: "reachable (startProvider E cfg ns) h \<Longrightarrow> concurrent cfg ns h"
proof (induction "startProvider E cfg ns" h rule: reachable.induct)
  case (run h h')
  then obtain op where h': "h' = h @ op_trace (startProvider E cfg ns) op h" by (auto elim: stepE)
  let ?t = "op_trace (startProvider E cfg ns) op h"
  from run(2) show ?case
    by (rule worker [where t = ?t and n = "length ?t" and E = E and op = op and past = h]) (simp_all add: h' append_in_shuffles)
qed (rule idle)

section \<open>Invariants under interleaving\<close>

lemma always_take: "always P t \<Longrightarrow> always P (take n t)"
  using always_append [of P "take n t" "drop n t"] by simp

lemma monoP_always_Cons: "monoP P \<Longrightarrow> always P t \<Longrightarrow> always (\<lambda>pre. P (e # pre)) t"
  using monoP_always [of P t "[e]"] by simp

lemma always_shuffles:
  "\<lbrakk>monoP P; always P t; always P u; v \<in> shuffles t u\<rbrakk> \<Longrightarrow> always P v"
proof (induction t u arbitrary: P v rule: shuffles.induct)
  case (3 x xs y ys)
  from 3(6) consider z where "v = x # z" "z \<in> shuffles xs (y # ys)" | z where "v = y # z" "z \<in> shuffles (x # xs) ys"
    by auto
  then show ?case
  proof cases
    case 1
    moreover have "always (\<lambda>pre. P (x # pre)) z"
      using 3(4) by (intro 3(1) [OF monoP_Cons [OF 3(3)] _ monoP_always_Cons [OF 3(3,5)] 1(2)]) simp
    ultimately show ?thesis using 3(4) by simp
  next
    case 2
    moreover have "always (\<lambda>pre. P (y # pre)) z"
      using 3(5) by (intro 3(2) [OF monoP_Cons [OF 3(3)] monoP_always_Cons [OF 3(3,4)] _ 2(2)]) simp
    ultimately show ?thesis using 3(5) by simp
  qed
qed simp_all

text \<open>A predicate every operation respects, whatever answers it gets.\<close>

locale shared_invariant =
  fixes cfg :: config and ns :: string and P :: event_pred
  assumes mono: "monoP P"
    and op_ok: "always P (op_trace (startProvider E cfg ns) op h)"
begin

lemma concurrent_always: "concurrent cfg ns h \<Longrightarrow> always P h"
proof (induction rule: concurrent.induct)
  case (worker h t n E op past h')
  then show ?case using always_shuffles [OF mono] op_ok always_take by blast
qed simp

lemma concurrent_mem: "concurrent cfg ns h \<Longrightarrow> e \<in> set h \<Longrightarrow> \<exists>pre post. h = pre @ e # post \<and> P pre e"
  using concurrent_always always_memD by blast

end

sublocale shared_invariant \<subseteq> sequential: provider_invariant "startProvider E cfg ns" P for E
  by unfold_locales (rule mono, rule op_ok)

text \<open>Which writes are allowed does not depend on the clients.\<close>

lemma write_ok_clients:
  "lmNamespace l = lmNamespace l' \<Longrightarrow> lmConfig l = lmConfig l' \<Longrightarrow> write_ok l cl svc pre e = write_ok l' cl svc pre e"
  by (cases e) (simp_all add: constructLB_def newLBObject_def)

lemma vmi_write_ok_clients:
  "hNamespace h = hNamespace h' \<Longrightarrow> hConfig h = hConfig h' \<Longrightarrow> vmi_write_ok h v pre e = vmi_write_ok h' v pre e"
  by (cases e) simp_all

definition write_allowed :: "config \<Rightarrow> string \<Rightarrow> event_pred" where
  "write_allowed cfg ns = provider_write_ok (startProvider empty_env cfg ns)"

lemma provider_write_ok_allowed: "provider_write_ok (startProvider E cfg ns) = write_allowed cfg ns"
proof (intro ext)
  fix pre e
  let ?a = "startProvider E cfg ns" and ?b = "startProvider empty_env cfg ns"
  have l: "write_ok (loadBalancers ?a) cl svc pre e = write_ok (loadBalancers ?b) cl svc pre e" for cl svc
    by (rule write_ok_clients) (simp_all add: startProvider_def Initialize_def Register_def buildCloudProvider_def Let_def)
  have "vmi_write_ok \<lparr>hClients = E, hNamespace = n, hConfig = cfg\<rparr> v pre e =
      vmi_write_ok \<lparr>hClients = empty_env, hNamespace = n, hConfig = cfg\<rparr> v pre e" for n v
    by (rule vmi_write_ok_clients) simp_all
  then show "provider_write_ok ?a pre e = write_allowed cfg ns pre e"
    unfolding provider_write_ok_def write_allowed_def l by (auto simp: skipsVmi_def)
qed

interpretation shared: shared_invariant cfg ns "write_allowed cfg ns" for cfg ns
proof
  show "monoP (write_allowed cfg ns)" unfolding write_allowed_def by (rule provider_write_mono)
  show "always (write_allowed cfg ns) (op_trace (startProvider E cfg ns) op h)" for E op h
    using writes.op_ok [of "startProvider E cfg ns" op h] by (simp add: provider_write_ok_allowed)
qed

section \<open>Properties\<close>

text \<open>C2: However the workers interleave and whatever the API servers answer, each deletion of a load
  balancer is in the namespace of the provider, is of the load balancer of some service, and comes
  after an answer that no service shares it and after the load balancer was found.\<close>

theorem concurrent_deletes_guarded:
  assumes "concurrent cfg ns h" "h = pre @ LbDelete lns n r # post"
  shows "lns = contextNamespace ns \<and> (\<exists>cl svc. n = loadBalancerName cl (svcNamespace svc) (svcName svc) (svcUID svc) \<and>
    SvcCacheList NamespaceAll (KeyPrimaryService, primaryServiceLabelValue svc) (Ok []) \<in> set pre) \<and>
    (\<exists>lb. LbGet lns n (Ok lb) \<in> set pre)"
proof -
  have "write_allowed cfg ns pre (LbDelete lns n r)"
    using shared.concurrent_always [OF assms(1)] assms(2) by (auto simp: always_def)
  from provider_delete [OF this [unfolded write_allowed_def]] show ?thesis by (auto simp: lb_name_of_def)
qed

text \<open>The shared map is sound however the workers interleave: a VM name recorded for a node name is
  that of an instance of the provider's namespace whose guest agent reported the node name as its
  host name.  So the machine the instance manager asks for is either named like the node or one that
  claims to be the node.\<close>

lemma concurrent_vm_of_node:
  assumes "concurrent cfg ns h" "vm_of_node h nd \<noteq> nodeName nd"
  shows "GuestOsInfo (contextNamespace ns) (vm_of_node h nd) (Ok (nodeName nd)) \<in> set h \<and> \<not> cfgDisableVMIController cfg"
proof -
  obtain n where n: "vm_names h (nodeName nd) = Some n" "vm_of_node h nd = n"
    using assms(2) by (auto simp: vm_of_node_def split: option.splits)
  then obtain pre post where h: "h = pre @ StoreVMName (nodeName nd) n # post"
    and "write_allowed cfg ns pre (StoreVMName (nodeName nd) n)"
    using shared.concurrent_mem [OF assms(1)] vm_names_store by blast
  from provider_store [OF this(2) [unfolded write_allowed_def]] show ?thesis
    using n h by (auto simp: skipsVmi_def split: if_splits)
qed

section \<open>Witnesses\<close>

text \<open>A deletion and an instance event whose calls alternate.\<close>

definition demo_interleaved :: history where
  "demo_interleaved =
     [SvcCacheList NamespaceAll (KeyPrimaryService, primaryServiceLabelValue demo_svc) (Ok []),
      GuestOsInfo ''default'' ''vm1'' (Ok ''node1''),
      LbGet ''default'' (lb_name_of ''c1'' demo_svc) (Ok demo_lb),
      StoreVMName ''node1'' ''vm1'', LbDelete ''default'' (lb_name_of ''c1'' demo_svc) None]"

lemma demo_concurrent: "concurrent zero_config [] demo_interleaved"
proof -
  let ?d = "op_trace (startProvider delete_env zero_config []) (OpEnsureLoadBalancerDeleted ''c1'' demo_svc) []"
  let ?g = "op_trace (startProvider guest_env zero_config []) (OpVmiChanged (Some driver_vmi)) []"
  have "concurrent zero_config [] ?d" by (rule reachable_concurrent [OF reachable_one])
  then show ?thesis
  proof (rule worker)
    show "take 2 ?g = take 2 ?g" ..
    show "demo_interleaved \<in> shuffles ?d (take 2 ?g)"
      unfolding delete_history guest_history demo_interleaved_def
      by (simp add: numeral_2_eq_2 Cons_in_shuffles_iff)
  qed
qed

theorem concurrent_deletes_guarded_witness:
  "''default'' = contextNamespace [] \<and> (\<exists>cl svc. lb_name_of ''c1'' demo_svc = loadBalancerName cl (svcNamespace svc) (svcName svc) (svcUID svc) \<and>
     SvcCacheList NamespaceAll (KeyPrimaryService, primaryServiceLabelValue svc) (Ok []) \<in> set (butlast demo_interleaved)) \<and>
   (\<exists>lb. LbGet ''default'' (lb_name_of ''c1'' demo_svc) (Ok lb) \<in> set (butlast demo_interleaved))"
proof (rule concurrent_deletes_guarded [OF demo_concurrent])
  show "demo_interleaved = butlast demo_interleaved @ LbDelete ''default'' (lb_name_of ''c1'' demo_svc) None # []"
    by (simp add: demo_interleaved_def)
qed

end
