(* ===== verification/ProviderInit.thy ===== *)
theory ProviderInit
  imports Concurrent
begin

text \<open>
  How the provider comes about: the constructor \<open>newCloudProvider\<close> and the accessors of
  \<open>pkg/cloud-controller-manager/ccm.go\<close>, the registry of the framework through which it is
  reached (\<open>plugins.go\<close>), and \<open>cloudInitializer\<close> of \<open>main.go\<close>.  The libraries that parse a
  kubeconfig and build clients are a record of functions.
\<close>

section \<open>Definitions\<close>

text \<open>A call that returns a value, returns an error, or does not return because the process ends.\<close>

datatype 'a attempt = Return 'a | Error go_error | Die string

text \<open>\<open>x, err := f(); if err != nil { return nil, err }\<close>, and a call of an \<open>OrDie\<close> function.\<close>

definition try_call :: "go_error + 'a \<Rightarrow> ('a \<Rightarrow> 'b attempt) \<Rightarrow> 'b attempt" where
  "try_call r k = (case r of Inl e \<Rightarrow> Error e | Inr v \<Rightarrow> k v)"

definition or_die :: "go_error option \<Rightarrow> 'b attempt \<Rightarrow> 'b attempt" where
  "or_die r k = (case r of Some e \<Rightarrow> Die ''panic'' | None \<Rightarrow> k)"

record kube_context =
  ctxNamespace :: string

text \<open>\<open>Contexts\<close> maps a name to a pointer: None is a missing entry or a nil pointer.\<close>

record raw_config =
  CurrentContext :: string
  Contexts :: "string \<Rightarrow> kube_context option"

text \<open>
  The client libraries, over the types of their parsed kubeconfigs and of their REST configurations;
  \<open>Clients\<close> is what the clients of the factories reach, given the configuration of the Harvester
  cluster, that of the guest cluster, and the namespace the KubeVirt factory watches.
\<close>

record ('cc, 'rc) client_libs =
  NewClientConfigFromBytes :: "string \<Rightarrow> go_error + 'cc"
  ClientConfig :: "'cc \<Rightarrow> go_error + 'rc"
  RawConfig :: "'cc \<Rightarrow> go_error + raw_config"
  GetNonInteractiveClientConfig :: "string \<Rightarrow> go_error + 'rc"
  NewKubevirtFactory :: "'rc \<Rightarrow> string \<Rightarrow> go_error option"
  GetKubevirtClientFromClientConfig :: "'cc \<Rightarrow> go_error + unit"
  NewCoreFactory :: "'rc \<Rightarrow> go_error option"
  NewLbFactory :: "'rc \<Rightarrow> go_error option"
  Clients :: "'rc \<Rightarrow> 'rc \<Rightarrow> string \<Rightarrow> env"

text \<open>A reader is what reading it to its end gives; None is the nil reader.\<close>

type_synonym reader = "go_error + string"

definition newCloudProvider :: "('cc, 'rc) client_libs \<Rightarrow> string \<Rightarrow> config \<Rightarrow> reader option \<Rightarrow> cloud_provider attempt" where
  "newCloudProvider L KUBECONFIG cfg rd = (case rd of
     None \<Rightarrow> Error (Errorf ''can't init from an empty reader (io.Reader), check the --cloud-config to ensure it has a valid cloud-config'' [])
   | Some r \<Rightarrow>
     try_call r (\<lambda>bytes.
     try_call (NewClientConfigFromBytes L bytes) (\<lambda>config.
     try_call (ClientConfig L config) (\<lambda>clientConfig.
     try_call (RawConfig L config) (\<lambda>rawConfig.
     (case Contexts rawConfig (CurrentContext rawConfig) of
        None \<Rightarrow> Die ''nil pointer dereference''
      | Some ctx \<Rightarrow>
        let namespace = contextNamespace (ctxNamespace ctx) in
        try_call (GetNonInteractiveClientConfig L KUBECONFIG) (\<lambda>localCfg.
        or_die (NewKubevirtFactory L clientConfig namespace) (
        try_call (GetKubevirtClientFromClientConfig L config) (\<lambda>_.
        or_die (NewCoreFactory L localCfg) (
        or_die (NewLbFactory L clientConfig) (
        Return (buildCloudProvider (Clients L clientConfig localCfg namespace) cfg (ctxNamespace ctx)))))))))))))"

text \<open>The interfaces the provider offers to the framework: nil with false is None.\<close>

definition LoadBalancer_of :: "cloud_provider \<Rightarrow> lb_manager option \<times> bool" where
  "LoadBalancer_of c = (Some (loadBalancers c), True)"

definition Instances_of :: "cloud_provider \<Rightarrow> unit option \<times> bool" where
  "Instances_of c = (None, False)"

definition InstancesV2_of :: "cloud_provider \<Rightarrow> instance_manager option \<times> bool" where
  "InstancesV2_of c = (Some (instances c), True)"

definition Zones_of :: "cloud_provider \<Rightarrow> unit option \<times> bool" where
  "Zones_of c = (None, False)"

definition Clusters_of :: "cloud_provider \<Rightarrow> unit option \<times> bool" where
  "Clusters_of c = (None, False)"

definition Routes_of :: "cloud_provider \<Rightarrow> unit option \<times> bool" where
  "Routes_of c = (None, False)"

definition ProviderName_of :: "cloud_provider \<Rightarrow> string" where
  "ProviderName_of c = ProviderName"

definition HasClusterID :: "cloud_provider \<Rightarrow> bool" where
  "HasClusterID c = False"

text \<open>
  The registry of constructors.  A second registration under a name is fatal; \<open>init\<close> registers the
  constructor when the program is loaded.
\<close>

type_synonym 'c factories = "string \<Rightarrow> (reader option \<Rightarrow> 'c attempt) option"

definition RegisterCloudProvider :: "string \<Rightarrow> (reader option \<Rightarrow> 'c attempt) \<Rightarrow> 'c factories \<Rightarrow> 'c factories attempt" where
  "RegisterCloudProvider name cloud providers =
     (if providers name \<noteq> None then Die ''Cloud provider was registered twice''
      else Return (providers(name \<mapsto> cloud)))"

definition ccm_init :: "('cc, 'rc) client_libs \<Rightarrow> string \<Rightarrow> config \<Rightarrow> cloud_provider factories \<Rightarrow> cloud_provider factories attempt" where
  "ccm_init L KUBECONFIG cfg = RegisterCloudProvider ProviderName (newCloudProvider L KUBECONFIG cfg)"

definition GetCloudProvider :: "'c factories \<Rightarrow> string \<Rightarrow> reader option \<Rightarrow> 'c option attempt" where
  "GetCloudProvider providers name config = (case providers name of
     None \<Rightarrow> Return None
   | Some f \<Rightarrow> (case f config of Return c \<Rightarrow> Return (Some c) | Error e \<Rightarrow> Error e | Die m \<Rightarrow> Die m))"

text \<open>
  Opening a file gives an error or a reader.  Of an error that is only formatted (\<open>%v\<close>) into a
  message, as here and in \<open>cloudInitializer\<close>, the text is not kept.
\<close>

definition InitCloudProvider ::
  "'c factories \<Rightarrow> (string \<Rightarrow> go_error + reader) \<Rightarrow> string \<Rightarrow> string \<Rightarrow> 'c option attempt" where
  "InitCloudProvider providers os_Open name configFilePath =
     (if name = [] then Return None
      else if name = ''external'' then Return None
      else
        case (if configFilePath \<noteq> []
              then (case os_Open configFilePath of
                      Inl _ \<Rightarrow> Die ''Couldn't open cloud provider configuration''
                    | Inr config \<Rightarrow> GetCloudProvider providers name (Some config))
              else GetCloudProvider providers name None) of
          Error _ \<Rightarrow> Error (Errorf ''could not init cloud provider %q: %v'' [FQuote name])
        | Return None \<Rightarrow> Error (Errorf ''unknown cloud provider %q'' [FQuote name])
        | Return (Some cloud) \<Rightarrow> Return (Some cloud)
        | Die m \<Rightarrow> Die m)"

definition cloudInitializer ::
  "cloud_provider factories \<Rightarrow> (string \<Rightarrow> go_error + reader) \<Rightarrow> string \<Rightarrow> string \<Rightarrow> bool \<Rightarrow> cloud_provider attempt" where
  "cloudInitializer providers os_Open name cloudConfigFile allowUntaggedCloud =
     (case InitCloudProvider providers os_Open name cloudConfigFile of
        Die m \<Rightarrow> Die m
      | Error err \<Rightarrow> Die ''Cloud provider harvester could not be initialized''
      | Return None \<Rightarrow> Die ''Cloud provider harvester is nil''
      | Return (Some cloud) \<Rightarrow>
          if \<not> HasClusterID cloud \<and> \<not> allowUntaggedCloud then Die ''no ClusterID found''
          else Return cloud)"

section \<open>Facts\<close>

lemma try_call_Return [simp]: "try_call r k = Return x \<longleftrightarrow> (\<exists>v. r = Inr v \<and> k v = Return x)"
  by (cases r) (simp_all add: try_call_def)

lemma or_die_Return [simp]: "or_die r k = Return x \<longleftrightarrow> r = None \<and> k = Return x"
  by (cases r) (simp_all add: or_die_def)

text \<open>What a kubeconfig says, as far as the constructor asks.\<close>

definition selects_context :: "('cc, 'rc) client_libs \<Rightarrow> string \<Rightarrow> 'cc \<Rightarrow> kube_context \<Rightarrow> bool" where
  "selects_context L bytes config ctx \<longleftrightarrow> NewClientConfigFromBytes L bytes = Inr config \<and>
     (\<exists>raw. RawConfig L config = Inr raw \<and> Contexts raw (CurrentContext raw) = Some ctx)"

lemma newCloudProvider_Return:
  assumes "newCloudProvider L kc cfg rd = Return cp"
  obtains bytes config ctx E where "rd = Some (Inr bytes)" "selects_context L bytes config ctx"
    "cp = buildCloudProvider E cfg (ctxNamespace ctx)"
proof -
  have "\<exists>bytes config ctx E. rd = Some (Inr bytes) \<and> selects_context L bytes config ctx \<and>
      cp = buildCloudProvider E cfg (ctxNamespace ctx)"
    using assms unfolding newCloudProvider_def selects_context_def by (auto simp: Let_def split: option.splits)
  then show ?thesis using that by blast
qed

lemma build_namespace: "contextNamespace (cpNamespace (buildCloudProvider E cfg ns)) = contextNamespace ns"
  by (simp add: buildCloudProvider_def contextNamespace_def DefaultNamespace_def Let_def)

lemma ccm_init_Return: "ccm_init L kc cfg Map.empty = Return [ProviderName \<mapsto> newCloudProvider L kc cfg]"
  by (simp add: ccm_init_def RegisterCloudProvider_def)

lemma GetCloudProvider_Return:
  "GetCloudProvider ps name rd = Return (Some c) \<longleftrightarrow> (\<exists>f. ps name = Some f \<and> f rd = Return c)"
  by (auto simp: GetCloudProvider_def split: option.splits attempt.splits)

lemma InitCloudProvider_Return:
  "InitCloudProvider ps os_Open name file = Return (Some c) \<longleftrightarrow> name \<noteq> [] \<and> name \<noteq> ''external'' \<and>
     (if file = [] then GetCloudProvider ps name None = Return (Some c)
      else \<exists>rd. os_Open file = Inr rd \<and> GetCloudProvider ps name (Some rd) = Return (Some c))"
  by (auto simp: InitCloudProvider_def split: attempt.splits option.splits sum.splits)

lemma cloudInitializer_Return:
  "cloudInitializer ps os_Open name file allow = Return c \<longleftrightarrow>
     InitCloudProvider ps os_Open name file = Return (Some c) \<and> allow"
  by (auto simp: cloudInitializer_def HasClusterID_def split: attempt.splits option.splits)

text \<open>The load balancer a write is about: its namespace and name.\<close>

fun lb_target :: "event \<Rightarrow> (string \<times> string) option" where
  "lb_target (LbCreate lb _) = Some (lbNamespace lb, lbName lb)"
| "lb_target (LbUpdate lb _) = Some (lbNamespace lb, lbName lb)"
| "lb_target (LbDelete ns n _) = Some (ns, n)"
| "lb_target _ = None"

text \<open>The object in the answer to a lookup is the one that was asked for; an error may carry an empty object.\<close>

definition answers_named :: "history \<Rightarrow> bool" where
  "answers_named h \<longleftrightarrow> (\<forall>ns n a lb. LbGet ns n a \<in> set h \<longrightarrow> resp_obj a = Some lb \<longrightarrow> lbName lb \<noteq> [] \<longrightarrow>
     lbNamespace lb = ns \<and> lbName lb = n)"

lemma constructLB_target:
  "(lbNamespace (constructLB l old svc n cl), lbName (constructLB l old svc n cl)) =
   (if absentLB old then (lmNamespace l, n) else (lbNamespace (the old), lbName (the old)))"
  by (auto simp: constructLB_def newLBObject_def patchLBObject_def Let_def split: list.split)

lemma provider_lb_write:
  assumes "provider_write_ok cp pre e" "lb_target e = Some (ns, n)" "answers_named pre"
  shows "ns = lmNamespace (loadBalancers cp) \<and> (\<exists>cl svc. n = lb_name_of cl svc) \<and> (\<exists>a. LbGet ns n a \<in> set pre)"
proof -
  let ?l = "loadBalancers cp"
  have put: "ns = lmNamespace ?l \<and> (\<exists>cl svc. n = lb_name_of cl svc) \<and> (\<exists>a. LbGet ns n a \<in> set pre)"
    if "LbGet (lmNamespace ?l) (lb_name_of cl svc) a \<in> set pre" "resp_obj a = old"
      "(lbNamespace lb, lbName lb) = (ns, n)" "lb = constructLB ?l old svc (lb_name_of cl svc) cl" for cl svc a old lb
  proof -
    have "(ns, n) = (lmNamespace ?l, lb_name_of cl svc)"
    proof (cases "absentLB old")
      case False
      then obtain o' where "old = Some o'" "lbName o' \<noteq> []" by (auto simp: absentLB_def split: option.splits)
      then show ?thesis
        using that False assms(3) constructLB_target [of ?l old svc "lb_name_of cl svc" cl] unfolding answers_named_def by fastforce
    qed (use that constructLB_target [of ?l old svc "lb_name_of cl svc" cl] in simp)
    then show ?thesis using that(1) by blast
  qed
  show ?thesis
    using assms(1,2) put unfolding provider_write_ok_def by (cases e) (fastforce simp: resp_obj_def)+
qed

text \<open>
  The documented behaviour of \<open>ClientConfig\<close> that the code relies on: it fails unless the context
  the kubeconfig names as current is one of its contexts.
\<close>

definition confirms_context :: "('cc, 'rc) client_libs \<Rightarrow> bool" where
  "confirms_context L \<longleftrightarrow> (\<forall>config rc raw. ClientConfig L config = Inr rc \<longrightarrow> RawConfig L config = Inr raw \<longrightarrow>
     Contexts raw (CurrentContext raw) \<noteq> None)"

text \<open>A REST configuration the libraries made is one they can build factories from.\<close>

definition builds_factories :: "('cc, 'rc) client_libs \<Rightarrow> bool" where
  "builds_factories L \<longleftrightarrow>
     (\<forall>config rc ns. ClientConfig L config = Inr rc \<longrightarrow> NewKubevirtFactory L rc ns = None \<and> NewLbFactory L rc = None) \<and>
     (\<forall>path rc. GetNonInteractiveClientConfig L path = Inr rc \<longrightarrow> NewCoreFactory L rc = None)"

text \<open>The steps that may fail, as a specification: the first error in this order.\<close>

definition first_error :: "('cc, 'rc) client_libs \<Rightarrow> string \<Rightarrow> string \<Rightarrow> go_error option" where
  "first_error L KUBECONFIG bytes = (case NewClientConfigFromBytes L bytes of
     Inl e \<Rightarrow> Some e
   | Inr config \<Rightarrow> map_option projl (find isl
       [map_sum id (\<lambda>_. ()) (ClientConfig L config), map_sum id (\<lambda>_. ()) (RawConfig L config),
        map_sum id (\<lambda>_. ()) (GetNonInteractiveClientConfig L KUBECONFIG), GetKubevirtClientFromClientConfig L config]))"

lemma newCloudProvider_bytes:
  assumes "confirms_context L" "builds_factories L"
  shows "case first_error L kc bytes of
     Some e \<Rightarrow> newCloudProvider L kc cfg (Some (Inr bytes)) = Error e
   | None \<Rightarrow> \<exists>config ctx E. selects_context L bytes config ctx \<and>
       newCloudProvider L kc cfg (Some (Inr bytes)) = Return (buildCloudProvider E cfg (ctxNamespace ctx))"
proof (cases "NewClientConfigFromBytes L bytes")
  case (Inr config)
  note new = this
  show ?thesis
  proof (cases "ClientConfig L config")
    case (Inr rc)
    note cc = this
    show ?thesis
    proof (cases "RawConfig L config")
      case (Inr raw)
      then obtain ctx where "Contexts raw (CurrentContext raw) = Some ctx"
        using assms(1) cc unfolding confirms_context_def by blast
      moreover have "NewKubevirtFactory L rc ns = None" "NewLbFactory L rc = None" for ns
        using assms(2) cc unfolding builds_factories_def by blast+
      moreover have "GetNonInteractiveClientConfig L kc = Inr lc \<Longrightarrow> NewCoreFactory L lc = None" for lc
        using assms(2) unfolding builds_factories_def by blast
      ultimately show ?thesis using Inr cc new
        by (cases "GetNonInteractiveClientConfig L kc"; cases "GetKubevirtClientFromClientConfig L config")
          (auto simp: first_error_def newCloudProvider_def try_call_def or_die_def selects_context_def Let_def)
    qed (use new cc in \<open>simp add: first_error_def newCloudProvider_def try_call_def\<close>)
  qed (use new in \<open>simp add: first_error_def newCloudProvider_def try_call_def\<close>)
qed (simp add: first_error_def newCloudProvider_def try_call_def)

section \<open>Properties\<close>

text \<open>The constructor does not crash: with libraries that reject a kubeconfig whose current
  context is missing and that can build factories from what they accept, it returns an error
  exactly when there is no reader, reading fails or one of the five library calls fails, and then it
  is the first of these errors; otherwise it returns a provider for the namespace of the current
  context.\<close>

lemma newCloudProvider_total:
  assumes "confirms_context L" "builds_factories L"
  shows "case rd of
      None \<Rightarrow> \<exists>m. newCloudProvider L kc cfg rd = Error (Errorf m [])
    | Some (Inl e) \<Rightarrow> newCloudProvider L kc cfg rd = Error e
    | Some (Inr bytes) \<Rightarrow> (case first_error L kc bytes of
        Some e \<Rightarrow> newCloudProvider L kc cfg rd = Error e
      | None \<Rightarrow> \<exists>config ctx E. selects_context L bytes config ctx \<and>
          newCloudProvider L kc cfg rd = Return (buildCloudProvider E cfg (ctxNamespace ctx)))"
proof (cases rd)
  case (Some r)
  then show ?thesis
    by (cases r) (use newCloudProvider_bytes [OF assms, where kc = kc and cfg = cfg] in \<open>auto simp: newCloudProvider_def [of L kc cfg "Some (Inl e)" for e] try_call_def\<close>)
qed (simp add: newCloudProvider_def)

text \<open>C32: From the command line to the calls: when \<open>cloudInitializer\<close> returns a provider, it was asked
  for under its registered name with untagged clouds allowed and a readable cloud config, and however
  the workers of the provider interleave, each load balancer they create, update or delete is in the
  namespace of the current context of that cloud config (\<open>default\<close> if it has none), has the name of the load
  balancer of some service, and was looked up there under this name before.  The answers to lookups are assumed to be
  about the load balancer that was asked for.\<close>

theorem initialized_provider_confined:
  assumes "ccm_init L kc cfg Map.empty = Return ps" "cloudInitializer ps os_Open name file allow = Return cp"
    and "concurrent cfg (cpNamespace cp) h" "answers_named h"
  shows "name = ProviderName \<and> allow \<and> (\<exists>bytes config ctx. os_Open file = Inr (Inr bytes) \<and> selects_context L bytes config ctx \<and>
    (\<forall>pre e post ns n. h = pre @ e # post \<longrightarrow> lb_target e = Some (ns, n) \<longrightarrow>
       ns = contextNamespace (ctxNamespace ctx) \<and>
       (\<exists>cl (svc::service). n = loadBalancerName cl (svcNamespace svc) (svcName svc) (svcUID svc)) \<and> (\<exists>a. LbGet ns n a \<in> set pre)))"
proof -
  have ps: "ps = [ProviderName \<mapsto> newCloudProvider L kc cfg]" using assms(1) by (simp add: ccm_init_Return)
  have init: "InitCloudProvider ps os_Open name file = Return (Some cp)" and allow
    using assms(2) by (simp_all add: cloudInitializer_Return)
  from init obtain rd where name: "name = ProviderName" and new: "newCloudProvider L kc cfg rd = Return cp"
    and rd: "rd = None \<or> (\<exists>r. rd = Some r \<and> os_Open file = Inr r)"
    by (auto simp: InitCloudProvider_Return GetCloudProvider_Return ps split: if_splits)
  from new obtain bytes config ctx E where bytes: "rd = Some (Inr bytes)" "selects_context L bytes config ctx"
    and cp: "cp = buildCloudProvider E cfg (ctxNamespace ctx)" by (rule newCloudProvider_Return)
  have ns: "contextNamespace (cpNamespace cp) = contextNamespace (ctxNamespace ctx)" by (simp add: cp build_namespace)
  have "ns = contextNamespace (ctxNamespace ctx) \<and>
       (\<exists>cl (svc::service). n = loadBalancerName cl (svcNamespace svc) (svcName svc) (svcUID svc)) \<and> (\<exists>a. LbGet ns n a \<in> set pre)"
    if "h = pre @ e # post" "lb_target e = Some (ns, n)" for pre e post ns n
  proof -
    have "write_allowed cfg (cpNamespace cp) pre e"
      using shared.concurrent_always [OF assms(3)] that(1) by (auto simp: always_def)
    moreover have "answers_named pre" using assms(4) that(1) by (auto simp: answers_named_def)
    ultimately have "ns = lmNamespace (loadBalancers (startProvider empty_env cfg (cpNamespace cp))) \<and>
        (\<exists>cl svc. n = lb_name_of cl svc) \<and> (\<exists>a. LbGet ns n a \<in> set pre)"
      unfolding write_allowed_def by (rule provider_lb_write [OF _ that(2)])
    then show ?thesis unfolding startProvider_simps ns lb_name_of_def .
  qed
  then show ?thesis using name \<open>allow\<close> bytes rd by blast
qed

section \<open>Witnesses\<close>

text \<open>Libraries for which the bytes of a kubeconfig are the namespace of its only context.\<close>

definition demo_libs :: "env \<Rightarrow> (raw_config, unit) client_libs" where
  "demo_libs E = \<lparr>NewClientConfigFromBytes = (\<lambda>bytes. Inr \<lparr>CurrentContext = ''c'', Contexts = [''c'' \<mapsto> \<lparr>ctxNamespace = bytes\<rparr>]\<rparr>),
     ClientConfig = (\<lambda>c. if Contexts c (CurrentContext c) = None then Inl (OtherError ''no context'') else Inr ()),
     RawConfig = Inr, GetNonInteractiveClientConfig = (\<lambda>p. Inr ()),
     NewKubevirtFactory = (\<lambda>c ns. None), GetKubevirtClientFromClientConfig = (\<lambda>c. Inr ()), NewCoreFactory = (\<lambda>c. None),
     NewLbFactory = (\<lambda>c. None), Clients = (\<lambda>c d ns. E)\<rparr>"

lemma demo_libs_ok: "confirms_context (demo_libs E)" "builds_factories (demo_libs E)"
  by (auto simp: demo_libs_def confirms_context_def builds_factories_def split: if_splits)

lemma demo_new: "newCloudProvider (demo_libs E) [] zero_config (Some (Inr bytes)) = Return (buildCloudProvider E zero_config bytes)"
  by (simp add: newCloudProvider_def demo_libs_def try_call_def or_die_def Let_def)

lemma demo_first_error: "first_error (demo_libs E) [] bytes = None"
  by (simp add: first_error_def demo_libs_def)

text \<open>A worker that has just created the load balancer of the demo service.\<close>

definition created_run :: history where
  "created_run = take 3 (op_trace (startProvider empty_env zero_config ''default'') (OpEnsureLoadBalancer ''c1'' demo_svc) [])"

lemma created_run_eq:
  "\<exists>lb r. created_run = [LbGet ''default'' (lb_name_of ''c1'' demo_svc) (Fail not_found None), LbGet ''default'' (lb_name_of ''c1'' demo_svc) (Fail not_found None),
     LbCreate lb r]"
  by (simp add: created_run_def EnsureLoadBalancer_def resolveNetworkInterface_def getPrimaryService_def ensurePrimaryLoadBalancer_def
      checkNetworkChanged_def networkChangedError_def createOrUpdateLoadBalancer_def warnClusterName_def DefaultGuestClusterName_def
      other_error_def resp_err_def resp_obj_def startProvider_def Initialize_def Register_def buildCloudProvider_def contextNamespace_def
      DefaultNamespace_def empty_env_def demo_svc_def mlookup_def lb_name_of_def Let_def)

theorem initialized_provider_confined_witness:
  "\<exists>pre lb r. created_run = pre @ [LbCreate lb r] \<and> lbNamespace lb = ''default'' \<and> (\<exists>a. LbGet ''default'' (lbName lb) a \<in> set pre)"
proof -
  let ?cp = "buildCloudProvider empty_env zero_config []"
  let ?ps = "[ProviderName \<mapsto> newCloudProvider (demo_libs empty_env) [] zero_config]"
  have init: "cloudInitializer ?ps (\<lambda>p. Inr (Inr [])) ProviderName ''/etc/cloud'' True = Return ?cp"
    by (simp add: cloudInitializer_Return InitCloudProvider_Return GetCloudProvider_Return demo_new ProviderName_def)
  have "cpNamespace ?cp = ''default''" by (simp add: buildCloudProvider_def contextNamespace_def DefaultNamespace_def Let_def)
  moreover have "concurrent zero_config ''default'' created_run"
    by (rule worker [OF idle created_run_def]) simp
  ultimately have run: "concurrent zero_config (cpNamespace ?cp) created_run" by simp
  obtain lb r where eq: "created_run = [LbGet ''default'' (lb_name_of ''c1'' demo_svc) (Fail not_found None),
      LbGet ''default'' (lb_name_of ''c1'' demo_svc) (Fail not_found None)] @ LbCreate lb r # []"
    using created_run_eq by auto
  have "answers_named created_run" unfolding answers_named_def eq by (auto simp: resp_obj_def)
  from initialized_provider_confined [OF ccm_init_Return init run this] obtain config ctx where
    "selects_context (demo_libs empty_env) [] config ctx"
    and all: "\<forall>pre e post ns n. created_run = pre @ e # post \<longrightarrow> lb_target e = Some (ns, n) \<longrightarrow>
       ns = contextNamespace (ctxNamespace ctx) \<and>
       (\<exists>cl (svc::service). n = loadBalancerName cl (svcNamespace svc) (svcName svc) (svcUID svc)) \<and> (\<exists>a. LbGet ns n a \<in> set pre)"
    by blast
  then have "contextNamespace (ctxNamespace ctx) = ''default''"
    by (auto simp: selects_context_def demo_libs_def contextNamespace_def DefaultNamespace_def)
  with all [rule_format, OF eq, of "lbNamespace lb" "lbName lb"] have "lbNamespace lb = ''default'' \<and> (\<exists>a. LbGet ''default'' (lbName lb) a \<in>
      set [LbGet ''default'' (lb_name_of ''c1'' demo_svc) (Fail not_found None), LbGet ''default'' (lb_name_of ''c1'' demo_svc) (Fail not_found None)])"
    by simp
  with eq show ?thesis by blast
qed

end
