(* ===== verification/Framework.thy ===== *)
theory Framework
  imports Traces
begin

text \<open>
  The calls the controllers of the framework (\<open>k8s.io/cloud-provider/controllers\<close>) make on their own,
  beside those of the provider: reading and patching services, listing and deleting nodes.  Their
  answers are an environment like that of the provider, and their events go into the same history.
\<close>

section \<open>Calls\<close>

record fw_env =
  fwSvcGet :: "history \<Rightarrow> string \<Rightarrow> string \<Rightarrow> svc_object resp"
  fwSvcPatch :: "history \<Rightarrow> svc_object \<Rightarrow> svc_object \<Rightarrow> svc_object resp"
  fwNodeList :: "history \<Rightarrow> node_object list resp"
  fwNodeDelete :: "history \<Rightarrow> string \<Rightarrow> go_error option"
  fwNodeGet :: "history \<Rightarrow> string \<Rightarrow> node_object resp"
  fwNodeUpdate :: "history \<Rightarrow> node_object \<Rightarrow> node_object resp"
  fwNodePatchStatus :: "history \<Rightarrow> string \<Rightarrow> node_address list \<Rightarrow> go_error option"
  fwNodePatchLabels :: "history \<Rightarrow> string \<Rightarrow> node \<Rightarrow> gomap \<Rightarrow> go_error option"

definition svcListerGet :: "fw_env \<Rightarrow> string \<Rightarrow> string \<Rightarrow> svc_object resp io" where
  "svcListerGet F ns n = call (\<lambda>h. fwSvcGet F h ns n) (FwSvcGet ns n)"

definition svcPatch :: "fw_env \<Rightarrow> svc_object \<Rightarrow> svc_object \<Rightarrow> svc_object resp io" where
  "svcPatch F old new = call (\<lambda>h. fwSvcPatch F h old new) (FwSvcPatch old new)"

definition nodeListerList :: "fw_env \<Rightarrow> node_object list resp io" where
  "nodeListerList F = call (fwNodeList F) FwNodeList"

definition nodeDelete :: "fw_env \<Rightarrow> string \<Rightarrow> go_error option io" where
  "nodeDelete F n = call (\<lambda>h. fwNodeDelete F h n) (FwNodeDelete n)"

definition nodeListerGet :: "fw_env \<Rightarrow> string \<Rightarrow> node_object resp io" where
  "nodeListerGet F n = call (\<lambda>h. fwNodeGet F h n) (FwNodeGet n)"

definition nodeUpdate :: "fw_env \<Rightarrow> node_object \<Rightarrow> node_object resp io" where
  "nodeUpdate F no = call (\<lambda>h. fwNodeUpdate F h no) (FwNodeUpdate no)"

definition nodePatchStatus :: "fw_env \<Rightarrow> string \<Rightarrow> node_address list \<Rightarrow> go_error option io" where
  "nodePatchStatus F n as = call (\<lambda>h. fwNodePatchStatus F h n as) (FwNodePatchStatus n as)"

definition nodePatchLabels :: "fw_env \<Rightarrow> string \<Rightarrow> node \<Rightarrow> gomap \<Rightarrow> go_error option io" where
  "nodePatchLabels F n nd ls = call (\<lambda>h. fwNodePatchLabels F h n nd ls) (FwNodePatchLabels n nd ls)"

lemma appends_fw [simp]:
  "appends (svcListerGet F ns n)" "appends (svcPatch F old new)" "appends (nodeListerList F)" "appends (nodeDelete F n)"
  "appends (nodeListerGet F n)" "appends (nodeUpdate F no)" "appends (nodePatchStatus F n as)" "appends (nodePatchLabels F n nd ls)"
  by (simp_all add: svcListerGet_def svcPatch_def nodeListerList_def nodeDelete_def nodeListerGet_def nodeUpdate_def
      nodePatchStatus_def nodePatchLabels_def)

lemma result_of_fw [simp, io_simps]:
  "result_of (svcListerGet F ns n) h = fwSvcGet F h ns n"
  "result_of (svcPatch F old new) h = fwSvcPatch F h old new"
  "result_of (nodeListerList F) h = fwNodeList F h"
  "result_of (nodeDelete F n) h = fwNodeDelete F h n"
  "result_of (nodeListerGet F n) h = fwNodeGet F h n"
  "result_of (nodeUpdate F no) h = fwNodeUpdate F h no"
  "result_of (nodePatchStatus F n as) h = fwNodePatchStatus F h n as"
  "result_of (nodePatchLabels F n nd ls) h = fwNodePatchLabels F h n nd ls"
  by (simp_all add: result_of_call svcListerGet_def svcPatch_def nodeListerList_def nodeDelete_def nodeListerGet_def nodeUpdate_def
      nodePatchStatus_def nodePatchLabels_def)

lemma trace_of_fw [simp, io_simps]:
  "trace_of (svcListerGet F ns n) h = [FwSvcGet ns n (fwSvcGet F h ns n)]"
  "trace_of (svcPatch F old new) h = [FwSvcPatch old new (fwSvcPatch F h old new)]"
  "trace_of (nodeListerList F) h = [FwNodeList (fwNodeList F h)]"
  "trace_of (nodeDelete F n) h = [FwNodeDelete n (fwNodeDelete F h n)]"
  "trace_of (nodeListerGet F n) h = [FwNodeGet n (fwNodeGet F h n)]"
  "trace_of (nodeUpdate F no) h = [FwNodeUpdate no (fwNodeUpdate F h no)]"
  "trace_of (nodePatchStatus F n as) h = [FwNodePatchStatus n as (fwNodePatchStatus F h n as)]"
  "trace_of (nodePatchLabels F n nd ls) h = [FwNodePatchLabels n nd ls (fwNodePatchLabels F h n nd ls)]"
  by (simp_all add: trace_of_call svcListerGet_def svcPatch_def nodeListerList_def nodeDelete_def nodeListerGet_def nodeUpdate_def
      nodePatchStatus_def nodePatchLabels_def)

text \<open>Services and nodes as they are asked for, every patch, update and deletion acknowledged.\<close>

definition quiet_fw :: "svc_object resp \<Rightarrow> node_object list \<Rightarrow> fw_env" where
  "quiet_fw r nodes = \<lparr>fwSvcGet = (\<lambda>h ns n. r), fwSvcPatch = (\<lambda>h old new. Ok new),
     fwNodeList = (\<lambda>h. Ok nodes), fwNodeDelete = (\<lambda>h n. None),
     fwNodeGet = (\<lambda>h n. case find (\<lambda>no. nodeName (noNode no) = n) nodes of Some no \<Rightarrow> Ok no | None \<Rightarrow> Fail not_found None),
     fwNodeUpdate = (\<lambda>h no. Ok no), fwNodePatchStatus = (\<lambda>h n as. None), fwNodePatchLabels = (\<lambda>h n nd ls. None)\<rparr>"

end
