(* ===== verification/WorkQueue.thy ===== *)
theory WorkQueue
  imports Prelude
begin

text \<open>
  The rate limiting work queue of the client library (\<open>k8s.io/client-go/util/workqueue\<close>), through which the
  service controller hears of changes.  The queue proper has a slice of keys, the dirty set and the
  processing set; around it are the delaying queue, which holds keys back until a point in time, and the
  rate limiter, which counts failures.  Times and delays are in nanoseconds.  All operations take the lock of the queue, so
  the operations of several goroutines are sequences of steps (\<open>wq_path\<close>).
\<close>

section \<open>State and operations\<close>

record 'k wqueue =
  wqQueue :: "'k list"
  wqDirty :: "'k set"
  wqProcessing :: "'k set"
  wqShuttingDown :: bool
  wqChan :: "('k \<times> nat) list" \<comment> \<open>\<open>waitingForAddCh\<close>: keys with the time they are ready\<close>
  wqWaiting :: "('k \<times> nat) list" \<comment> \<open>the heap of \<open>waitingLoop\<close>, the next one first\<close>
  wqFailures :: "'k \<Rightarrow> nat"

definition wq_new :: "'k wqueue" where
  "wq_new = \<lparr>wqQueue = [], wqDirty = {}, wqProcessing = {}, wqShuttingDown = False, wqChan = [], wqWaiting = [],
     wqFailures = (\<lambda>k. 0)\<rparr>"

definition wq_Add :: "'k \<Rightarrow> 'k wqueue \<Rightarrow> 'k wqueue" where
  "wq_Add item q =
     (if wqShuttingDown q then q
      else if item \<in> wqDirty q then q
      else let q1 = q\<lparr>wqDirty := insert item (wqDirty q)\<rparr> in
        if item \<in> wqProcessing q then q1 else q1\<lparr>wqQueue := wqQueue q @ [item]\<rparr>)"

text \<open>Without an item, \<open>Get\<close> waits, or tells the worker to end when the queue is shutting down.\<close>

definition wq_Get :: "'k wqueue \<Rightarrow> 'k option \<times> 'k wqueue" where
  "wq_Get q = (case wqQueue q of
     [] \<Rightarrow> (None, q)
   | item # rest \<Rightarrow>
       (Some item, q\<lparr>wqQueue := rest, wqProcessing := insert item (wqProcessing q), wqDirty := wqDirty q - {item}\<rparr>))"

definition wq_Done :: "'k \<Rightarrow> 'k wqueue \<Rightarrow> 'k wqueue" where
  "wq_Done item q =
     (let q1 = q\<lparr>wqProcessing := wqProcessing q - {item}\<rparr> in
      if item \<in> wqDirty q then q1\<lparr>wqQueue := wqQueue q @ [item]\<rparr> else q1)"

definition wq_ShutDown :: "'k wqueue \<Rightarrow> 'k wqueue" where
  "wq_ShutDown q = q\<lparr>wqShuttingDown := True\<rparr>"

text \<open>\<open>insert\<close>: a known key keeps the earlier of the two times.  The heap does not say which of two entries with the
  same time comes first.\<close>

definition wq_insert :: "'k \<Rightarrow> nat \<Rightarrow> ('k \<times> nat) list \<Rightarrow> ('k \<times> nat) list" where
  "wq_insert k t ws = (case map_of ws k of
     Some t0 \<Rightarrow> if t < t0 then insort_key snd (k, t) (filter (\<lambda>w. fst w \<noteq> k) ws) else ws
   | None \<Rightarrow> insort_key snd (k, t) ws)"

definition wq_AddAfter :: "'k \<Rightarrow> nat \<Rightarrow> nat \<Rightarrow> 'k wqueue \<Rightarrow> 'k wqueue" where
  "wq_AddAfter item duration now q =
     (if wqShuttingDown q then q
      else if duration \<le> 0 then wq_Add item q
      else q\<lparr>wqChan := wqChan q @ [(item, now + duration)]\<rparr>)"

text \<open>
  One pass of \<open>waitingLoop\<close>: the entries that are ready are added, then the loop waits for the heartbeat, the timer
  of the first entry or the channel; only in the last case (\<open>waitingRound\<close>) is the channel emptied.
\<close>

fun addReady :: "nat \<Rightarrow> ('k \<times> nat) list \<Rightarrow> 'k wqueue \<Rightarrow> 'k wqueue" where
  "addReady now [] q = q\<lparr>wqWaiting := []\<rparr>"
| "addReady now ((k, t) # ws) q =
     (if now < t then q\<lparr>wqWaiting := (k, t) # ws\<rparr> else addReady now ws (wq_Add k q))"

fun drainChan :: "nat \<Rightarrow> ('k \<times> nat) list \<Rightarrow> 'k wqueue \<Rightarrow> 'k wqueue" where
  "drainChan now [] q = q\<lparr>wqChan := []\<rparr>"
| "drainChan now ((k, t) # cs) q =
     drainChan now cs (if now < t then q\<lparr>wqWaiting := wq_insert k t (wqWaiting q)\<rparr> else wq_Add k q)"

definition waitingTick :: "nat \<Rightarrow> 'k wqueue \<Rightarrow> 'k wqueue" where
  "waitingTick now q = (if wqShuttingDown q then q else addReady now (wqWaiting q) q)"

definition waitingRound :: "nat \<Rightarrow> 'k wqueue \<Rightarrow> 'k wqueue" where
  "waitingRound now q =
     (if wqShuttingDown q then q
      else let q1 = addReady now (wqWaiting q) q in drainChan now (wqChan q1) q1)"

text \<open>
  The rate limiter.  The product in the source is a floating-point one; it is exact for the delays used here, a
  multiple of a power of two that fits, or it exceeds the limit.
\<close>

definition minRetryDelay :: nat where "minRetryDelay = 5 * 10 ^ 9"
definition maxRetryDelay :: nat where "maxRetryDelay = 300 * 10 ^ 9"

definition wq_When :: "'k \<Rightarrow> 'k wqueue \<Rightarrow> nat \<times> 'k wqueue" where
  "wq_When item q =
     (let exp = wqFailures q item;
          q1 = q\<lparr>wqFailures := (wqFailures q)(item := wqFailures q item + 1)\<rparr>;
          backoff = minRetryDelay * 2 ^ exp in
      if backoff > 2 ^ 63 - 1 then (maxRetryDelay, q1)
      else if backoff > maxRetryDelay then (maxRetryDelay, q1)
      else (backoff, q1))"

definition wq_Forget :: "'k \<Rightarrow> 'k wqueue \<Rightarrow> 'k wqueue" where
  "wq_Forget item q = q\<lparr>wqFailures := (wqFailures q)(item := 0)\<rparr>"

definition wq_AddRateLimited :: "'k \<Rightarrow> nat \<Rightarrow> 'k wqueue \<Rightarrow> 'k wqueue" where
  "wq_AddRateLimited item now q = (case wq_When item q of (d, q1) \<Rightarrow> wq_AddAfter item d now q1)"

section \<open>Steps\<close>

text \<open>A worker calls \<open>Done\<close> for the key it got, and nobody else does.\<close>

datatype 'k wq_op = WAdd 'k | WGot 'k | WDone 'k | WRetry 'k nat | WForget 'k | WTick nat | WRound nat | WShutDown

inductive wq_step :: "'k wqueue \<Rightarrow> 'k wq_op \<Rightarrow> 'k wqueue \<Rightarrow> bool" where
  add: "wq_step q (WAdd k) (wq_Add k q)"
| got: "wq_Get q = (Some k, q') \<Longrightarrow> wq_step q (WGot k) q'"
| finished: "k \<in> wqProcessing q \<Longrightarrow> wq_step q (WDone k) (wq_Done k q)"
| retry: "wq_step q (WRetry k now) (wq_AddRateLimited k now q)"
| forget: "wq_step q (WForget k) (wq_Forget k q)"
| tick: "wq_step q (WTick now) (waitingTick now q)"
| round: "wq_step q (WRound now) (waitingRound now q)"
| shutdown: "wq_step q WShutDown (wq_ShutDown q)"

inductive wq_path :: "'k wqueue \<Rightarrow> 'k wq_op list \<Rightarrow> 'k wqueue \<Rightarrow> bool" where
  stop: "wq_path q [] q"
| step: "wq_step q op q1 \<Longrightarrow> wq_path q1 ops q2 \<Longrightarrow> wq_path q (op # ops) q2"

inductive_simps wq_path_simps [simp]: "wq_path q [] q'" "wq_path q (op # ops) q'"
inductive_simps wq_step_simps: "wq_step q (WAdd k) q'" "wq_step q (WGot k) q'" "wq_step q (WDone k) q'"
  "wq_step q (WRetry k now) q'" "wq_step q (WForget k) q'" "wq_step q (WTick now) q'" "wq_step q (WRound now) q'" "wq_step q WShutDown q'"

lemma wq_path_append: "wq_path q (ops @ ops') q' \<longleftrightarrow> (\<exists>q1. wq_path q ops q1 \<and> wq_path q1 ops' q')"
  by (induction ops arbitrary: q) auto

section \<open>The sets of the queue\<close>

text \<open>The slice holds exactly the keys that are to be processed and that no worker holds, once each.\<close>

definition wq_inv :: "'k wqueue \<Rightarrow> bool" where
  "wq_inv q \<longleftrightarrow> distinct (wqQueue q) \<and> set (wqQueue q) = wqDirty q - wqProcessing q"

text \<open>
  What several additions in a row do: keys are only added, at the end of the slice.  The operations
  that add keys are instances of this relation.
\<close>

definition grows :: "'k wqueue \<Rightarrow> 'k wqueue \<Rightarrow> bool" where
  "grows q q' \<longleftrightarrow> wqDirty q \<subseteq> wqDirty q' \<and> wqProcessing q' = wqProcessing q \<and> wqShuttingDown q' = wqShuttingDown q \<and>
     (\<exists>new. wqQueue q' = wqQueue q @ new) \<and> (wq_inv q \<longrightarrow> wq_inv q')"

lemma grows_refl [simp]: "grows q q"
  by (simp add: grows_def)

lemma grows_trans: "grows q q1 \<Longrightarrow> grows q1 q2 \<Longrightarrow> grows q q2"
  unfolding grows_def by fastforce

lemma grows_fields [simp]:
  "grows q (q\<lparr>wqWaiting := ws\<rparr>)" "grows q (q\<lparr>wqChan := cs\<rparr>)" "grows q (q\<lparr>wqFailures := f\<rparr>)"
  by (simp_all add: grows_def wq_inv_def)

lemma grows_Add [simp]: "grows q (wq_Add k q)"
  by (auto simp: grows_def wq_Add_def wq_inv_def Let_def)

lemma grows_addReady: "grows q (addReady now ws q)"
  by (induction now ws q rule: addReady.induct) (auto intro: grows_trans [OF grows_Add])

lemma grows_drainChan: "grows q (drainChan now cs q)"
proof (induction now cs q rule: drainChan.induct)
  case (2 now k t cs q)
  have "grows q (if now < t then q\<lparr>wqWaiting := wq_insert k t (wqWaiting q)\<rparr> else wq_Add k q)" by simp
  from grows_trans [OF this 2] show ?case by (simp only: drainChan.simps)
qed simp

lemma grows_tick: "grows q (waitingTick now q)"
  by (simp add: waitingTick_def grows_addReady)

lemma grows_round: "grows q (waitingRound now q)"
  by (simp add: waitingRound_def Let_def grows_trans [OF grows_addReady grows_drainChan])

lemma grows_AddRateLimited: "grows q (wq_AddRateLimited k now q)"
proof -
  have "grows q (wq_AddAfter k d now (q\<lparr>wqFailures := f\<rparr>))" for d f
    using grows_trans [OF grows_fields(3) [of q f]] by (simp add: wq_AddAfter_def)
  then show ?thesis by (simp add: wq_AddRateLimited_def wq_When_def Let_def)
qed

lemmas grows_ops = grows_Add grows_tick grows_round grows_AddRateLimited grows_fields(3)

lemma wq_step_cases:
  assumes "wq_step q op q'"
  obtains (grows) "grows q q'" "\<And>k. op \<noteq> WGot k" "\<And>k. op \<noteq> WDone k"
  | (got) k rest where "op = WGot k" "wqQueue q = k # rest"
      "q' = q\<lparr>wqQueue := rest, wqProcessing := insert k (wqProcessing q), wqDirty := wqDirty q - {k}\<rparr>"
  | (finished) k where "op = WDone k" "k \<in> wqProcessing q" "q' = wq_Done k q"
  | (shutdown) "op = WShutDown" "q' = wq_ShutDown q"
  using assms
proof cases
  case (got k)
  then show ?thesis using that(2) by (auto simp: wq_Get_def split: list.splits)
qed (rule that(1) that(3) that(4); simp add: grows_ops wq_Forget_def)+

lemma wq_step_inv: "wq_step q op q' \<Longrightarrow> wq_inv q \<Longrightarrow> wq_inv q'"
  by (erule wq_step_cases) (auto simp: grows_def wq_inv_def wq_Done_def wq_ShutDown_def Let_def)

lemma wq_path_inv: "wq_path q ops q' \<Longrightarrow> wq_inv q \<Longrightarrow> wq_inv q'"
  by (induction rule: wq_path.induct) (auto intro: wq_step_inv)

lemma wq_new_inv [simp]: "wq_inv wq_new"
  by (simp add: wq_inv_def wq_new_def)

section \<open>A key has at most one worker\<close>

lemma wq_step_processing:
  "wq_step q op q' \<Longrightarrow> wq_inv q \<Longrightarrow> k \<in> wqProcessing q \<Longrightarrow> op \<noteq> WDone k \<Longrightarrow> k \<in> wqProcessing q' \<and> op \<noteq> WGot k"
  by (erule wq_step_cases) (auto simp: grows_def wq_inv_def wq_Done_def wq_ShutDown_def Let_def)

lemma wq_path_processing:
  "wq_path q ops q' \<Longrightarrow> wq_inv q \<Longrightarrow> k \<in> wqProcessing q \<Longrightarrow> WDone k \<notin> set ops \<Longrightarrow> k \<in> wqProcessing q' \<and> WGot k \<notin> set ops"
  by (induction rule: wq_path.induct) (use wq_step_processing wq_step_inv in fastforce)+

section \<open>Added keys are handed out\<close>

lemma wq_step_dirty:
  "wq_step q op q' \<Longrightarrow> k \<in> wqDirty q \<Longrightarrow> op \<noteq> WGot k \<Longrightarrow> k \<in> wqDirty q'"
  by (erule wq_step_cases) (auto simp: grows_def wq_Done_def wq_ShutDown_def Let_def)

lemma wq_path_dirty:
  "wq_path q ops q' \<Longrightarrow> k \<in> wqDirty q \<Longrightarrow> WGot k \<notin> set ops \<Longrightarrow> k \<in> wqDirty q'"
  by (induction rule: wq_path.induct) (auto dest: wq_step_dirty)

definition gots :: "'k wq_op list \<Rightarrow> nat" where
  "gots ops = length (filter (\<lambda>op. \<exists>k. op = WGot k) ops)"

lemma gots_simps [simp]:
  "gots [] = 0" "gots (WGot k # ops) = Suc (gots ops)" "\<nexists>k. op = WGot k \<Longrightarrow> gots (op # ops) = gots ops"
  by (auto simp: gots_def)

text \<open>The keys in front of a queued key leave one by one.\<close>

lemma wq_step_ahead:
  assumes "wq_step q op q'" "wqQueue q = xs @ k # ys" "op \<noteq> WGot k"
  shows "\<exists>xs' ys'. wqQueue q' = xs' @ k # ys' \<and> length xs = length xs' + gots [op]"
  using assms(1)
proof (cases rule: wq_step_cases)
  case (got j rest)
  then obtain x xs' where "xs = x # xs'" using assms(2,3) by (cases xs) auto
  with got assms(2) show ?thesis by (intro exI [of _ xs'] exI [of _ ys]) simp
qed (use assms(2) in \<open>auto simp: grows_def wq_Done_def wq_ShutDown_def Let_def\<close>)

lemma wq_path_ahead:
  assumes "wq_path q ops q'" "wqQueue q = xs @ k # ys" "WGot k \<notin> set ops"
  shows "gots ops \<le> length xs"
  using assms
proof (induction arbitrary: xs ys rule: wq_path.induct)
  case (step q op q1 ops q2)
  have "op \<noteq> WGot k" "WGot k \<notin> set ops" using step.prems(2) by auto
  moreover obtain xs' ys' where "wqQueue q1 = xs' @ k # ys'" "length xs = length xs' + gots [op]"
    using wq_step_ahead [OF step.hyps(1) step.prems(1)] calculation(1) by blast
  ultimately have "gots ops \<le> length xs'" "length xs = length xs' + gots [op]" using step.IH by blast+
  moreover have "gots (op # ops) = gots [op] + gots ops" by (simp add: gots_def)
  ultimately show ?case by simp
qed simp

section \<open>Keys that wait\<close>

definition waiting_ok :: "('k \<times> nat) list \<Rightarrow> bool" where
  "waiting_ok ws \<longleftrightarrow> sorted (map snd ws) \<and> distinct (map fst ws)"

definition waits :: "('k \<times> nat) list \<Rightarrow> 'k \<Rightarrow> nat \<Rightarrow> bool" where
  "waits ws k T \<longleftrightarrow> (\<exists>t\<le>T. (k, t) \<in> set ws)"

text \<open>A key that is in the queue, or will be at a certain time.\<close>

definition pending_by :: "'k wqueue \<Rightarrow> 'k \<Rightarrow> nat \<Rightarrow> bool" where
  "pending_by q k T \<longleftrightarrow> k \<in> wqDirty q \<or> waits (wqChan q) k T \<or> waits (wqWaiting q) k T"

lemma waits_simps [simp]:
  "\<not> waits [] k T" "waits ((j, t) # ws) k T \<longleftrightarrow> (j = k \<and> t \<le> T) \<or> waits ws k T"
  "waits (ws @ ws') k T \<longleftrightarrow> waits ws k T \<or> waits ws' k T"
  by (auto simp: waits_def)

lemma waiting_ok_Nil [simp]: "waiting_ok []"
  by (simp add: waiting_ok_def)

lemma distinct_fst_insort: "distinct (map fst (insort_key f x ws)) \<longleftrightarrow> fst x \<notin> fst ` set ws \<and> distinct (map fst ws)"
  by (induction ws) (auto simp: set_insort_key)

lemma waiting_ok_insert: "waiting_ok ws \<Longrightarrow> waiting_ok (wq_insert k t ws)"
  by (auto simp: waiting_ok_def wq_insert_def sorted_insort_key sorted_filter set_insort_key distinct_map_filter
      map_of_eq_None_iff distinct_fst_insort split: option.split)

lemma waits_insert:
  assumes "waiting_ok ws"
  shows "waits (wq_insert k t ws) k t" "waits ws j T \<Longrightarrow> waits (wq_insert k t ws) j T"
proof -
  have *: "s = t0" if "map_of ws k = Some t0" "(k, s) \<in> set ws" for t0 s
    using assms that by (auto simp: waiting_ok_def)
  show "waits (wq_insert k t ws) k t"
    by (auto simp: waits_def wq_insert_def set_insort_key split: option.split dest: map_of_SomeD intro: not_less [THEN iffD1])
  show "waits ws j T \<Longrightarrow> waits (wq_insert k t ws) j T"
    by (cases "j = k") (auto simp: waits_def wq_insert_def set_insort_key split: option.split dest!: * intro: exI [of _ t])
qed

lemma wq_Add_rest [simp]:
  "wqWaiting (wq_Add k q) = wqWaiting q" "wqChan (wq_Add k q) = wqChan q" "wqShuttingDown (wq_Add k q) = wqShuttingDown q"
  "\<not> wqShuttingDown q \<Longrightarrow> k \<in> wqDirty (wq_Add k q)"
  by (auto simp: wq_Add_def Let_def)

lemma growsD: "grows q q' \<Longrightarrow> k \<in> wqDirty q \<Longrightarrow> k \<in> wqDirty q'" "grows q q' \<Longrightarrow> wqShuttingDown q' = wqShuttingDown q"
  by (auto simp: grows_def)

lemma addReady_rest:
  "wqChan (addReady now ws q) = wqChan q" "waiting_ok ws \<Longrightarrow> waiting_ok (wqWaiting (addReady now ws q))"
  by (induction now ws q rule: addReady.induct) (auto simp: waiting_ok_def)

lemma addReady_waits:
  "\<not> wqShuttingDown q \<Longrightarrow> waiting_ok ws \<Longrightarrow> waits ws k T \<Longrightarrow>
   k \<in> wqDirty (addReady now ws q) \<or> waits (wqWaiting (addReady now ws q)) k T \<and> now < T"
proof (induction now ws q rule: addReady.induct)
  case (2 now j t ws q)
  show ?case
  proof (cases "now < t")
    case True
    then have "now < T" using "2.prems" by (auto simp: waits_def waiting_ok_def)
    with True "2.prems" show ?thesis by simp
  next
    case False
    have ok: "waiting_ok ws" using "2.prems" by (simp add: waiting_ok_def)
    have "k \<in> wqDirty (addReady now ws (wq_Add j q))" if "j = k"
      using growsD(1) [OF grows_addReady wq_Add_rest(4) [OF "2.prems"(1)]] that by simp
    with False "2.IH" ok "2.prems" show ?thesis by auto
  qed
qed simp

lemma drainChan_rest:
  "wqChan (drainChan now cs q) = []" "waiting_ok (wqWaiting q) \<Longrightarrow> waiting_ok (wqWaiting (drainChan now cs q))"
  by (induction now cs q rule: drainChan.induct) (simp_all add: waiting_ok_insert)

lemma drainChan_keeps:
  "waiting_ok (wqWaiting q) \<Longrightarrow> waits (wqWaiting q) k T \<Longrightarrow> waits (wqWaiting (drainChan now cs q)) k T"
  by (induction now cs q rule: drainChan.induct) (simp_all add: waiting_ok_insert waits_insert(2))

lemma drainChan_waits:
  "\<not> wqShuttingDown q \<Longrightarrow> waiting_ok (wqWaiting q) \<Longrightarrow> waits cs k T \<Longrightarrow>
   k \<in> wqDirty (drainChan now cs q) \<or> waits (wqWaiting (drainChan now cs q)) k T \<and> now < T"
proof (induction now cs q rule: drainChan.induct)
  case (2 now j t cs q)
  let ?q = "if now < t then q\<lparr>wqWaiting := wq_insert j t (wqWaiting q)\<rparr> else wq_Add j q"
  have ok: "\<not> wqShuttingDown ?q" "waiting_ok (wqWaiting ?q)" using "2.prems" by (auto intro: waiting_ok_insert)
  show ?case
  proof (cases "waits cs k T")
    case True
    with "2.IH" ok show ?thesis by simp
  next
    case False
    then have "j = k" "t \<le> T" using "2.prems"(3) by auto
    show ?thesis
    proof (cases "now < t")
      case True
      have "waits (wqWaiting ?q) k t" using True \<open>j = k\<close> waits_insert(1) [OF "2.prems"(2)] by simp
      then have "waits (wqWaiting ?q) k T" using \<open>t \<le> T\<close> order_trans unfolding waits_def by blast
      then show ?thesis using drainChan_keeps [OF ok(2)] True \<open>t \<le> T\<close> by simp
    next
      case False
      then have "k \<in> wqDirty ?q" using \<open>j = k\<close> "2.prems"(1) by simp
      then show ?thesis by (simp only: drainChan.simps growsD(1) [OF grows_drainChan] simp_thms)
    qed
  qed
qed simp

text \<open>A round of the waiting loop adds a key whose time has come.\<close>

lemma round_pending:
  assumes "\<not> wqShuttingDown q" "waiting_ok (wqWaiting q)" "pending_by q k T"
  shows "pending_by (waitingRound now q) k T" "T \<le> now \<Longrightarrow> k \<in> wqDirty (waitingRound now q)"
proof -
  let ?q1 = "addReady now (wqWaiting q) q"
  have r: "waitingRound now q = drainChan now (wqChan q) ?q1"
    using assms(1) by (simp add: waitingRound_def Let_def addReady_rest)
  have q1: "\<not> wqShuttingDown ?q1" "waiting_ok (wqWaiting ?q1)"
    using assms growsD(2) [OF grows_addReady] addReady_rest(2) by blast+
  have "k \<in> wqDirty (waitingRound now q) \<or> waits (wqWaiting (waitingRound now q)) k T \<and> now < T"
    using assms(3) addReady_waits [OF assms(1,2), of k T now] drainChan_waits [OF q1, of "wqChan q" k T now]
      drainChan_keeps [OF q1(2), of k T now "wqChan q"] growsD(1) [OF grows_round, of k q now] growsD(1) [OF grows_drainChan, of k ?q1 now "wqChan q"]
    unfolding pending_by_def r by blast
  then show "pending_by (waitingRound now q) k T" "T \<le> now \<Longrightarrow> k \<in> wqDirty (waitingRound now q)"
    by (auto simp: pending_by_def)
qed

lemma tick_pending:
  assumes "\<not> wqShuttingDown q" "waiting_ok (wqWaiting q)" "pending_by q k T"
  shows "pending_by (waitingTick now q) k T" "waiting_ok (wqWaiting (waitingTick now q))"
  using assms addReady_waits [OF assms(1,2), of k T now] growsD(1) [OF grows_addReady, of k q now "wqWaiting q"]
  by (auto simp: waitingTick_def pending_by_def addReady_rest)

lemma AddRateLimited_pending:
  assumes "\<not> wqShuttingDown q"
  shows "pending_by (wq_AddRateLimited k now q) k (now + maxRetryDelay)"
    "pending_by q j T \<Longrightarrow> pending_by (wq_AddRateLimited k now q) j T"
    "wqWaiting (wq_AddRateLimited k now q) = wqWaiting q"
  using assms
  by (auto simp: wq_AddRateLimited_def wq_When_def wq_AddAfter_def pending_by_def minRetryDelay_def maxRetryDelay_def Let_def)

lemma round_waiting_ok: "waiting_ok (wqWaiting q) \<Longrightarrow> waiting_ok (wqWaiting (waitingRound now q))"
  by (simp add: waitingRound_def Let_def addReady_rest(2) drainChan_rest(2))

lemma wq_step_pending:
  assumes "wq_step q op q'" "\<not> wqShuttingDown q" "waiting_ok (wqWaiting q)" "pending_by q k T" "op \<noteq> WGot k" "op \<noteq> WShutDown"
  shows "\<not> wqShuttingDown q' \<and> waiting_ok (wqWaiting q') \<and> pending_by q' k T"
  using assms(1)
proof cases
  case (add j)
  then show ?thesis using assms growsD(1) [OF grows_Add, of k q j] by (auto simp: pending_by_def)
next
  case (retry j now)
  then show ?thesis using assms growsD(2) [OF grows_AddRateLimited, of j now q] by (simp add: AddRateLimited_pending(2,3))
next
  case (tick now)
  then show ?thesis using assms growsD(2) [OF grows_tick, of now q] by (simp add: tick_pending)
next
  case (round now)
  then show ?thesis using assms growsD(2) [OF grows_round, of now q] by (simp add: round_pending(1) round_waiting_ok)
qed (use assms in \<open>auto simp: pending_by_def wq_Get_def wq_Done_def wq_Forget_def Let_def split: list.splits\<close>)

lemma wq_path_pending:
  assumes "wq_path q ops q'" "\<not> wqShuttingDown q" "waiting_ok (wqWaiting q)" "pending_by q k T"
    and "WGot k \<notin> set ops" "WShutDown \<notin> set ops"
  shows "\<not> wqShuttingDown q' \<and> waiting_ok (wqWaiting q') \<and> pending_by q' k T"
  using assms by (induction rule: wq_path.induct) (use wq_step_pending in fastforce)+

lemma wq_step_waiting_ok: "wq_step q op q' \<Longrightarrow> waiting_ok (wqWaiting q) \<Longrightarrow> waiting_ok (wqWaiting q')"
  by (induction rule: wq_step.induct)
    (auto simp: round_waiting_ok waitingTick_def addReady_rest(2) wq_Get_def wq_Done_def wq_Forget_def wq_ShutDown_def wq_AddRateLimited_def wq_When_def wq_AddAfter_def Let_def
    split: list.splits)

lemma wq_path_waiting_ok: "wq_path q ops q' \<Longrightarrow> waiting_ok (wqWaiting q) \<Longrightarrow> waiting_ok (wqWaiting q')"
  by (induction rule: wq_path.induct) (auto dest: wq_step_waiting_ok)

section \<open>Properties\<close>

text \<open>C16: However many workers and event handlers use the queue, a key is never handed to a second worker before
  the first one is done with it.\<close>

theorem one_worker_per_key:
  assumes "wq_path wq_new (ops @ WGot k # ops' @ [WGot k]) q"
  shows "WDone k \<in> set ops'"
proof (rule ccontr)
  assume notin: "WDone k \<notin> set ops'"
  obtain q1 q2 where q: "wq_path wq_new ops q1" "wq_step q1 (WGot k) q2" and rest: "wq_path q2 (ops' @ [WGot k]) q"
    using assms by (auto simp: wq_path_append)
  have "wq_inv q2" using wq_step_inv [OF q(2) wq_path_inv [OF q(1) wq_new_inv]] .
  moreover have "k \<in> wqProcessing q2" using q(2) by (auto simp: wq_step_simps wq_Get_def split: list.splits)
  ultimately show False using wq_path_processing [OF rest] notin by auto
qed

text \<open>C17: No change is lost.  A key that is added is handed to a worker after the addition, at the latest when, from
  some moment at which no worker holds it, workers have taken as many keys as were queued then; so a
  synchronization of the key starts after the change, also when it was being processed.\<close>

theorem added_key_served:
  assumes "wq_path wq_new ops q" "\<not> wqShuttingDown q" "wq_path (wq_Add k q) ops' q'"
    and "k \<notin> wqProcessing q'" "wq_path q' ops'' q''" "length (wqQueue q') \<le> gots ops''"
  shows "WGot k \<in> set (ops' @ ops'')"
proof (rule ccontr)
  assume none: "WGot k \<notin> set (ops' @ ops'')"
  have "wq_inv (wq_Add k q)" using wq_path_inv [OF assms(1)] grows_Add [of q k] by (simp add: grows_def)
  then have "wq_inv q'" using wq_path_inv [OF assms(3)] by simp
  moreover have "k \<in> wqDirty q'" using wq_path_dirty [OF assms(3)] assms(2) none by simp
  ultimately have "k \<in> set (wqQueue q')" using assms(4) by (simp add: wq_inv_def)
  then obtain xs ys where "wqQueue q' = xs @ k # ys" by (auto simp: in_set_conv_decomp)
  then show False using wq_path_ahead [OF assms(5), of xs k ys] none assms(6) by simp
qed

text \<open>C18: A failed key comes back within five minutes: unless the queue is shut down, a key that a worker gives
  back after a failure is handed out, or is due for processing after the next round of the waiting loop five minutes
  later, however often it has failed before.\<close>

theorem failed_key_retried:
  assumes "wq_path wq_new ops q" "\<not> wqShuttingDown q"
    and "wq_path (wq_AddRateLimited k now q) ops' q'" "WShutDown \<notin> set ops'" "now + maxRetryDelay \<le> now'"
  shows "WGot k \<in> set ops' \<or> k \<in> wqDirty (waitingRound now' q')"
proof (cases "WGot k \<in> set ops'")
  case False
  have ok: "waiting_ok (wqWaiting q)" using wq_path_waiting_ok [OF assms(1)] by (simp add: wq_new_def)
  have sd: "\<not> wqShuttingDown (wq_AddRateLimited k now q)" using growsD(2) [OF grows_AddRateLimited, of k now q] assms(2) by simp
  note start = AddRateLimited_pending(1,3) [OF assms(2), of k now]
  have "\<not> wqShuttingDown q' \<and> waiting_ok (wqWaiting q') \<and> pending_by q' k (now + maxRetryDelay)"
    using wq_path_pending [OF assms(3) sd _ start(1) False assms(4)] ok start(2) by simp
  then show ?thesis using round_pending(2) [of q' k _ now'] assms(5) by blast
qed simp

section \<open>Witnesses\<close>

definition held_queue :: "string wqueue" where
  "held_queue = snd (wq_Get (wq_Add ''default/web'' wq_new))"

lemma held_queue_simps [simp]:
  "held_queue = wq_new\<lparr>wqProcessing := {''default/web''}\<rparr>"
  by (simp add: held_queue_def wq_Add_def wq_Get_def wq_new_def)

lemma held_queue_path: "wq_path wq_new [WAdd ''default/web'', WGot ''default/web''] held_queue"
  by (simp add: wq_step_simps wq_Add_def wq_Get_def wq_new_def)

theorem one_worker_per_key_witness:
  "\<exists>q. wq_path wq_new ([WAdd ''default/web''] @ WGot ''default/web'' # [WAdd ''default/web'', WDone ''default/web''] @ [WGot ''default/web'']) q \<and>
     WDone ''default/web'' \<in> set [WAdd ''default/web'', WDone ''default/web'']"
proof -
  have "\<exists>q. wq_path wq_new ([WAdd ''default/web''] @ WGot ''default/web'' # [WAdd ''default/web'', WDone ''default/web''] @ [WGot ''default/web'']) q"
    by (simp add: wq_step_simps wq_Add_def wq_Get_def wq_Done_def wq_new_def Let_def)
  then obtain q where q: "wq_path wq_new ([WAdd ''default/web''] @ WGot ''default/web'' # [WAdd ''default/web'', WDone ''default/web''] @ [WGot ''default/web'']) q" ..
  from q one_worker_per_key [OF q] show ?thesis by (intro exI conjI)
qed

theorem added_key_served_witness:
  "\<exists>q. wq_path (wq_Add ''default/web'' held_queue) [WDone ''default/web'', WGot ''default/web''] q \<and>
     WGot ''default/web'' \<in> set ([WDone ''default/web''] @ [WGot ''default/web''])"
proof -
  let ?q1 = "wq_Done ''default/web'' (wq_Add ''default/web'' held_queue)"
  have 1: "wq_path (wq_Add ''default/web'' held_queue) [WDone ''default/web''] ?q1" "''default/web'' \<notin> wqProcessing ?q1"
    "length (wqQueue ?q1) \<le> gots [WGot ''default/web'']" "\<not> wqShuttingDown held_queue"
    by (simp_all add: wq_step_simps wq_Add_def wq_Done_def wq_new_def Let_def)
  have 2: "wq_path ?q1 [WGot ''default/web''] (snd (wq_Get ?q1))"
    by (simp add: wq_step_simps wq_Add_def wq_Get_def wq_Done_def wq_new_def Let_def)
  have "wq_path (wq_Add ''default/web'' held_queue) ([WDone ''default/web''] @ [WGot ''default/web'']) (snd (wq_Get ?q1))"
    unfolding wq_path_append using 1(1) 2 by blast
  then show ?thesis using added_key_served [OF held_queue_path 1(4,1,2) 2 1(3)] by auto
qed

theorem failed_key_retried_witness:
  "''default/web'' \<in> wqDirty (waitingRound maxRetryDelay (wq_Done ''default/web'' (wq_AddRateLimited ''default/web'' 0 held_queue)))"
proof -
  let ?q = "wq_AddRateLimited ''default/web'' 0 held_queue"
  have "wq_path ?q [WDone ''default/web''] (wq_Done ''default/web'' ?q)" "\<not> wqShuttingDown held_queue"
    by (simp_all add: wq_step_simps wq_AddRateLimited_def wq_When_def wq_AddAfter_def wq_new_def minRetryDelay_def maxRetryDelay_def)
  then show ?thesis
    using failed_key_retried [OF held_queue_path, of "''default/web''" 0 "[WDone ''default/web'']" "wq_Done ''default/web'' ?q" maxRetryDelay]
    by simp
qed

end
