(* ===== verification/ServiceController.thy ===== *)
theory ServiceController
  imports Framework LBStore WorkQueue
begin

text \<open>
  The service controller of the framework (\<open>k8s.io/cloud-provider/controllers/service\<close>), the caller
  of the load balancer manager: changes of services put keys into its queue; for a key of the queue it reads
  the service, adds a finalizer and ensures the load balancer, or removes the load balancer and then the
  finalizer; when the nodes change it updates the load balancers of all services it knows.  Events for
  users and log lines are left out.
\<close>

section \<open>State and predicates\<close>

record service_controller =
  scBalancer :: lb_manager
  scClusterName :: string
  scEnv :: fw_env

text \<open>
  The cache of the services with a load balancer, and the nodes last synchronized per service.  An entry
  of the cache is only created together with its state, so it is never nil between two calls.
\<close>

record sc_state =
  scCache :: "string \<Rightarrow> svc_object option"
  scLastSyncedNodes :: "string \<Rightarrow> node_object list"

definition LoadBalancerCleanupFinalizer :: string where
  "LoadBalancerCleanupFinalizer = ''service.kubernetes.io/load-balancer-cleanup''"

definition ServiceTypeLoadBalancer :: string where
  "ServiceTypeLoadBalancer = ''LoadBalancer''"

definition ImplementedElsewhere :: go_error where
  "ImplementedElsewhere = OtherError ''implemented by alternate to cloud provider''"

definition HasLBFinalizer :: "svc_object \<Rightarrow> bool" where
  "HasLBFinalizer so = list_ex (\<lambda>f. f = LoadBalancerCleanupFinalizer) (soFinalizers so)"

definition wantsLoadBalancer :: "svc_object \<Rightarrow> bool" where
  "wantsLoadBalancer so \<longleftrightarrow> soType so = ServiceTypeLoadBalancer \<and> soLBClass so = None"

definition needsCleanup :: "svc_object \<Rightarrow> bool" where
  "needsCleanup so =
     (if \<not> HasLBFinalizer so then False
      else if soDeleted so then True
      else if soType so \<noteq> ServiceTypeLoadBalancer then True
      else False)"

fun removeString :: "string list \<Rightarrow> string \<Rightarrow> string list" where
  "removeString [] s = []"
| "removeString (item # items) s = (if item \<noteq> s then item # removeString items s else removeString items s)"

text \<open>\<open>cache.MetaNamespaceKeyFunc\<close> and \<open>cache.SplitMetaNamespaceKey\<close>.\<close>

definition MetaNamespaceKeyFunc :: "service \<Rightarrow> string" where
  "MetaNamespaceKeyFunc s = (if svcNamespace s \<noteq> [] then svcNamespace s @ ''/'' @ svcName s else svcName s)"

definition SplitMetaNamespaceKey :: "string \<Rightarrow> go_error + string \<times> string" where
  "SplitMetaNamespaceKey key = (case split_byte (CHR ''/'') key of
     [name] \<Rightarrow> Inr ([], name)
   | [namespace, name] \<Rightarrow> Inr (namespace, name)
   | _ \<Rightarrow> Inl (Errorf ''unexpected key format: %q'' [FQuote key]))"

section \<open>Patching the service\<close>

text \<open>\<open>PatchService\<close>: the specification is kept.\<close>

definition PatchService :: "service_controller \<Rightarrow> svc_object \<Rightarrow> svc_object \<Rightarrow> svc_object resp io" where
  "PatchService c oldSvc newSvc = svcPatch (scEnv c) oldSvc
     (newSvc\<lparr>soService := (soService newSvc)\<lparr>svcServicePorts := svcServicePorts (soService oldSvc)\<rparr>,
        soType := soType oldSvc, soLBClass := soLBClass oldSvc, soSpec := soSpec oldSvc\<rparr>)"

definition addFinalizer :: "service_controller \<Rightarrow> svc_object \<Rightarrow> go_error option io" where
  "addFinalizer c so =
     (if HasLBFinalizer so then ret None
      else do {
        r \<leftarrow> PatchService c so (so\<lparr>soFinalizers := soFinalizers so @ [LoadBalancerCleanupFinalizer]\<rparr>);
        ret (resp_err r)
      })"

definition removeFinalizer :: "service_controller \<Rightarrow> svc_object \<Rightarrow> go_error option io" where
  "removeFinalizer c so =
     (if \<not> HasLBFinalizer so then ret None
      else do {
        r \<leftarrow> PatchService c so (so\<lparr>soFinalizers := removeString (soFinalizers so) LoadBalancerCleanupFinalizer\<rparr>);
        ret (resp_err r)
      })"

text \<open>Statuses are compared as the lists of their ingress addresses, which is all the model keeps of an ingress entry; the provider sets no
  other field of it.\<close>

definition patchStatus :: "service_controller \<Rightarrow> svc_object \<Rightarrow> ingress list \<Rightarrow> ingress list \<Rightarrow> go_error option io" where
  "patchStatus c so previousStatus newStatus =
     (if previousStatus = newStatus then ret None
      else do {
        r \<leftarrow> PatchService c so (so\<lparr>soService := (soService so)\<lparr>svcIngress := newStatus\<rparr>\<rparr>);
        ret (resp_err r)
      })"

section \<open>Nodes\<close>

definition LabelNodeExcludeBalancers :: string where
  "LabelNodeExcludeBalancers = ''node.kubernetes.io/exclude-from-external-load-balancers''"

definition ToBeDeletedTaint :: string where
  "ToBeDeletedTaint = ''ToBeDeletedByClusterAutoscaler''"

definition nodeIncludedPredicate :: "node_object \<Rightarrow> bool" where
  "nodeIncludedPredicate n \<longleftrightarrow> mlookup (nodeLabels (noNode n)) LabelNodeExcludeBalancers = None"

definition nodeUnTaintedPredicate :: "node_object \<Rightarrow> bool" where
  "nodeUnTaintedPredicate n \<longleftrightarrow> \<not> list_ex (\<lambda>t. taintKey t = ToBeDeletedTaint) (nodeTaints (noNode n))"

definition nodeNotDeletedPredicate :: "node_object \<Rightarrow> bool" where
  "nodeNotDeletedPredicate n \<longleftrightarrow> \<not> noDeleted n"

definition stableNodeSetPredicates :: "(node_object \<Rightarrow> bool) list" where
  "stableNodeSetPredicates = [nodeNotDeletedPredicate, nodeIncludedPredicate, nodeUnTaintedPredicate]"

definition filterWithPredicates :: "(node_object \<Rightarrow> bool) list \<Rightarrow> node_object list \<Rightarrow> node_object list" where
  "filterWithPredicates ps nodes = filter (\<lambda>n. list_all (\<lambda>p. p n) ps) nodes"

definition listWithPredicates :: "service_controller \<Rightarrow> (node_object \<Rightarrow> bool) list \<Rightarrow> (go_error + node_object list) io" where
  "listWithPredicates c ps = do {
     r \<leftarrow> nodeListerList (scEnv c);
     ret (case r of Fail err _ \<Rightarrow> Inl err | Ok nodes \<Rightarrow> Inr (filterWithPredicates ps nodes))
   }"

definition storeLastSyncedNodes :: "service \<Rightarrow> node_object list \<Rightarrow> sc_state \<Rightarrow> sc_state" where
  "storeLastSyncedNodes svc nodes st =
     st\<lparr>scLastSyncedNodes := (scLastSyncedNodes st)(MetaNamespaceKeyFunc svc := nodes)\<rparr>"

text \<open>The maps from node names to provider ids agree: a later node of the same name replaces an earlier one.\<close>

definition provider_ids :: "node_object list \<Rightarrow> (string, string) fmap" where
  "provider_ids nodes = fold (\<lambda>n m. fmupd (nodeName (noNode n)) (noProviderID n) m) nodes fmempty"

definition nodesSufficientlyEqual :: "node_object list \<Rightarrow> node_object list \<Rightarrow> bool" where
  "nodesSufficientlyEqual oldNodes newNodes =
     (if length oldNodes \<noteq> length newNodes then False else provider_ids oldNodes = provider_ids newNodes)"

section \<open>Synchronizing a service\<close>

datatype loadBalancerOperation = DeleteLoadBalancer | EnsureLoadBalancerOp

text \<open>The status the provider returns, which may be nil.\<close>

definition ensureLoadBalancer_sc ::
  "service_controller \<Rightarrow> svc_object \<Rightarrow> sc_state \<Rightarrow> ((go_error + ingress list option) \<times> sc_state) io" where
  "ensureLoadBalancer_sc c so st = do {
     n \<leftarrow> listWithPredicates c stableNodeSetPredicates;
     (case n of
        Inl err \<Rightarrow> ret (Inl err, st)
      | Inr nodes \<Rightarrow> do {
          let st1 = storeLastSyncedNodes (soService so) nodes st;
          r \<leftarrow> EnsureLoadBalancer (scBalancer c) (scClusterName c) (soService so);
          ret (case snd r of Some err \<Rightarrow> Inl err | None \<Rightarrow> Inr (fst r), st1)
        })
   }"

text \<open>The last step of both branches: a service that is gone needs no status.\<close>

definition finishSync ::
  "service_controller \<Rightarrow> svc_object \<Rightarrow> ingress list \<Rightarrow> go_error option io" where
  "finishSync c so newStatus = do {
     e \<leftarrow> patchStatus c so (svcIngress (soService so)) newStatus;
     ret (case e of
        Some err \<Rightarrow> if \<not> IsNotFound err then Some (Errorf ''failed to update load balancer status: %v'' []) else None
      | None \<Rightarrow> None)
   }"

definition cleanupLoadBalancer :: "service_controller \<Rightarrow> svc_object \<Rightarrow> go_error option io" where
  "cleanupLoadBalancer c so = do {
     g \<leftarrow> GetLoadBalancer (scBalancer c) (scClusterName c) (soService so);
     (case g of (_, exists, err) \<Rightarrow>
        if err \<noteq> None then ret (Some (Errorf ''failed to check if load balancer exists before cleanup: %v'' []))
        else do {
          d \<leftarrow> (if exists then EnsureLoadBalancerDeleted (scBalancer c) (scClusterName c) (soService so) else ret None);
          if d \<noteq> None \<and> d \<noteq> Some ImplementedElsewhere then ret (Some (Errorf ''failed to delete load balancer: %v'' []))
          else do {
            f \<leftarrow> removeFinalizer c so;
            if f \<noteq> None then ret (Some (Errorf ''failed to remove load balancer cleanup finalizer: %v'' []))
            else finishSync c so []
          }
        })
   }"

definition syncLoadBalancerIfNeeded ::
  "service_controller \<Rightarrow> svc_object \<Rightarrow> sc_state \<Rightarrow> ((loadBalancerOperation \<times> go_error option) \<times> sc_state) io" where
  "syncLoadBalancerIfNeeded c so st =
     (if \<not> wantsLoadBalancer so \<or> needsCleanup so then do {
        e \<leftarrow> cleanupLoadBalancer c so;
        ret ((DeleteLoadBalancer, e), st)
      }
      else do {
        f \<leftarrow> addFinalizer c so;
        if f \<noteq> None then ret ((EnsureLoadBalancerOp, Some (Errorf ''failed to add load balancer cleanup finalizer: %v'' [])), st)
        else do {
          r \<leftarrow> ensureLoadBalancer_sc c so st;
          (case r of
             (Inl err, st1) \<Rightarrow>
               if err = ImplementedElsewhere then ret ((EnsureLoadBalancerOp, None), st1)
               else ret ((EnsureLoadBalancerOp, Some (Wrapf ''failed to ensure load balancer: %w'' [] err)), st1)
           | (Inr None, st1) \<Rightarrow>
               ret ((EnsureLoadBalancerOp, Some (Errorf ''service status returned by EnsureLoadBalancer is nil'' [])), st1)
           | (Inr (Some newStatus), st1) \<Rightarrow> do {
               e \<leftarrow> finishSync c so newStatus;
               ret ((EnsureLoadBalancerOp, e), st1)
             })
        }
      })"

definition processLoadBalancerDelete :: "service_controller \<Rightarrow> svc_object \<Rightarrow> go_error option io" where
  "processLoadBalancerDelete c so =
     (if \<not> wantsLoadBalancer so then ret None
      else EnsureLoadBalancerDeleted (scBalancer c) (scClusterName c) (soService so))"

text \<open>A service that was deleted and created again under its name: the old one is cleaned up first.\<close>

definition deleteReplaced :: "service_controller \<Rightarrow> svc_object \<Rightarrow> string \<Rightarrow> sc_state \<Rightarrow> go_error option io" where
  "deleteReplaced c so key st = (case scCache st key of
     Some old \<Rightarrow>
       if svcUID (soService old) \<noteq> svcUID (soService so) then processLoadBalancerDelete c old else ret None
   | None \<Rightarrow> ret None)"

definition processServiceCreateOrUpdate ::
  "service_controller \<Rightarrow> svc_object \<Rightarrow> string \<Rightarrow> sc_state \<Rightarrow> (go_error option \<times> sc_state) io" where
  "processServiceCreateOrUpdate c so key st = do {
     d \<leftarrow> deleteReplaced c so key st;
     (case d of
        Some err \<Rightarrow> ret (Some err, st)
      | None \<Rightarrow> do {
          let st1 = st\<lparr>scCache := (scCache st)(key \<mapsto> so)\<rparr>;
          r \<leftarrow> syncLoadBalancerIfNeeded c so st1;
          (case r of ((op, err), st2) \<Rightarrow>
             if err \<noteq> None then ret (err, st2)
             else if op = DeleteLoadBalancer then ret (None, st2\<lparr>scCache := (scCache st2)(key := None)\<rparr>)
             else ret (None, st2))
        })
   }"

definition processServiceDeletion ::
  "service_controller \<Rightarrow> string \<Rightarrow> sc_state \<Rightarrow> (go_error option \<times> sc_state) io" where
  "processServiceDeletion c key st = (case scCache st key of
     None \<Rightarrow> ret (None, st)
   | Some old \<Rightarrow> do {
       e \<leftarrow> processLoadBalancerDelete c old;
       (case e of
          Some err \<Rightarrow> ret (Some err, st)
        | None \<Rightarrow> ret (None, st\<lparr>scCache := (scCache st)(key := None)\<rparr>))
     })"

definition syncService :: "service_controller \<Rightarrow> string \<Rightarrow> sc_state \<Rightarrow> (go_error option \<times> sc_state) io" where
  "syncService c key st = (case SplitMetaNamespaceKey key of
     Inl err \<Rightarrow> ret (Some err, st)
   | Inr (namespace, name) \<Rightarrow> do {
       r \<leftarrow> svcListerGet (scEnv c) namespace name;
       (case r of
          Fail err _ \<Rightarrow> if IsNotFound err then processServiceDeletion c key st else ret (Some err, st)
        | Ok so \<Rightarrow> processServiceCreateOrUpdate c so key st)
     })"

text \<open>
  A worker takes a key from the queue, if there is one.  A key whose synchronization failed is added again
  after a delay; the provider never returns a \<open>RetryError\<close>, which would carry a delay of its own.
\<close>

definition processNextServiceItem ::
  "service_controller \<Rightarrow> nat \<Rightarrow> string wqueue \<Rightarrow> sc_state \<Rightarrow> (string wqueue \<times> sc_state) io" where
  "processNextServiceItem c now q st = (case wq_Get q of
     (None, q1) \<Rightarrow> ret (q1, st)
   | (Some key, q1) \<Rightarrow> do {
       r \<leftarrow> syncService c key st;
       ret (wq_Done key (if fst r = None then wq_Forget key q1 else wq_AddRateLimited key now q1), snd r)
     })"

section \<open>Synchronizing the nodes\<close>

definition lockedUpdateLoadBalancerHosts :: "service_controller \<Rightarrow> svc_object \<Rightarrow> go_error option io" where
  "lockedUpdateLoadBalancerHosts c so = do {
     e \<leftarrow> UpdateLoadBalancer (scBalancer c) (scClusterName c) (soService so);
     if e = None \<or> e = Some ImplementedElsewhere then ret None
     else do {
       g \<leftarrow> GetLoadBalancer (scBalancer c) (scClusterName c) (soService so);
       (case g of (_, exists, err) \<Rightarrow> ret (if err = None \<and> \<not> exists then None else e))
     }
   }"

text \<open>True asks for a retry.\<close>

definition nodeSyncService :: "service_controller \<Rightarrow> svc_object option \<Rightarrow> sc_state \<Rightarrow> (bool \<times> sc_state) io" where
  "nodeSyncService c svc st = (case svc of
     None \<Rightarrow> ret (False, st)
   | Some so \<Rightarrow>
       if \<not> wantsLoadBalancer so then ret (False, st)
       else do {
         n \<leftarrow> listWithPredicates c [];
         (case n of
            Inl _ \<Rightarrow> ret (True, st)
          | Inr nodes \<Rightarrow> do {
              let newNodes = filterWithPredicates stableNodeSetPredicates nodes;
              let oldNodes = filterWithPredicates stableNodeSetPredicates
                    (scLastSyncedNodes st (MetaNamespaceKeyFunc (soService so)));
              let st1 = storeLastSyncedNodes (soService so) newNodes st;
              if nodesSufficientlyEqual oldNodes newNodes then ret (False, st1)
              else do {
                e \<leftarrow> lockedUpdateLoadBalancerHosts c so;
                ret (e \<noteq> None, st1)
              }
            })
       })"

text \<open>The services to retry.  The workers take the services in any order; here it is that of the list.\<close>

fun updateLoadBalancerHosts :: "service_controller \<Rightarrow> svc_object list \<Rightarrow> sc_state \<Rightarrow> (string list \<times> sc_state) io" where
  "updateLoadBalancerHosts c [] st = ret ([], st)"
| "updateLoadBalancerHosts c (so # services) st = do {
     r \<leftarrow> nodeSyncService c (Some so) st;
     rest \<leftarrow> updateLoadBalancerHosts c services (snd r);
     ret (if fst r then (svcNamespace (soService so) @ ''/'' @ svcName (soService so)) # fst rest else fst rest, snd rest)
   }"

text \<open>
  The worker for the nodes: the services, in the order in which the map of the cache yields them, are
  synchronized with the nodes, and those that need a retry are put into the queue of services.
\<close>

definition processNextNodeItem ::
  "service_controller \<Rightarrow> svc_object list \<Rightarrow> string wqueue \<Rightarrow> string wqueue \<Rightarrow> sc_state \<Rightarrow>
   (string wqueue \<times> string wqueue \<times> sc_state) io" where
  "processNextNodeItem c services nodeQ serviceQ st = (case wq_Get nodeQ of
     (None, q1) \<Rightarrow> ret (q1, serviceQ, st)
   | (Some key, q1) \<Rightarrow> do {
       r \<leftarrow> updateLoadBalancerHosts c services st;
       ret (wq_Done key (wq_Forget key q1), fold wq_Add (fst r) serviceQ, snd r)
     })"

section \<open>Events\<close>

definition portEqualForLB :: "service_port \<Rightarrow> service_port \<Rightarrow> bool" where
  "portEqualForLB x y =
     (if spName x \<noteq> spName y then False
      else if spProtocol x \<noteq> spProtocol y then False
      else if spPort x \<noteq> spPort y then False
      else if spNodePort x \<noteq> spNodePort y then False
      else if spTargetPort x \<noteq> spTargetPort y then False
      else if spAppProtocol x \<noteq> spAppProtocol y then False
      else True)"

fun portSlicesLoop :: "service_port list \<Rightarrow> service_port list \<Rightarrow> bool" where
  "portSlicesLoop (x # xs) (y # ys) = (if \<not> portEqualForLB x y then False else portSlicesLoop xs ys)"
| "portSlicesLoop _ _ = True"

definition portSlicesEqualForLB :: "service_port list \<Rightarrow> service_port list \<Rightarrow> bool" where
  "portSlicesEqualForLB x y = (if length x \<noteq> length y then False else portSlicesLoop x y)"

text \<open>The loop over the external IPs, after their number was compared.\<close>

fun externalIPsDiffer :: "string list \<Rightarrow> string list \<Rightarrow> bool" where
  "externalIPsDiffer (x # xs) (y # ys) = (if x \<noteq> y then True else externalIPsDiffer xs ys)"
| "externalIPsDiffer _ _ = False"

definition needsUpdate :: "svc_object \<Rightarrow> svc_object \<Rightarrow> bool" where
  "needsUpdate old new =
     (let o1 = soSpec old; n = soSpec new in
      if \<not> wantsLoadBalancer old \<and> \<not> wantsLoadBalancer new then False
      else if wantsLoadBalancer old \<noteq> wantsLoadBalancer new then True
      else if wantsLoadBalancer new \<and> specLoadBalancerSourceRanges o1 \<noteq> specLoadBalancerSourceRanges n then True
      else if \<not> portSlicesEqualForLB (svcServicePorts (soService old)) (svcServicePorts (soService new)) \<or>
        specSessionAffinity o1 \<noteq> specSessionAffinity n then True
      else if specSessionAffinityTimeout o1 \<noteq> specSessionAffinityTimeout n then True
      else if specLoadBalancerIP o1 \<noteq> specLoadBalancerIP n then True
      else if length (specExternalIPs o1) \<noteq> length (specExternalIPs n) then True
      else if externalIPsDiffer (specExternalIPs o1) (specExternalIPs n) then True
      else if svcAnnotations (soService old) \<noteq> svcAnnotations (soService new) then True
      else if svcUID (soService old) \<noteq> svcUID (soService new) then True
      else if specExternalTrafficPolicy o1 \<noteq> specExternalTrafficPolicy n then True
      else if specHealthCheckNodePort o1 \<noteq> specHealthCheckNodePort n then True
      else if length (specIPFamilies o1) \<noteq> length (specIPFamilies n) then True
      else False)"

definition enqueueService :: "svc_object \<Rightarrow> string wqueue \<Rightarrow> string wqueue" where
  "enqueueService so q = wq_Add (MetaNamespaceKeyFunc (soService so)) q"

text \<open>The handlers that \<open>New\<close> gives to the informer of services.\<close>

definition serviceAdded :: "svc_object \<Rightarrow> string wqueue \<Rightarrow> string wqueue" where
  "serviceAdded cur q = (if wantsLoadBalancer cur \<or> needsCleanup cur then enqueueService cur q else q)"

definition serviceUpdated :: "svc_object \<Rightarrow> svc_object \<Rightarrow> string wqueue \<Rightarrow> string wqueue" where
  "serviceUpdated old cur q = (if needsUpdate old cur \<or> needsCleanup cur then enqueueService cur q else q)"

definition shouldSyncUpdatedNode :: "node_object \<Rightarrow> node_object \<Rightarrow> bool" where
  "shouldSyncUpdatedNode old new =
     (if nodeIncludedPredicate old \<noteq> nodeIncludedPredicate new then True
      else if noProviderID old \<noteq> noProviderID new then True
      else False)"

text \<open>The key of a node is its name.\<close>

definition enqueueNode :: "node_object \<Rightarrow> string wqueue \<Rightarrow> string wqueue" where
  "enqueueNode no q = wq_Add (nodeName (noNode no)) q"

text \<open>The handlers that \<open>New\<close> gives to the informer of nodes.\<close>

definition nodeAdded :: "node_object \<Rightarrow> string wqueue \<Rightarrow> string wqueue" where
  "nodeAdded cur q = enqueueNode cur q"

definition nodeUpdated :: "node_object \<Rightarrow> node_object \<Rightarrow> string wqueue \<Rightarrow> string wqueue" where
  "nodeUpdated old cur q = (if \<not> shouldSyncUpdatedNode old cur then q else enqueueNode cur q)"

definition nodeDeleted :: "node_object \<Rightarrow> string wqueue \<Rightarrow> string wqueue" where
  "nodeDeleted old q = enqueueNode old q"

end
