(* ===== verification/ServiceSync.thy ===== *)
theory ServiceSync
  imports ServiceController
begin

text \<open>
  What the service controller and the load balancer manager do together: the finalizer of a service
  protects its load balancer, a synchronization leaves the load balancers of Harvester as the service
  asks for, and the cases in which it does not.
\<close>

section \<open>Traces of the controller\<close>

lemma appends_patches [simp]:
  "appends (PatchService c old new)" "appends (addFinalizer c so)" "appends (removeFinalizer c so)"
  "appends (patchStatus c so a b)" "appends (finishSync c so a)"
  by (simp_all add: PatchService_def addFinalizer_def removeFinalizer_def patchStatus_def finishSync_def)

lemma appends_sync [simp]:
  "appends (listWithPredicates c ps)" "appends (ensureLoadBalancer_sc c so st)" "appends (cleanupLoadBalancer c so)"
  "appends (syncLoadBalancerIfNeeded c so st)" "appends (processLoadBalancerDelete c so)" "appends (deleteReplaced c so key st)"
  by (simp_all add: listWithPredicates_def ensureLoadBalancer_sc_def cleanupLoadBalancer_def syncLoadBalancerIfNeeded_def
      processLoadBalancerDelete_def deleteReplaced_def Let_def)

lemma appends_service [simp]:
  "appends (processServiceCreateOrUpdate c so key st)" "appends (processServiceDeletion c key st)"
  "appends (syncService c key st)" "appends (processNextServiceItem c now q st)"
  by (simp_all add: processServiceCreateOrUpdate_def processServiceDeletion_def syncService_def
      processNextServiceItem_def Let_def split: prod.split option.split)

lemma appends_hosts [simp]:
  "appends (lockedUpdateLoadBalancerHosts c so)" "appends (nodeSyncService c svc st)"
  by (simp_all add: lockedUpdateLoadBalancerHosts_def nodeSyncService_def Let_def)

lemma PatchService_simps [simp]:
  "result_of (PatchService c old new) h = fwSvcPatch (scEnv c) h old (new\<lparr>soService := (soService new)\<lparr>svcServicePorts := svcServicePorts (soService old)\<rparr>,
     soType := soType old, soLBClass := soLBClass old, soSpec := soSpec old\<rparr>)"
  "trace_of (PatchService c old new) h = [FwSvcPatch old (new\<lparr>soService := (soService new)\<lparr>svcServicePorts := svcServicePorts (soService old)\<rparr>,
     soType := soType old, soLBClass := soLBClass old, soSpec := soSpec old\<rparr>) (result_of (PatchService c old new) h)]"
  by (simp_all add: PatchService_def)

lemma HasLBFinalizer_simps [simp]:
  "HasLBFinalizer (so\<lparr>soFinalizers := soFinalizers so @ [LoadBalancerCleanupFinalizer]\<rparr>)"
  "\<not> HasLBFinalizer (so\<lparr>soFinalizers := removeString (soFinalizers so) LoadBalancerCleanupFinalizer\<rparr>)"
  "HasLBFinalizer (so\<lparr>soService := s\<rparr>) = HasLBFinalizer so" "HasLBFinalizer (so\<lparr>soType := ty\<rparr>) = HasLBFinalizer so"
  "HasLBFinalizer (so\<lparr>soLBClass := cls\<rparr>) = HasLBFinalizer so"
proof -
  have "\<not> list_ex (\<lambda>f. f = s) (removeString fs s)" for fs s by (induction fs) auto
  then show "\<not> HasLBFinalizer (so\<lparr>soFinalizers := removeString (soFinalizers so) LoadBalancerCleanupFinalizer\<rparr>)"
    by (simp add: HasLBFinalizer_def)
qed (simp_all add: HasLBFinalizer_def)

section \<open>The load balancer behind the finalizer\<close>

text \<open>Removing the finalizer: a service that no longer wants a load balancer, whose load balancer is gone.\<close>

definition lb_released :: "service_controller \<Rightarrow> svc_object \<Rightarrow> history \<Rightarrow> bool" where
  "lb_released c so pre \<longleftrightarrow>
     (let ns = lmNamespace (scBalancer c); n = lb_name_of (scClusterName c) (soService so) in
      mlookup (svcAnnotations (soService so)) KeyPrimaryService \<noteq> None \<or>
      (\<exists>err x. LbGet ns n (Fail err x) \<in> set pre \<and> IsNotFound err) \<or>
      (\<exists>lb. LbGet ns n (Ok lb) \<in> set pre \<and> lbAddress lb = []) \<or>
      LbDelete ns n None \<in> set pre)"

fun finalizer_ok :: "service_controller \<Rightarrow> event_pred" where
  "finalizer_ok c pre (FwSvcPatch old new r) \<longleftrightarrow>
     (HasLBFinalizer old \<longrightarrow> \<not> HasLBFinalizer new \<longrightarrow> (\<not> wantsLoadBalancer old \<or> needsCleanup old) \<and> lb_released c old pre)"
| "finalizer_ok c pre _ = True"

text \<open>The sentinel of the framework is an error no API answers with.\<close>

definition own_errors :: "env \<Rightarrow> bool" where
  "own_errors E \<longleftrightarrow> (\<forall>h ns n x. envLbGet E h ns n \<noteq> Fail ImplementedElsewhere x) \<and>
     (\<forall>h ns n. envLbDelete E h ns n \<noteq> Some ImplementedElsewhere)"

lemma lb_released_mono: "lb_released c so pre \<Longrightarrow> set pre \<subseteq> set pre' \<Longrightarrow> lb_released c so pre'"
  unfolding lb_released_def Let_def by blast

lemma finalizer_ok_mono: "monoP (finalizer_ok c)"
  unfolding monoP_def
proof (intro allI impI)
  fix pre pre' e
  assume "finalizer_ok c pre e" "set pre \<subseteq> set pre'"
  then show "finalizer_ok c pre' e" by (cases e) (auto intro: lb_released_mono)
qed

lemma finalizer_ok_manager: "holds (write_ok l cl svc) m \<Longrightarrow> holds (finalizer_ok c) m"
proof -
  have "write_ok l cl svc pre e \<Longrightarrow> finalizer_ok c pre e" for pre e by (cases e) auto
  then show "holds (write_ok l cl svc) m \<Longrightarrow> holds (finalizer_ok c) m" by (auto simp: holds_def always_def)
qed

lemma get_reads: "holds (write_ok l cl svc) (GetLoadBalancer l cl' svc)"
  unfolding GetLoadBalancer_def GetLoadBalancerName_def Let_def
  by (intro holds_bind write_ok_pred write_ok_reads holds_call holds_ret)

lemmas finalizer_ok_reads = finalizer_ok_manager [OF get_reads] finalizer_ok_manager [OF deleted_writes]
  finalizer_ok_manager [OF ensure_writes]

lemma finishSync_ok: "holds (finalizer_ok c) (finishSync c so s)"
  by (simp add: holds_def finishSync_def patchStatus_def)

lemma primary_reads:
  assumes "mlookup (svcAnnotations svc) KeyPrimaryService = None"
  shows "trace_of (GetLoadBalancer l cl svc) h = [LbGet (lmNamespace l) (lb_name_of cl svc) (envLbGet (lmClients l) h (lmNamespace l) (lb_name_of cl svc))]"
    "result_of (GetLoadBalancer l cl svc) h = (case envLbGet (lmClients l) h (lmNamespace l) (lb_name_of cl svc) of
        Fail err _ \<Rightarrow> if IsNotFound err then (None, False, None) else (None, False, Some err)
      | Ok lb \<Rightarrow> if lbAddress lb = [] then (None, False, None) else (Some (svcIngress svc), True, None))"
    "EnsureLoadBalancerDeleted l cl svc = deleteLoadBalancer l cl svc"
  using assms by (simp_all add: GetLoadBalancer_def GetLoadBalancerName_def getPrimaryService_def EnsureLoadBalancerDeleted_def
      lb_name_of_def)

lemma delete_elsewhere: "own_errors (lmClients l) \<Longrightarrow> result_of (deleteLoadBalancer l cl svc) h \<noteq> Some ImplementedElsewhere"
  unfolding own_errors_def
  by (auto simp: deleteLoadBalancer_def other_error_def resp_err_def ImplementedElsewhere_def Let_def split: option.splits resp.splits)

lemma delete_done:
  assumes "result_of (deleteLoadBalancer l cl svc) h = None"
  shows "LbDelete (lmNamespace l) (lb_name_of cl svc) None \<in> set (trace_of (deleteLoadBalancer l cl svc) h) \<or>
    (\<exists>err x. LbGet (lmNamespace l) (lb_name_of cl svc) (Fail err x) \<in> set (trace_of (deleteLoadBalancer l cl svc) h) \<and> IsNotFound err)"
  using assms by (auto simp: deleteLoadBalancer_def other_error_def resp_err_def lb_name_of_def Let_def split: option.splits resp.splits if_splits)

text \<open>The two calls before the finalizer is removed.\<close>

definition removeLoadBalancer :: "service_controller \<Rightarrow> svc_object \<Rightarrow> bool \<Rightarrow> go_error option io" where
  "removeLoadBalancer c so exists =
     (if exists then EnsureLoadBalancerDeleted (scBalancer c) (scClusterName c) (soService so) else ret None)"

lemma cleanup_released:
  fixes c so h
  defines "G \<equiv> GetLoadBalancer (scBalancer c) (scClusterName c) (soService so)"
  assumes "own_errors (lmClients (scBalancer c))" "result_of G h = (s, exists, None)"
    and "result_of (removeLoadBalancer c so exists) (h @ trace_of G h) \<in> {None, Some ImplementedElsewhere}"
  shows "lb_released c so (trace_of G h @ trace_of (removeLoadBalancer c so exists) (h @ trace_of G h))"
proof (cases "mlookup (svcAnnotations (soService so)) KeyPrimaryService")
  case None
  let ?l = "scBalancer c" and ?cl = "scClusterName c" and ?svc = "soService so"
  note p = primary_reads [OF None]
  show ?thesis
  proof (cases exists)
    case True
    then have "result_of (deleteLoadBalancer ?l ?cl ?svc) (h @ trace_of G h) = None"
      using assms delete_elsewhere [OF assms(2)] by (auto simp: removeLoadBalancer_def p)
    from delete_done [OF this] show ?thesis
      using True by (auto simp: lb_released_def removeLoadBalancer_def p Let_def)
  next
    case False
    then show ?thesis using assms(3)
      by (auto simp: lb_released_def removeLoadBalancer_def p G_def Let_def split: resp.splits if_splits)
  qed
qed (simp add: lb_released_def)

lemma cleanup_unfold:
  "cleanupLoadBalancer c so = do {
     g \<leftarrow> GetLoadBalancer (scBalancer c) (scClusterName c) (soService so);
     if snd (snd g) \<noteq> None then ret (Some (Errorf ''failed to check if load balancer exists before cleanup: %v'' []))
     else do {
       d \<leftarrow> removeLoadBalancer c so (fst (snd g));
       if d \<noteq> None \<and> d \<noteq> Some ImplementedElsewhere then ret (Some (Errorf ''failed to delete load balancer: %v'' []))
       else do {
         f \<leftarrow> removeFinalizer c so;
         if f \<noteq> None then ret (Some (Errorf ''failed to remove load balancer cleanup finalizer: %v'' []))
         else finishSync c so []
       }
     }
   }"
  unfolding cleanupLoadBalancer_def removeLoadBalancer_def by (rule arg_cong [where f = "State_Monad.bind _"]) (auto simp: fun_eq_iff)

lemma appends_removeLoadBalancer [simp]: "appends (removeLoadBalancer c so b)"
  by (simp add: removeLoadBalancer_def)

lemma cleanup_ok:
  assumes "own_errors (lmClients (scBalancer c))" "\<not> wantsLoadBalancer so \<or> needsCleanup so"
  shows "holds (finalizer_ok c) (cleanupLoadBalancer c so)"
  unfolding holds_def
proof (intro conjI allI)
  fix h
  let ?G = "GetLoadBalancer (scBalancer c) (scClusterName c) (soService so)"
  obtain s b e where g: "result_of ?G h = (s, b, e)" by (metis surj_pair)
  let ?D = "removeLoadBalancer c so b" and ?h = "h @ trace_of ?G h"
  let ?t = "trace_of ?G h @ trace_of ?D ?h"
  have t: "always (finalizer_ok c) (trace_of ?G h)" "always (finalizer_ok c) ?t"
    using finalizer_ok_reads(1,2) monoP_always [OF finalizer_ok_mono] by (auto simp: removeLoadBalancer_def holds_def always_append)
  show "always (finalizer_ok c) (trace_of (cleanupLoadBalancer c so) h)"
  proof (cases "e = None \<and> result_of ?D ?h \<in> {None, Some ImplementedElsewhere}")
    case True
    have r: "lb_released c so ?t" using cleanup_released [OF assms(1)] g True by auto
    have "always (\<lambda>pre. finalizer_ok c (?t @ pre)) (trace_of (removeFinalizer c so) (h @ ?t))"
      using r assms(2) by (simp add: removeFinalizer_def)
    moreover have "always (\<lambda>pre. finalizer_ok c ((?t @ trace_of (removeFinalizer c so) (h @ ?t)) @ pre)) (trace_of (finishSync c so []) h')" for h'
      using finishSync_ok monoP_always [OF finalizer_ok_mono] unfolding holds_def by blast
    ultimately have "always (finalizer_ok c) (?t @ trace_of (removeFinalizer c so) (h @ ?t) @ trace_of (finishSync c so []) h')"
      "always (finalizer_ok c) (?t @ trace_of (removeFinalizer c so) (h @ ?t))" for h'
      using t(2) by (simp_all only: always_append append_assoc)
    then show ?thesis using True g by (auto simp: cleanup_unfold)
  next
    case False
    then show ?thesis using t g by (auto simp: cleanup_unfold)
  qed
qed simp

lemma sync_ok:
  assumes "own_errors (lmClients (scBalancer c))"
  shows "holds (finalizer_ok c) (syncLoadBalancerIfNeeded c so st)"
proof -
  have "holds (finalizer_ok c) (addFinalizer c so)" by (simp add: holds_def addFinalizer_def)
  moreover have "holds (finalizer_ok c) (listWithPredicates c ps)" for ps by (simp add: holds_def listWithPredicates_def)
  ultimately show ?thesis
    unfolding syncLoadBalancerIfNeeded_def ensureLoadBalancer_sc_def Let_def
    by (intro holds_branches holds_bind finalizer_ok_mono holds_ret finishSync_ok finalizer_ok_reads cleanup_ok [OF assms]) auto
qed

lemma syncService_ok:
  assumes "own_errors (lmClients (scBalancer c))"
  shows "holds (finalizer_ok c) (syncService c key st)"
proof -
  have d: "holds (finalizer_ok c) (processLoadBalancerDelete c so)" for so
    unfolding processLoadBalancerDelete_def by (intro holds_branches holds_ret finalizer_ok_reads)
  have g: "holds (finalizer_ok c) (svcListerGet (scEnv c) ns n)" for ns n by (simp add: holds_def)
  show ?thesis
    unfolding syncService_def processServiceCreateOrUpdate_def processServiceDeletion_def deleteReplaced_def Let_def
    by (intro holds_branches holds_bind finalizer_ok_mono holds_ret d g sync_ok [OF assms])
qed

section \<open>Load balancers are written behind the finalizer\<close>





lemma no_put_deleted: "holds (\<lambda>_ e. \<not> is_lb_put e) (EnsureLoadBalancerDeleted l cl svc)"
  unfolding EnsureLoadBalancerDeleted_def
  by (intro holds_bind holds_branches no_put_pred holds_reads holds_ret no_put_delete)

lemma no_put_get: "holds (\<lambda>_ e. \<not> is_lb_put e) (GetLoadBalancer l cl svc)"
  unfolding GetLoadBalancer_def GetLoadBalancerName_def Let_def
  by (intro holds_bind no_put_pred holds_reads holds_call holds_ret)

lemma no_put_patches:
  "holds (\<lambda>_ e. \<not> is_lb_put e) (addFinalizer c so)" "holds (\<lambda>_ e. \<not> is_lb_put e) (removeFinalizer c so)"
  "holds (\<lambda>_ e. \<not> is_lb_put e) (finishSync c so s)" "holds (\<lambda>_ e. \<not> is_lb_put e) (listWithPredicates c ps)"
  "holds (\<lambda>_ e. \<not> is_lb_put e) (svcListerGet F ns n)"
  by (simp_all add: holds_def addFinalizer_def removeFinalizer_def finishSync_def patchStatus_def listWithPredicates_def)

lemma no_put_cleanup: "holds (\<lambda>_ e. \<not> is_lb_put e) (cleanupLoadBalancer c so)"
  unfolding cleanupLoadBalancer_def
  by (intro holds_bind holds_branches no_put_pred no_put_get no_put_deleted no_put_patches holds_ret)





section \<open>What a synchronization does to the load balancers\<close>

lemma holds_memD: "holds P m \<Longrightarrow> e \<in> set (trace_of m h) \<Longrightarrow> \<exists>pre. P pre e"
  unfolding holds_def using always_memD by blast

text \<open>Deleting for a secondary service only looks up its primary.\<close>

lemma secondary_delete_reads:
  assumes "mlookup (svcAnnotations svc) KeyPrimaryService = Some p"
  shows "trace_of (EnsureLoadBalancerDeleted l cl svc) h = trace_of (getPrimaryService l svc) h"
proof -
  have "result_of (getPrimaryService l svc) h \<noteq> Inr None"
    using assms by (auto simp: getPrimaryService_def split: list.splits resp.splits)
  then show ?thesis by (auto simp: EnsureLoadBalancerDeleted_def split: sum.split option.split)
qed

lemma secondary_delete_silent:
  "mlookup (svcAnnotations svc) KeyPrimaryService = Some p \<Longrightarrow> holds (\<lambda>_ e. lb_written e = None) (EnsureLoadBalancerDeleted l cl svc)"
  using holds_reads(1) [OF monoP_const only_reads(1), of l svc] by (simp add: holds_def secondary_delete_reads)

lemma checkNetwork_elsewhere:
  "own_errors (lmClients l) \<Longrightarrow> result_of (checkNetworkChanged l svc n sec) h \<noteq> Some ImplementedElsewhere"
  unfolding own_errors_def
  by (auto simp: checkNetworkChanged_def networkChangedError_def other_error_def resp_err_def ImplementedElsewhere_def
      split: option.splits resp.splits if_splits)

lemma resolve_elsewhere: "result_of (resolveNetworkInterface l svc) h \<noteq> Inl ImplementedElsewhere"
  by (auto simp: resolveNetworkInterface_def GetNADInterfaceMapping_def decodeNADMapping_def ImplementedElsewhere_def Let_def
      split: resp.splits option.splits if_splits sum.splits)

lemma ensure_elsewhere:
  assumes "own_errors (lmClients l)" "mlookup (svcAnnotations svc) KeyPrimaryService = None"
  shows "snd (result_of (EnsureLoadBalancer l cl svc) h) \<noteq> Some ImplementedElsewhere"
proof -
  have "snd (result_of (ensurePrimaryLoadBalancer l cl svc) h) \<noteq> Some ImplementedElsewhere" for h
    using checkNetwork_elsewhere [OF assms(1)]
    by (auto simp: ensurePrimaryLoadBalancer_def ImplementedElsewhere_def Let_def split: option.splits)
  then show ?thesis using resolve_elsewhere assms(2)
    by (auto simp: EnsureLoadBalancer_def getPrimaryService_def split: sum.splits)
qed

text \<open>The stages of a synchronization that ensures a load balancer and reports no error.\<close>

lemma ensure_stages:
  assumes "own_errors (lmClients (scBalancer c))" "\<forall>h x. fwNodeList (scEnv c) h \<noteq> Fail ImplementedElsewhere x"
    and "mlookup (svcAnnotations (soService so)) KeyPrimaryService = None" "wantsLoadBalancer so" "\<not> needsCleanup so"
    and "snd (fst (result_of (syncLoadBalancerIfNeeded c so s) h)) = None"
  defines "h1 \<equiv> h @ trace_of (addFinalizer c so) h"
  defines "h2 \<equiv> h1 @ trace_of (listWithPredicates c stableNodeSetPredicates) h1"
  defines "h3 \<equiv> h2 @ trace_of (EnsureLoadBalancer (scBalancer c) (scClusterName c) (soService so)) h2"
  obtains ing where "result_of (addFinalizer c so) h = None"
    "result_of (EnsureLoadBalancer (scBalancer c) (scClusterName c) (soService so)) h2 = (Some ing, None)"
    "h @ trace_of (syncLoadBalancerIfNeeded c so s) h = h3 @ trace_of (finishSync c so ing) h3"
proof -
  let ?F = "addFinalizer c so" and ?N = "listWithPredicates c stableNodeSetPredicates"
  let ?E = "EnsureLoadBalancer (scBalancer c) (scClusterName c) (soService so)"
  have f: "result_of ?F h = None" using assms(4-6) by (auto simp: syncLoadBalancerIfNeeded_def split: if_splits)
  obtain nodes where n: "result_of ?N h1 = Inr nodes"
    using assms(2,4-6) f unfolding h1_def
    by (auto simp: syncLoadBalancerIfNeeded_def ensureLoadBalancer_sc_def listWithPredicates_def split: if_splits resp.splits)
  obtain r err where r: "result_of ?E h2 = (r, err)" by fastforce
  then obtain ing where e: "result_of ?E h2 = (Some ing, None)"
    using assms(4-6) f n ensure_elsewhere [OF assms(1,3), of "scClusterName c" h2] unfolding h1_def h2_def
    by (auto simp: syncLoadBalancerIfNeeded_def ensureLoadBalancer_sc_def Let_def split: option.splits if_splits)
  have "h @ trace_of (syncLoadBalancerIfNeeded c so s) h = h3 @ trace_of (finishSync c so ing) h3"
    using assms(4,5) f n e unfolding h3_def h2_def h1_def
    by (simp add: syncLoadBalancerIfNeeded_def ensureLoadBalancer_sc_def Let_def)
  with that f e show thesis by blast
qed

text \<open>
  What the calls \<open>t\<close> of a deletion that reports no error do to the load balancers: the deletion of the one at \<open>k\<close> was
  acknowledged (it stays until the finalizer of Harvester's controller is done) or there was none, and no load balancer
  was written.
\<close>

definition deletion_done :: "string \<times> string \<Rightarrow> lb_map \<Rightarrow> history \<Rightarrow> lb_map \<Rightarrow> bool" where
  "deletion_done k M t M' \<longleftrightarrow> (\<forall>k'. k' \<noteq> k \<longrightarrow> specs M' k' = specs M k') \<and> list_all (\<lambda>e. \<not> is_lb_put e) t \<and>
     (LbDelete (fst k) (snd k) None \<in> set t \<or> M k = None \<and> specs M' = specs M)"

text \<open>The load balancers after the synchronization of a primary service with the calls \<open>t\<close>, given those before it.\<close>

definition reconciled :: "service_controller \<Rightarrow> svc_object \<Rightarrow> lb_map \<Rightarrow> history \<Rightarrow> lb_map \<Rightarrow> bool" where
  "reconciled c so M t M' \<longleftrightarrow> (let k = lb_key (scBalancer c) (scClusterName c) (soService so) in
     if wantsLoadBalancer so \<and> \<not> needsCleanup so
     then specs M' = (specs M)(k \<mapsto> ensured (scBalancer c) (scClusterName c) (soService so) (specs M k))
     else if (\<exists>lb. M k = Some lb \<and> lbAddress lb = []) then specs M' = specs M
     else deletion_done k M t M')"

text \<open>Before it, the load balancer of a cached service of the same name with another UID is deleted, if that service
  wanted one of its own.\<close>

definition owns_lb :: "svc_object \<Rightarrow> bool" where
  "owns_lb so \<longleftrightarrow> wantsLoadBalancer so \<and> mlookup (svcAnnotations (soService so)) KeyPrimaryService = None"

definition predecessor_removed :: "service_controller \<Rightarrow> svc_object \<Rightarrow> svc_object option \<Rightarrow> lb_map \<Rightarrow> history \<Rightarrow> lb_map \<Rightarrow> bool" where
  "predecessor_removed c so cached M t M' \<longleftrightarrow> (case cached of
     Some old \<Rightarrow>
       if svcUID (soService old) \<noteq> svcUID (soService so) \<and> owns_lb old
       then deletion_done (lb_key (scBalancer c) (scClusterName c) (soService old)) M t M'
       else specs M' = specs M
   | None \<Rightarrow> specs M' = specs M)"

context lb_store
begin

lemma silent_fw:
  "holds (\<lambda>_ e. lb_written e = None) (addFinalizer c so)" "holds (\<lambda>_ e. lb_written e = None) (removeFinalizer c so)"
  "holds (\<lambda>_ e. lb_written e = None) (finishSync c so s)" "holds (\<lambda>_ e. lb_written e = None) (listWithPredicates c ps)"
  by (simp_all add: holds_def addFinalizer_def removeFinalizer_def finishSync_def patchStatus_def listWithPredicates_def)

lemma delete_specs:
  assumes "E = lmClients l" "result_of (deleteLoadBalancer l cl svc) h = None"
  shows "deletion_done (lb_key l cl svc) (st h) (trace_of (deleteLoadBalancer l cl svc) h) (st (h @ trace_of (deleteLoadBalancer l cl svc) h))"
proof -
  let ?D = "deleteLoadBalancer l cl svc" and ?n = "lb_name_of cl svc"
  let ?h = "h @ trace_of (checkSecondaryServicesBeforeDeleted l svc) h"
  have chk: "result_of (checkSecondaryServicesBeforeDeleted l svc) h = None"
    using assms(2) by (auto simp: deleteLoadBalancer_def Let_def split: option.splits)
  have same: "specs (st ?h) = specs (st h)" by (rule silent_specs) (intro holds_reads only_reads monoP_const)
  have "LbDelete (lmNamespace l) ?n None \<in> set (trace_of ?D h) \<or> st h (lb_key l cl svc) = None \<and> specs (st (h @ trace_of ?D h)) = specs (st h)"
  proof (cases "envLbGet E ?h (lmNamespace l) ?n")
    case (Fail err x)
    let ?get = "LbGet (lmNamespace l) ?n (Fail err x)"
    have "IsNotFound err" "h @ trace_of ?D h = ?h @ [?get]"
      using assms chk Fail by (auto simp: deleteLoadBalancer_def other_error_def resp_err_def lb_name_of_def Let_def split: if_splits)
    moreover have "specs (st (?h @ [?get])) = specs (st ?h)" by (rule silent_trace) simp
    moreover have "st ?h (lb_key l cl svc) = None" using get_missing [OF Fail] calculation(1) by (simp add: lb_key_def)
    moreover from this have "specs (st h) (lb_key l cl svc) = None" using same by (metis specs_def option.map_disc_iff)
    ultimately show ?thesis using same by (simp add: specs_def)
  qed (use assms chk in \<open>auto simp: deleteLoadBalancer_def other_error_def resp_err_def lb_name_of_def Let_def\<close>)
  moreover have "list_all (\<lambda>e. \<not> is_lb_put e) (trace_of ?D h)"
    using no_put_delete [of l cl svc] holds_memD unfolding list_all_iff by fast
  ultimately show ?thesis
    unfolding deletion_done_def using owned_frame [OF delete_owned] by (auto simp: lb_key_def)
qed

lemma cleanup_specs:
  assumes "E = lmClients (scBalancer c)" "own_errors E" "mlookup (svcAnnotations (soService so)) KeyPrimaryService = None"
    and "\<not> wantsLoadBalancer so \<or> needsCleanup so" "result_of (cleanupLoadBalancer c so) h = None"
  shows "reconciled c so (st h) (trace_of (cleanupLoadBalancer c so) h) (st (h @ trace_of (cleanupLoadBalancer c so) h))"
proof -
  let ?l = "scBalancer c" and ?cl = "scClusterName c" and ?svc = "soService so"
  let ?G = "GetLoadBalancer ?l ?cl ?svc" and ?k = "lb_key ?l ?cl ?svc"
  note p = primary_reads [OF assms(3)]
  obtain s b e where g: "result_of ?G h = (s, b, e)" by (metis surj_pair)
  let ?D = "removeLoadBalancer c so b" and ?h = "h @ trace_of ?G h"
  let ?F = "removeFinalizer c so" and ?h1 = "?h @ trace_of ?D ?h"
  have e: "e = None" and d: "result_of ?D ?h \<in> {None, Some ImplementedElsewhere}" and f: "result_of ?F ?h1 = None"
    using assms(5) g by (auto simp: cleanup_unfold split: if_splits)
  have t: "h @ trace_of (cleanupLoadBalancer c so) h = ((?h1 @ trace_of ?F ?h1)) @ trace_of (finishSync c so []) (?h1 @ trace_of ?F ?h1)"
    using g e d f by (auto simp: cleanup_unfold)
  have sub: "set (trace_of ?D ?h) \<subseteq> set (trace_of (cleanupLoadBalancer c so) h)"
    using g e d f by (auto simp: cleanup_unfold)
  have get: "specs (st ?h) = specs (st h)" by (rule silent_trace) (simp add: p)
  have done_: "specs (st (h @ trace_of (cleanupLoadBalancer c so) h)) = specs (st ?h1)"
    unfolding t silent_specs [OF silent_fw(3)] silent_specs [OF silent_fw(2)] ..
  have quiet: "list_all (\<lambda>e. \<not> is_lb_put e) (trace_of (cleanupLoadBalancer c so) h)"
    using no_put_cleanup [of c so] holds_memD unfolding list_all_iff by fast
  show ?thesis
  proof (cases b)
    case True
    then obtain lb where "envLbGet E h (lmNamespace ?l) (lb_name_of ?cl ?svc) = Ok lb" "lbAddress lb \<noteq> []"
      using g e assms(1) by (auto simp: p split: resp.splits if_splits)
    then have lb: "st h ?k = Some lb" "lbAddress lb \<noteq> []" using get_found by (auto simp: lb_key_def)
    have del: "result_of (deleteLoadBalancer ?l ?cl ?svc) ?h = None"
      using True d delete_elsewhere assms(1,2) by (auto simp: removeLoadBalancer_def p)
    have D: "trace_of ?D ?h = trace_of (deleteLoadBalancer ?l ?cl ?svc) ?h" using True by (simp add: removeLoadBalancer_def p)
    have "st ?h ?k \<noteq> None" using lb(1) get by (metis specs_def option.map_disc_iff option.distinct(1))
    then have "deletion_done ?k (st h) (trace_of (cleanupLoadBalancer c so) h) (st (h @ trace_of (cleanupLoadBalancer c so) h))"
      using delete_specs [OF assms(1) del, folded D] sub get quiet done_ unfolding deletion_done_def by auto
    then show ?thesis using lb assms(4) by (auto simp: reconciled_def Let_def)
  next
    case False
    then have "specs (st ?h1) = specs (st h)" using get by (simp add: removeLoadBalancer_def)
    moreover have "(\<exists>lb. st h ?k = Some lb \<and> lbAddress lb = []) \<or> st h ?k = None"
      using g False e assms(1) get_found get_missing by (auto simp: p lb_key_def split: resp.splits if_splits)
    ultimately show ?thesis using assms(4) done_ quiet by (auto simp: reconciled_def deletion_done_def Let_def)
  qed
qed

lemma ensure_branch_specs:
  assumes "E = lmClients (scBalancer c)" "own_errors E" "\<forall>h x. fwNodeList (scEnv c) h \<noteq> Fail ImplementedElsewhere x"
    and "mlookup (svcAnnotations (soService so)) KeyPrimaryService = None" "wantsLoadBalancer so" "\<not> needsCleanup so"
    and "snd (fst (result_of (syncLoadBalancerIfNeeded c so s) h)) = None"
  shows "reconciled c so (st h) (trace_of (syncLoadBalancerIfNeeded c so s) h) (st (h @ trace_of (syncLoadBalancerIfNeeded c so s) h))"
proof -
  let ?l = "scBalancer c" and ?cl = "scClusterName c" and ?svc = "soService so"
  let ?F = "addFinalizer c so" and ?N = "listWithPredicates c stableNodeSetPredicates" and ?E = "EnsureLoadBalancer ?l ?cl ?svc"
  let ?h1 = "h @ trace_of ?F h"
  let ?h2 = "?h1 @ trace_of ?N ?h1"
  let ?h3 = "?h2 @ trace_of ?E ?h2"
  obtain ing where e: "result_of ?E ?h2 = (Some ing, None)"
    and t: "h @ trace_of (syncLoadBalancerIfNeeded c so s) h = ?h3 @ trace_of (finishSync c so ing) ?h3"
    by (rule ensure_stages [OF assms(2-7) [unfolded assms(1)]])
  have "specs (st ?h2) = specs (st h)"
    unfolding silent_specs [OF silent_fw(4)] silent_specs [OF silent_fw(1)] ..
  moreover have "specs (st ?h3) = (specs (st ?h2))(lb_key ?l ?cl ?svc \<mapsto> ensured ?l ?cl ?svc (specs (st ?h2) (lb_key ?l ?cl ?svc)))"
    using e by (intro ensure_specs [OF assms(1,4)]) simp
  ultimately show ?thesis
    unfolding reconciled_def t silent_specs [OF silent_fw(3)] using assms(5,6) by (simp add: Let_def)
qed

lemma sync_specs:
  assumes "E = lmClients (scBalancer c)" "own_errors E" "\<forall>h x. fwNodeList (scEnv c) h \<noteq> Fail ImplementedElsewhere x"
    and "mlookup (svcAnnotations (soService so)) KeyPrimaryService = None"
    and "snd (fst (result_of (syncLoadBalancerIfNeeded c so s) h)) = None"
  shows "reconciled c so (st h) (trace_of (syncLoadBalancerIfNeeded c so s) h) (st (h @ trace_of (syncLoadBalancerIfNeeded c so s) h))"
proof (cases "wantsLoadBalancer so \<and> \<not> needsCleanup so")
  case False
  then have "result_of (cleanupLoadBalancer c so) h = None" and
    "trace_of (syncLoadBalancerIfNeeded c so s) h = trace_of (cleanupLoadBalancer c so) h"
    using assms(5) by (auto simp: syncLoadBalancerIfNeeded_def split: if_splits)
  then show ?thesis using False cleanup_specs [OF assms(1,2,4)] by auto
qed (use ensure_branch_specs [OF assms(1-4)] assms(5) in blast)

lemma replaced_specs:
  assumes "E = lmClients (scBalancer c)" "result_of (deleteReplaced c so key s) h = None"
  shows "predecessor_removed c so (scCache s key) (st h) (trace_of (deleteReplaced c so key s) h) (st (h @ trace_of (deleteReplaced c so key s) h))"
proof (cases "\<exists>old. scCache s key = Some old \<and> svcUID (soService old) \<noteq> svcUID (soService so) \<and> wantsLoadBalancer old")
  case True
  then obtain old where old: "scCache s key = Some old" "svcUID (soService old) \<noteq> svcUID (soService so)" "wantsLoadBalancer old" by blast
  then have r: "deleteReplaced c so key s = EnsureLoadBalancerDeleted (scBalancer c) (scClusterName c) (soService old)"
    by (simp add: deleteReplaced_def processLoadBalancerDelete_def)
  show ?thesis
  proof (cases "mlookup (svcAnnotations (soService old)) KeyPrimaryService")
    case None
    then show ?thesis
      using delete_specs [OF assms(1)] assms(2) old by (simp add: predecessor_removed_def owns_lb_def r primary_reads(3) [OF None])
  next
    case (Some p)
    then have "holds (\<lambda>_ e. lb_written e = None) (deleteReplaced c so key s)" by (simp add: r secondary_delete_silent)
    then show ?thesis using silent_specs old Some by (simp add: predecessor_removed_def owns_lb_def)
  qed
next
  case False
  then have "deleteReplaced c so key s = ret None"
    by (auto simp: deleteReplaced_def processLoadBalancerDelete_def split: option.split)
  then show ?thesis using False by (auto simp: predecessor_removed_def owns_lb_def split: option.split)
qed

end

text \<open>A known service is one whose cached state is of the same object.\<close>

definition same_object :: "sc_state \<Rightarrow> string \<Rightarrow> svc_object \<Rightarrow> bool" where
  "same_object s key so \<longleftrightarrow> (case scCache s key of None \<Rightarrow> True | Some old \<Rightarrow> svcUID (soService old) = svcUID (soService so))"

lemma syncService_found:
  assumes "SplitMetaNamespaceKey key = Inr (ns, n)" "fwSvcGet (scEnv c) h ns n = Ok so" "same_object s key so"
  defines "h1 \<equiv> h @ [FwSvcGet ns n (Ok so)]" and "s1 \<equiv> s\<lparr>scCache := (scCache s)(key \<mapsto> so)\<rparr>"
  shows "h @ trace_of (syncService c key s) h = h1 @ trace_of (syncLoadBalancerIfNeeded c so s1) h1"
    "result_of (syncService c key s) h = (case result_of (syncLoadBalancerIfNeeded c so s1) h1 of ((op, err), s2) \<Rightarrow>
       (err, if err = None \<and> op = DeleteLoadBalancer then s2\<lparr>scCache := (scCache s2)(key := None)\<rparr> else s2))"
  using assms
  by (auto simp: syncService_def processServiceCreateOrUpdate_def deleteReplaced_def same_object_def Let_def
      split: option.splits prod.split)


section \<open>An update for new nodes that fails\<close>

text \<open>A run that fails to record the address in the service rolls the load balancer back.\<close>

lemma rollback_run:
  assumes "mget (svcAnnotations svc) KeyNetwork = []" "mlookup (svcAnnotations svc) KeyPrimaryService = None"
    and "result_of (checkNetworkChanged l svc (lb_name_of cl svc) False) h = None"
    and "h1 = h @ trace_of (checkNetworkChanged l svc (lb_name_of cl svc) False) h"
    and "result_of (createOrUpdateLoadBalancer l (lb_name_of cl svc) cl svc) h1 = None"
    and "h2 = h1 @ trace_of (createOrUpdateLoadBalancer l (lb_name_of cl svc) cl svc) h1"
    and "result_of (updatePrimaryServiceLoadBalancerIP l (lb_name_of cl svc) svc) h2 \<noteq> None"
    and "h3 = h2 @ trace_of (updatePrimaryServiceLoadBalancerIP l (lb_name_of cl svc) svc) h2"
  shows "snd (result_of (EnsureLoadBalancer l cl svc) h) \<noteq> None"
    "h @ trace_of (EnsureLoadBalancer l cl svc) h = h3 @ trace_of (deleteLoadBalancer l cl svc) h3"
  using assms
  by (auto simp: EnsureLoadBalancer_def resolveNetworkInterface_def getPrimaryService_def ensurePrimaryLoadBalancer_def Let_def
      lb_name_of_def [symmetric])

text \<open>Harvester answers with a load balancer that has an address, on no network of its own; or has removed it.\<close>

definition lb_running :: "env \<Rightarrow> history \<Rightarrow> string \<times> string \<Rightarrow> bool" where
  "lb_running E h k \<longleftrightarrow> (\<exists>lb. envLbGet E h (fst k) (snd k) = Ok lb \<and> lbName lb \<noteq> [] \<and> lbAllocatedIP lb \<noteq> [] \<and>
     mget (lbAnnotations lb) AnnotationKeyNetworkOnLB = [])"

definition lb_gone :: "env \<Rightarrow> history \<Rightarrow> string \<times> string \<Rightarrow> bool" where
  "lb_gone E h k \<longleftrightarrow> (\<exists>err x. envLbGet E h (fst k) (snd k) = Fail err x \<and> IsNotFound err)"

text \<open>After \<open>h\<close>, Harvester acknowledges writes, keeps the load balancer running until its deletion, and has removed it by the
  next call.\<close>

definition harvester_obeys :: "env \<Rightarrow> history \<Rightarrow> string \<times> string \<Rightarrow> bool" where
  "harvester_obeys E h k \<longleftrightarrow>
     (\<forall>t. if LbDelete (fst k) (snd k) None \<in> set t then lb_gone E (h @ t) k else lb_running E (h @ t) k) \<and>
     (\<forall>t lb. \<exists>r. envLbUpdate E (h @ t) lb = Ok r) \<and> (\<forall>t. envLbDelete E (h @ t) (fst k) (snd k) = None)"

text \<open>Services cannot be updated, for whatever reason.\<close>

definition updates_refused :: "env \<Rightarrow> bool" where
  "updates_refused E \<longleftrightarrow> no_wait_timeout E \<and> (\<forall>h s r. envSvcUpdate E h s \<noteq> Ok r)"

lemma refused_update:
  assumes "updates_refused (lmClients l)"
  shows "result_of (retryUpdateService l svc ty ip lab upd) h \<noteq> None"
proof
  let ?fn = "retryFunc l svc ty ip lab upd"
  assume "result_of (retryUpdateService l svc ty ip lab upd) h = None"
  then have r: "result_of (RetryOnConflict DefaultBackoffSteps ?fn ()) h = None" by (simp add: retryUpdateService_def split: option.splits)
  have "fst (result_of (?fn u) h) \<notin> {None, Some ErrWaitTimeout}" for u h
    using assms by (auto simp: retryFunc_def updates_refused_def no_wait_timeout_def resp_err_def split: resp.split)
  then have *: "fst (result_of (?fn u) h) \<noteq> None" "fst (result_of (?fn u) h) \<noteq> Some ErrWaitTimeout" for u h by auto
  from svc_retry.retry_success [OF *(2) _ r] show False using *(1) by (auto simp: DefaultBackoffSteps_def)
qed

text \<open>
  An update for new nodes that fails after it has changed the load balancer rolls it back, so the load
  balancer of a running service is deleted; and the service controller then asks whether it exists, is
  told that it does not, and takes the update for a success: it is not retried.
\<close>

lemma obeys_running:
  assumes "harvester_obeys E h k" "\<forall>e\<in>set t. lb_written e = None \<or> is_lb_put e"
  shows "lb_running E (h @ t) k"
proof -
  have "LbDelete (fst k) (snd k) None \<notin> set t" using assms(2) by auto
  then show ?thesis using assms(1) unfolding harvester_obeys_def by metis
qed

lemma obeys_later:
  assumes "harvester_obeys E h k" "lb_written e = None"
  shows "harvester_obeys E (h @ [e]) k"
proof -
  have "e \<noteq> LbDelete ns n r" for ns n r using assms(2) by auto
  then have "LbDelete ns n r \<in> set (e # t) \<longleftrightarrow> LbDelete ns n r \<in> set t" for ns n r t by auto
  then show ?thesis using assms(1) unfolding harvester_obeys_def append_assoc append_Cons append_Nil by metis
qed

lemma update_rolled_back:
  fixes l cl svc h
  defines "k \<equiv> lb_key l cl svc" and "n \<equiv> lb_name_of cl svc"
  assumes "mlookup (svcAnnotations svc) KeyPrimaryService = None" "mget (svcAnnotations svc) KeyNetwork = []" "svcLabels svc = None"
    and "harvester_obeys (lmClients l) h k" "updates_refused (lmClients l)"
    and "\<forall>t. envSvcCacheList (lmClients l) (h @ t) NamespaceAll (KeyPrimaryService, primaryServiceLabelValue svc) = Ok []"
  shows "snd (result_of (EnsureLoadBalancer l cl svc) h) \<noteq> None"
    "LbDelete (lmNamespace l) n None \<in> set (trace_of (EnsureLoadBalancer l cl svc) h)"
proof -
  have run: "\<exists>lb. envLbGet (lmClients l) (h @ t) (lmNamespace l) n = Ok lb \<and> lbName lb \<noteq> [] \<and> lbAllocatedIP lb \<noteq> [] \<and>
      mget (lbAnnotations lb) AnnotationKeyNetworkOnLB = []" if "\<forall>e\<in>set t. lb_written e = None \<or> is_lb_put e" for t
    using obeys_running [OF assms(6) that] by (simp add: lb_running_def k_def lb_key_def n_def)
  have upd: "\<exists>r. envLbUpdate (lmClients l) (h @ t) lb = Ok r" and del: "envLbDelete (lmClients l) (h @ t) (lmNamespace l) n = None" for t lb
    using assms(6) by (simp_all add: harvester_obeys_def k_def lb_key_def n_def)
  let ?C = "checkNetworkChanged l svc n False" and ?W = "createOrUpdateLoadBalancer l n cl svc"
  let ?U = "updatePrimaryServiceLoadBalancerIP l n svc" and ?D = "deleteLoadBalancer l cl svc"
  have res: "resolveNetworkInterface l svc = ret (Inr [])" by (simp add: resolveNetworkInterface_def assms(4))
  obtain a where "envLbGet (lmClients l) h (lmNamespace l) n = Ok a" "lbName a \<noteq> []" "mget (lbAnnotations a) AnnotationKeyNetworkOnLB = []"
    using run [of "[]"] by auto
  then have C: "result_of ?C h = None" "trace_of ?C h = [LbGet (lmNamespace l) n (Ok a)]"
    using assms(4) by (simp_all add: checkNetworkChanged_def networkChangedError_def IsNetworkChanged_def other_error_def resp_err_def resp_obj_def)
  obtain b where b: "envLbGet (lmClients l) (h @ trace_of ?C h) (lmNamespace l) n = Ok b" using run [of "trace_of ?C h"] C(2) by auto
  let ?new = "constructLB l (Some b) svc n cl"
  obtain r where r: "envLbUpdate (lmClients l) (h @ trace_of ?C h @ [LbGet (lmNamespace l) n (Ok b)]) ?new = Ok r" using upd by blast
  have W: "result_of ?W (h @ trace_of ?C h) = None"
    "trace_of ?W (h @ trace_of ?C h) = [LbGet (lmNamespace l) n (Ok b), LbUpdate ?new (Ok r)]"
    using b r by (simp_all add: createOrUpdateLoadBalancer_def other_error_def resp_err_def resp_obj_def Let_def)
  define t where "t = trace_of ?C h @ trace_of ?W (h @ trace_of ?C h)"
  have t: "\<forall>e\<in>set t. lb_written e = None \<or> is_lb_put e" unfolding t_def W(2) unfolding C(2) by simp
  obtain lb where lb: "envLbGet (lmClients l) (h @ t) (lmNamespace l) n = Ok lb" "lbAllocatedIP lb \<noteq> []" using run [OF t] by blast
  then have "result_of (waitForIP (allocatedIP l n)) (h @ t) = Inr (lb, lbAllocatedIP lb)"
    by (intro waitForIP_now) (simp_all add: allocatedIP_def)
  then have U: "result_of ?U (h @ t) \<noteq> None"
    using refused_update [OF assms(7)] assms(5) by (simp add: updatePrimaryServiceLoadBalancerIP_def res isPrimaryServiceUpdatedWithIP_def)
  let ?v = "t @ trace_of ?U (h @ t)"
  have v: "\<forall>e\<in>set (?v @ [SvcCacheList x y z]). lb_written e = None \<or> is_lb_put e" for x y z
    using t updatePrimary_no_lb holds_memD by fastforce
  obtain lb' where lb': "envLbGet (lmClients l) (h @ ?v @ [SvcCacheList NamespaceAll (KeyPrimaryService, primaryServiceLabelValue svc) (Ok [])])
      (lmNamespace l) n = Ok lb'" using run [OF v] by blast
  have D: "LbDelete (lmNamespace l) n None \<in> set (trace_of ?D (h @ ?v))"
    using lb' del assms(8) by (simp add: deleteLoadBalancer_def checkSecondaryServicesBeforeDeleted_def other_error_def resp_err_def
        lb_name_of_def [symmetric] n_def Let_def)
  note roll = rollback_run [OF assms(4,3) C(1) [unfolded n_def] refl W(1) [unfolded n_def] refl]
  show "snd (result_of (EnsureLoadBalancer l cl svc) h) \<noteq> None"
    "LbDelete (lmNamespace l) n None \<in> set (trace_of (EnsureLoadBalancer l cl svc) h)"
    using roll U D by (simp_all add: n_def t_def)
qed

section \<open>Demo\<close>

definition demo_so :: svc_object where
  "demo_so = \<lparr>soService = demo_svc, soType = ''LoadBalancer'', soLBClass = None, soDeleted = False, soFinalizers = [], soSpec = default_spec\<rparr>"

definition dying_so :: svc_object where
  "dying_so = demo_so\<lparr>soDeleted := True, soFinalizers := [LoadBalancerCleanupFinalizer]\<rparr>"

definition demo_controller :: "svc_object \<Rightarrow> service_controller" where
  "demo_controller so = \<lparr>scBalancer = host_manager, scClusterName = ''c1'', scEnv = quiet_fw (Ok so) []\<rparr>"

definition fresh_sc :: sc_state where
  "fresh_sc = \<lparr>scCache = (\<lambda>_. None), scLastSyncedNodes = (\<lambda>_. [])\<rparr>"

lemma demo_so_simps [simp]:
  "soService demo_so = demo_svc" "wantsLoadBalancer demo_so" "\<not> needsCleanup demo_so" "\<not> HasLBFinalizer demo_so"
  "soService dying_so = demo_svc" "needsCleanup dying_so" "HasLBFinalizer dying_so"
  by (simp_all add: demo_so_def dying_so_def wantsLoadBalancer_def needsCleanup_def HasLBFinalizer_def ServiceTypeLoadBalancer_def)

lemma demo_controller_simps [simp]:
  "scBalancer (demo_controller so) = host_manager" "scClusterName (demo_controller so) = ''c1''"
  "fwSvcGet (scEnv (demo_controller so)) h ns n = Ok so" "fwSvcPatch (scEnv (demo_controller so)) h old new = Ok new"
  "fwNodeList (scEnv (demo_controller so)) h = Ok []" "scCache fresh_sc key = None" "same_object fresh_sc key so"
  by (simp_all add: demo_controller_def quiet_fw_def fresh_sc_def same_object_def)

lemma demo_key: "SplitMetaNamespaceKey ''default/web'' = Inr (''default'', ''web'')"
  by (simp add: SplitMetaNamespaceKey_def)

lemma host_own_errors: "own_errors (lmClients host_manager)"
  by (auto simp: own_errors_def host_manager_def host_def demo_env_def empty_env_def not_found_def ImplementedElsewhere_def split: option.splits)

lemma svcIngress_demo [simp]: "svcIngress demo_svc = []"
  by (simp add: demo_svc_def)


lemma demo_sync_ok: "fst (result_of (syncService (demo_controller demo_so) ''default/web'' fresh_sc) []) = None"
proof -
  have "result_of (EnsureLoadBalancer host_manager ''c1'' demo_svc) [FwSvcGet a b r, FwSvcPatch x y z, FwNodeList w] = (Some [], None)" for a b r x y z w
    by (rule host_run [OF host_manager_hosting]) (simp add: hosted_def)
  then show ?thesis
    by (simp add: syncService_found(2) [OF demo_key] syncLoadBalancerIfNeeded_def addFinalizer_def ensureLoadBalancer_sc_def
        listWithPredicates_def finishSync_def patchStatus_def resp_err_def Let_def)
qed


section \<open>Properties\<close>


text \<open>C15: The finalizer is taken off a service only when it no longer wants its load balancer and, in the
  same synchronization, the load balancer was not found, or had no address, or its deletion was acknowledged;
  or the service shares the load balancer of another one.\<close>

theorem finalizer_released_after_cleanup:
  assumes "own_errors (lmClients (scBalancer c))" "trace_of (syncService c key s) h = pre @ FwSvcPatch so new r # post"
    and "HasLBFinalizer so" "\<not> HasLBFinalizer new"
  shows "(\<not> wantsLoadBalancer so \<or> needsCleanup so) \<and> lb_released c so pre"
  using syncService_ok [OF assms(1), of key s] assms(2-4) unfolding holds_def always_def by fastforce


text \<open>C21: A load balancer that has no address yet outlives its service: cleaning up a primary service that is
  being deleted reports success, takes the finalizer off and forgets the service, but the load
  balancer keeps its place in Harvester, since \<open>GetLoadBalancer\<close> says it does not exist.\<close>

theorem pending_lb_leaked:
  assumes "lb_store (lmClients (scBalancer c)) st" "SplitMetaNamespaceKey key = Inr (ns, n)" "fwSvcGet (scEnv c) h ns n = Ok so"
    and "same_object s key so" "needsCleanup so" "mlookup (svcAnnotations (soService so)) KeyPrimaryService = None"
    and "h1 = h @ [FwSvcGet ns n (Ok so)]" "lb_key (scBalancer c) (scClusterName c) (soService so) = (lns, name)"
    and "envLbGet (lmClients (scBalancer c)) h1 lns name = Ok lb" "lbAddress lb = []"
    and "\<forall>h old new. fwSvcPatch (scEnv c) h old new = Ok new"
  shows "fst (result_of (syncService c key s) h) = None \<and> scCache (snd (result_of (syncService c key s) h)) key = None \<and>
    (\<exists>new. FwSvcPatch so new (Ok new) \<in> set (trace_of (syncService c key s) h) \<and> \<not> HasLBFinalizer new) \<and>
    specs (st (h @ trace_of (syncService c key s) h)) (lns, name) = Some (lb_spec lb)"
proof -
  let ?s = "s\<lparr>scCache := (scCache s)(key \<mapsto> so)\<rparr>"
  have k: "lns = lmNamespace (scBalancer c)" "name = lb_name_of (scClusterName c) (soService so)"
    using assms(8) by (simp_all add: lb_key_def)
  have g: "result_of (GetLoadBalancer (scBalancer c) (scClusterName c) (soService so)) h1 = (None, False, None)"
    using assms(9,10) by (simp add: primary_reads [OF assms(6)] k)
  have fin: "HasLBFinalizer so" using assms(5) by (simp add: needsCleanup_def split: if_splits)
  define u where "u = trace_of (cleanupLoadBalancer c so) h1"
  have r: "result_of (syncLoadBalancerIfNeeded c so ?s) h1 = ((DeleteLoadBalancer, None), ?s)"
    "trace_of (syncLoadBalancerIfNeeded c so ?s) h1 = u"
    using assms(5,11) g fin
    by (simp_all add: u_def syncLoadBalancerIfNeeded_def cleanup_unfold removeLoadBalancer_def removeFinalizer_def finishSync_def
        patchStatus_def resp_err_def)
  have "\<exists>new. FwSvcPatch so new (Ok new) \<in> set u \<and> \<not> HasLBFinalizer new" "\<forall>e\<in>set u. lb_written e = None"
    using assms(11) g fin primary_reads(1) [OF assms(6)]
    by (auto simp: u_def cleanup_unfold removeLoadBalancer_def removeFinalizer_def finishSync_def patchStatus_def resp_err_def)
  moreover from this have "specs (st (h1 @ u)) (lns, name) = Some (lb_spec lb)"
    using lb_store.silent_trace [OF assms(1)] lb_store.get_found [OF assms(1) assms(9)] by (simp add: specs_def)
  moreover have "h @ trace_of (syncService c key s) h = h1 @ u"
    using syncService_found(1) [OF assms(2-4)] r(2) by (simp add: assms(7))
  moreover from this have "set u \<subseteq> set (trace_of (syncService c key s) h)" by (auto simp: assms(7))
  ultimately show ?thesis
    using syncService_found(2) [OF assms(2-4)] r by (auto simp: assms(7) [symmetric])
qed

lemma secondary_cleanup_writes:
  assumes "mlookup (svcAnnotations (soService so)) KeyPrimaryService = Some p"
  shows "holds (\<lambda>_ e. is_write e \<longrightarrow> (\<exists>new r. e = FwSvcPatch so new r \<and> svcLabels (soService new) = svcLabels (soService so)))
    (cleanupLoadBalancer c so)"
proof -
  let ?P = "\<lambda>_ e. is_write e \<longrightarrow> (\<exists>new r. e = FwSvcPatch so new r \<and> svcLabels (soService new) = svcLabels (soService so))"
  let ?svc = "soService so"
  have r: "allows_reads ?P" by (simp add: allows_reads_def)
  have get: "holds ?P (GetLoadBalancer l cl ?svc)" for l cl
    unfolding GetLoadBalancer_def GetLoadBalancerName_def Let_def
    by (intro holds_bind holds_reads holds_call holds_ret monoP_const r)
  have "holds ?P (EnsureLoadBalancerDeleted l cl ?svc)" for l cl
    using holds_reads(1) [OF monoP_const r, of l ?svc] by (simp add: holds_def secondary_delete_reads [OF assms])
  then have del: "holds ?P (removeLoadBalancer c so b)" for b by (simp add: removeLoadBalancer_def)
  have fin: "holds ?P (removeFinalizer c so)" "holds ?P (finishSync c so s)" for s
    by (simp_all add: holds_def removeFinalizer_def finishSync_def patchStatus_def)
  show ?thesis unfolding cleanup_unfold
    by (intro holds_bind holds_branches monoP_const get del fin holds_ret)
qed

text \<open>C23: A secondary service that is cleaned up but stays, for instance as a service of another type, keeps
  the label of its primary service: no write of the cleanup changes the labels.  As long as the
  cache lists it under that label, deleting the load balancer of the primary service fails.\<close>

theorem released_secondary_blocks_primary:
  assumes "mlookup (svcAnnotations (soService so)) KeyPrimaryService = Some p" "\<not> wantsLoadBalancer so"
    and "e \<in> set (trace_of (syncLoadBalancerIfNeeded c so s) h)" "is_write e"
    and "envSvcCacheList (lmClients (scBalancer c)) h' NamespaceAll (KeyPrimaryService, primaryServiceLabelValue primary) = Ok svcs"
    and "soService so \<in> set svcs" "mlookup (svcAnnotations primary) KeyPrimaryService = None"
  shows "(\<exists>new r. e = FwSvcPatch so new r \<and> svcLabels (soService new) = svcLabels (soService so)) \<and>
    result_of (EnsureLoadBalancerDeleted (scBalancer c) (scClusterName c) primary) h' \<noteq> None"
proof
  have "e \<in> set (trace_of (cleanupLoadBalancer c so) h)"
    using assms(2,3) by (simp add: syncLoadBalancerIfNeeded_def)
  then show "\<exists>new r. e = FwSvcPatch so new r \<and> svcLabels (soService new) = svcLabels (soService so)"
    using holds_memD [OF secondary_cleanup_writes [OF assms(1)]] assms(4) by blast
  have "svcs \<noteq> []" using assms(6) by auto
  then show "result_of (EnsureLoadBalancerDeleted (scBalancer c) (scClusterName c) primary) h' \<noteq> None"
    using assms(5) by (simp add: primary_reads(3) [OF assms(7)] deleteLoadBalancer_def checkSecondaryServicesBeforeDeleted_def)
qed

section \<open>Witnesses\<close>


text \<open>The service is deleted before it got a load balancer.\<close>

definition freed_so :: svc_object where
  "freed_so = dying_so\<lparr>soFinalizers := removeString (soFinalizers dying_so) LoadBalancerCleanupFinalizer\<rparr>"

lemma dying_run:
  "trace_of (syncService (demo_controller dying_so) ''default/web'' fresh_sc) [] =
    [FwSvcGet ''default'' ''web'' (Ok dying_so), LbGet ''default'' (lb_name_of ''c1'' demo_svc) (Fail not_found None)] @
    FwSvcPatch dying_so freed_so (Ok freed_so) # []"
  using primary_reads(1,2) [OF demo_not_secondary]
  by (simp add: syncService_def demo_key processServiceCreateOrUpdate_def deleteReplaced_def syncLoadBalancerIfNeeded_def cleanup_unfold
      removeLoadBalancer_def removeFinalizer_def finishSync_def patchStatus_def resp_err_def host_get hosted_def freed_so_def Let_def)

theorem finalizer_released_after_cleanup_witness:
  "needsCleanup dying_so \<and> lb_released (demo_controller dying_so) dying_so
     [FwSvcGet ''default'' ''web'' (Ok dying_so), LbGet ''default'' (lb_name_of ''c1'' demo_svc) (Fail not_found None)]"
  using finalizer_released_after_cleanup [OF _ dying_run] by (simp add: host_own_errors freed_so_def)









text \<open>Harvester has accepted a load balancer, and its status has no address yet.\<close>

definition pending_lb :: loadbalancer where
  "pending_lb = constructLB host_manager None demo_svc (lb_name_of ''c1'' demo_svc) ''c1''"

abbreviation pending_past :: history where
  "pending_past \<equiv> [] @ [LbCreate pending_lb (Ok pending_lb)]"

lemma pending_lb_simps:
  "lb_id pending_lb = (''default'', lb_name_of ''c1'' demo_svc)" "lbName pending_lb \<noteq> []" "lbAddress pending_lb = []"
  by (simp_all add: pending_lb_def constructLB_id absentLB_def constructLB_name)
    (simp add: constructLB_def absentLB_def newLBObject_def patchLBObject_def Let_def split: list.split option.split sum.split)

lemma pending_get:
  "envLbGet (lmClients host_manager) (pending_past @ [FwSvcGet a b r]) ''default'' (lb_name_of ''c1'' demo_svc) =
     Ok (pending_lb\<lparr>lbAllocatedIP := ''10.0.0.5''\<rparr>)"
  using hosted_snoc(1) [of "FwSvcGet a b r" _ "[]" pending_past] hosted_snoc(2) [OF pending_lb_simps(1,2), of _ "[]" "[]" pending_lb]
  by (simp only: host_get lb_written.simps option.case)

theorem pending_lb_leaked_witness:
  "let c = demo_controller dying_so; run = syncService c ''default/web'' fresh_sc; h = pending_past in
    fst (result_of run h) = None \<and> scCache (snd (result_of run h)) ''default/web'' = None \<and>
    (\<exists>new. FwSvcPatch dying_so new (Ok new) \<in> set (trace_of run h) \<and> \<not> HasLBFinalizer new) \<and>
    specs (demo_hosted (h @ trace_of run h)) (''default'', lb_name_of ''c1'' demo_svc) =
      Some (lb_spec (pending_lb\<lparr>lbAllocatedIP := ''10.0.0.5''\<rparr>))"
  unfolding Let_def
  by (rule pending_lb_leaked [OF _ demo_key _ _ _ _ refl _ pending_get [folded demo_controller_simps(1) [of dying_so]]])
    (simp_all add: host_store demo_not_secondary lb_key_def pending_lb_simps)

text \<open>A secondary service of the demo service that has become a service of type \<open>ClusterIP\<close>.\<close>

definition former_so :: svc_object where
  "former_so = \<lparr>soService = demo_svc\<lparr>svcName := ''second'', svcUID := ''u2'', svcAnnotations := Some (fmap_of_list [(KeyPrimaryService, ''default/web'')]),
       svcLabels := Some (fmap_of_list [(KeyPrimaryService, ''default.web'')])\<rparr>,
     soType = ''ClusterIP'', soLBClass = None, soDeleted = False, soFinalizers = [LoadBalancerCleanupFinalizer], soSpec = default_spec\<rparr>"

definition freed_former :: svc_object where
  "freed_former = former_so\<lparr>soFinalizers := []\<rparr>"

definition former_controller :: service_controller where
  "former_controller = \<lparr>scBalancer = demo_manager [soService former_so], scClusterName = ''c1'', scEnv = quiet_fw (Ok former_so) []\<rparr>"

theorem released_secondary_blocks_primary_witness:
  "(\<exists>new r. FwSvcPatch former_so freed_former (Ok freed_former) = FwSvcPatch former_so new r \<and>
      svcLabels (soService new) = svcLabels (soService former_so)) \<and>
    result_of (EnsureLoadBalancerDeleted (scBalancer former_controller) (scClusterName former_controller) demo_svc) [] \<noteq> None"
proof (rule released_secondary_blocks_primary)
  show "mlookup (svcAnnotations (soService former_so)) KeyPrimaryService = Some ''default/web''" "\<not> wantsLoadBalancer former_so"
    by (simp_all add: former_so_def wantsLoadBalancer_def ServiceTypeLoadBalancer_def mlookup_def)
  show "envSvcCacheList (lmClients (scBalancer former_controller)) [] NamespaceAll (KeyPrimaryService, primaryServiceLabelValue demo_svc) =
      Ok [soService former_so]" by (simp add: former_controller_def demo_manager_def demo_env_def)
  show "FwSvcPatch former_so freed_former (Ok freed_former) \<in> set (trace_of (syncLoadBalancerIfNeeded former_controller former_so fresh_sc) [])"
  proof -
    have "wantsLoadBalancer former_so = False" "HasLBFinalizer former_so" "svcIngress (soService former_so) = []"
      "former_so\<lparr>soFinalizers := removeString (soFinalizers former_so) LoadBalancerCleanupFinalizer\<rparr> = freed_former"
      "soService former_so = soService freed_former" "soType former_so = soType freed_former" "soLBClass former_so = soLBClass freed_former"
      "soSpec former_so = soSpec freed_former"
      by (simp_all add: former_so_def freed_former_def wantsLoadBalancer_def ServiceTypeLoadBalancer_def HasLBFinalizer_def)
    moreover have "fst (snd (result_of (GetLoadBalancer (demo_manager [soService freed_former]) ''c1'' (soService freed_former)) [])) = False"
      "snd (snd (result_of (GetLoadBalancer (demo_manager [soService freed_former]) ''c1'' (soService freed_former)) [])) = None"
      by (simp_all add: GetLoadBalancer_def GetLoadBalancerName_def getPrimaryService_def freed_former_def former_so_def demo_manager_def
          demo_env_def mlookup_def demo_svc_def Let_def split: list.split)
    ultimately show ?thesis
      by (auto simp: syncLoadBalancerIfNeeded_def cleanup_unfold removeLoadBalancer_def removeFinalizer_def former_controller_def quiet_fw_def
          resp_err_def)
  qed
qed (simp_all add: demo_not_secondary)

end
