(* ===== verification/ServiceLoop.thy ===== *)
theory ServiceLoop
  imports ServiceSync
begin

text \<open>
  The loop from a change of a service to its synchronization and back: which changes the service controller
  notices, and that its own writes, and those of the load balancer manager, do not keep it busy.  The
  locale \<open>steady_cluster\<close> is the contract of a cluster in which nobody else changes the service
  while its address and the network mapping stay.
\<close>

section \<open>Changes that are noticed\<close>

lemma portEqualForLB_iff: "portEqualForLB x y \<longleftrightarrow> x = y"
  by (cases x, cases y) (auto simp: portEqualForLB_def)

lemma portSlicesLoop_iff: "length xs = length ys \<Longrightarrow> portSlicesLoop xs ys \<longleftrightarrow> xs = ys"
  by (induction xs ys rule: list_induct2) (auto simp: portEqualForLB_iff)

lemma portSlicesEqualForLB_iff: "portSlicesEqualForLB xs ys \<longleftrightarrow> xs = ys"
  by (auto simp: portSlicesEqualForLB_def portSlicesLoop_iff)

lemma externalIPsDiffer_iff: "length xs = length ys \<Longrightarrow> externalIPsDiffer xs ys \<longleftrightarrow> xs \<noteq> ys"
  by (induction xs ys rule: list_induct2) auto

lemma needsUpdate_same [simp]: "\<not> needsUpdate so so"
  by (simp add: needsUpdate_def portSlicesEqualForLB_iff externalIPsDiffer_iff Let_def)

lemma unnoticedD:
  assumes "\<not> needsUpdate old new" "wantsLoadBalancer new"
  shows "wantsLoadBalancer old" "svcServicePorts (soService new) = svcServicePorts (soService old)"
    "svcAnnotations (soService new) = svcAnnotations (soService old)" "svcUID (soService new) = svcUID (soService old)"
  using assms by (auto simp: needsUpdate_def portSlicesEqualForLB_iff Let_def split: if_splits)

text \<open>What the load balancer manager takes from a service besides its labels and its status.\<close>

lemma ensured_cong:
  assumes "svcNamespace s = svcNamespace s'" "svcName s = svcName s'" "svcUID s = svcUID s'" "svcAnnotations s = svcAnnotations s'"
  shows "lb_key l cl s = lb_key l cl s'" "ensured l cl s old = ensured l cl s' old"
    "getPrimaryService l s = getPrimaryService l s'" "resolveNetworkInterface l s = resolveNetworkInterface l s'"
proof -
  have key: "svc_key s = svc_key s'" using assms by (simp add: svc_key_def)
  have n: "lb_name_of cl s = lb_name_of cl s'" using assms by (simp add: lb_name_of_def)
  show "lb_key l cl s = lb_key l cl s'" using n by (simp add: lb_key_def)
  let ?a = "constructLB l old s (lb_name_of cl s') cl" and ?b = "constructLB l old s' (lb_name_of cl s') cl"
  have "lbLabels ?a = lbLabels ?b"
    by (rule gomap_eqI) (use assms in \<open>simp_all add: constructLB_labels del: not_None_eq\<close>)
  moreover have "lbAnnotations ?a = lbAnnotations ?b"
    by (rule gomap_eqI) (use assms in \<open>simp_all add: constructLB_annotations del: not_None_eq\<close>)
  ultimately show "ensured l cl s old = ensured l cl s' old"
    unfolding ensured_def n by (intro lb_spec_eqI) (simp_all add: constructLB_id constructLB_rest assms)
  show "getPrimaryService l s = getPrimaryService l s'" "resolveNetworkInterface l s = resolveNetworkInterface l s'"
    using assms unfolding getPrimaryService_def resolveNetworkInterface_def key by simp_all
qed

text \<open>C19: A change of a service that the service controller does not take up is one the load balancer
  manager need not hear of: the service has the same primary service, the same network interface and the
  same load balancer name, the load balancer wanted for it is the same from any present one, and the check of
  its ports gives the same result.\<close>

theorem unnoticed_change_harmless:
  assumes "serviceUpdated old new q \<noteq> enqueueService new q" "wantsLoadBalancer new"
    and "svcNamespace (soService new) = svcNamespace (soService old)" "svcName (soService new) = svcName (soService old)"
  shows "lb_key l cl (soService new) = lb_key l cl (soService old) \<and>
    ensured l cl (soService new) lb = ensured l cl (soService old) lb \<and>
    getPrimaryService l (soService new) = getPrimaryService l (soService old) \<and>
    resolveNetworkInterface l (soService new) = resolveNetworkInterface l (soService old) \<and>
    checkPortOverlap l p (soService new) = checkPortOverlap l p (soService old)"
proof -
  have "\<not> needsUpdate old new" using assms(1) by (auto simp: serviceUpdated_def)
  note same = unnoticedD [OF this assms(2)]
  then have "svcPorts (soService new) = svcPorts (soService old)" by (simp add: svcPorts_def)
  then have "checkPortOverlap l p (soService new) = checkPortOverlap l p (soService old)"
    unfolding checkPortOverlap_def same(4) by (simp only:)
  then show ?thesis using ensured_cong [OF assms(3,4) same(4,3)] by simp
qed

section \<open>Writing the address again\<close>

lemma mset_key_same: "mlookup m k = Some v \<Longrightarrow> mset_key k v m = m"
  by (cases m) (auto simp: mlookup_def mset_key_def intro!: fmap_ext)

lemma mget_Some: "mget m k = v \<Longrightarrow> v \<noteq> [] \<Longrightarrow> mlookup m k = Some v"
  by (auto simp: mget_def mlookup_def split: option.splits)

lemma updatePrimary_fixed:
  assumes "mlookup (svcAnnotations s) KeyKubevipLoadBalancerIP = Some ip"
    and "ifc \<noteq> [] \<Longrightarrow> mlookup (svcAnnotations s) KeyKubevipServiceInterface = Some ifc"
    and "svcLabels s = None \<or> mget (svcLabels s) KeyPrimaryService = []"
  shows "updatePrimaryServiceObject ifc s ip lab = s"
proof -
  have "made (svcAnnotations s) = svcAnnotations s"
    using assms(1) by (cases "svcAnnotations s") (auto simp: made_def mlookup_def)
  then show ?thesis
    using assms by (auto simp: updatePrimaryServiceObject_def mset_key_same Let_def)
qed

lemma updatePrimary_again:
  "updatePrimaryServiceObject ifc (updatePrimaryServiceObject ifc s ip lab) ip lab = updatePrimaryServiceObject ifc s ip lab"
  by (rule updatePrimary_fixed) (auto simp: updatePrimaryServiceObject_def key_defs Let_def)

lemma isPrimary_fixed:
  "isPrimaryServiceUpdatedWithIP s lb ip ifc \<Longrightarrow> ip \<noteq> [] \<Longrightarrow> updatePrimaryServiceObject ifc s ip lab = s"
  by (rule updatePrimary_fixed) (auto simp: isPrimaryServiceUpdatedWithIP_def intro: mget_Some split: if_splits)

definition svc_ident :: "service \<Rightarrow> string \<times> string \<times> string" where
  "svc_ident s = (svcNamespace s, svcName s, svcUID s)"

lemma updatePrimary_ident: "svc_ident (updatePrimaryServiceObject ifc s ip lab) = svc_ident s"
  by (simp add: svc_ident_def updatePrimaryServiceObject_def Let_def)

lemma updatePrimary_resolve: "resolveNetworkInterface l (updatePrimaryServiceObject ifc s ip lab) = resolveNetworkInterface l s"
proof -
  have "mget (svcAnnotations (updatePrimaryServiceObject ifc s ip lab)) KeyNetwork = mget (svcAnnotations s) KeyNetwork"
    "svc_key (updatePrimaryServiceObject ifc s ip lab) = svc_key s"
    by (simp_all add: updatePrimaryServiceObject_def svc_key_def key_defs Let_def)
  then show ?thesis unfolding resolveNetworkInterface_def by (simp only:)
qed

section \<open>A cluster in which nobody else changes the service\<close>

fun svc_write :: "event \<Rightarrow> bool" where
  "svc_write (SvcUpdate s r) = True"
| "svc_write (FwSvcPatch old new r) = True"
| "svc_write _ = False"

fun svc_acked :: "event \<Rightarrow> bool" where
  "svc_acked (SvcUpdate s (Ok r)) = True"
| "svc_acked (FwSvcPatch old new (Ok r)) = True"
| "svc_acked _ = False"

locale steady_cluster =
  fixes c :: service_controller and ob :: "history \<Rightarrow> svc_object" and ns n uid ip :: string
  assumes ident: "svc_ident (soService (ob h)) = (ns, n, uid)"
    and lister: "fwSvcGet (scEnv c) h ns n = Ok (ob h)"
    and cached: "envSvcCacheGet (lmClients (scBalancer c)) h ns n = Ok (soService (ob h))"
    and updated: "svc_ident s = (ns, n, uid) \<Longrightarrow> ob (h @ [SvcUpdate s (Ok r)]) = (ob h)\<lparr>soService := s\<rparr>"
    and patched: "svc_ident (soService old) = (ns, n, uid) \<Longrightarrow> soFinalizers (ob h) = soFinalizers old \<Longrightarrow>
      new = old\<lparr>soFinalizers := soFinalizers new\<rparr> \<Longrightarrow> ob (h @ [FwSvcPatch old new (Ok r')]) = (ob h)\<lparr>soFinalizers := soFinalizers new\<rparr>"
    and quiet: "\<not> svc_acked e \<Longrightarrow> ob (h @ [e]) = ob h"
    and address: "envLbGet (lmClients (scBalancer c)) h (lmNamespace (scBalancer c)) (loadBalancerName (scClusterName c) ns n uid) = Ok lb \<Longrightarrow>
      lbAllocatedIP lb = [] \<or> lbAllocatedIP lb = ip"
    and mapping: "envCmCacheGet (lmClients (scBalancer c)) h x y = envCmCacheGet (lmClients (scBalancer c)) [] x y"
begin

abbreviation l :: lb_manager where
  "l \<equiv> scBalancer c"

lemma quiet_trace: "\<forall>e\<in>set t. \<not> svc_acked e \<Longrightarrow> ob (h @ t) = ob h"
proof (induction t rule: rev_induct)
  case (snoc e t)
  then show ?case using quiet [of e "h @ t"] by simp
qed simp

lemma resolved: "result_of (resolveNetworkInterface l s) h = result_of (resolveNetworkInterface l s) []"
  by (simp add: resolveNetworkInterface_def GetNADInterfaceMapping_def Let_def mapping [of h])

text \<open>The service with its address and interface written on it.\<close>

definition target :: "service \<Rightarrow> service" where
  "target s = (case result_of (resolveNetworkInterface l s) [] of Inr ifc \<Rightarrow> updatePrimaryServiceObject ifc s ip [] | Inl _ \<Rightarrow> s)"

lemma target_simps [simp]: "target (target s) = target s" "svc_ident (target s) = svc_ident s"
  by (auto simp: target_def updatePrimary_again updatePrimary_ident updatePrimary_resolve split: sum.split)

text \<open>
  Operations for a service that change the object in one way only: the service it holds becomes
  its target.
\<close>

definition within :: "service \<Rightarrow> 'a io \<Rightarrow> bool" where
  "within s m \<longleftrightarrow> appends m \<and> (\<forall>h. soService (ob h) \<in> {s, target s} \<longrightarrow>
     (\<exists>s'\<in>{s, target s}. ob (h @ trace_of m h) = (ob h)\<lparr>soService := s'\<rparr>))"

lemma withinI: "appends m \<Longrightarrow> (\<And>h. ob (h @ trace_of m h) = ob h) \<Longrightarrow> within s m"
  unfolding within_def by (metis svc_object.surjective svc_object.update_convs(1))

lemma within_ret [simp]: "within s (ret a)"
  by (rule withinI) simp_all

lemma within_bind:
  assumes "within s m" "\<And>a. appends (k a)" "\<And>h. within s (k (result_of m h))"
  shows "within s (State_Monad.bind m k)"
  unfolding within_def
proof (intro conjI allI impI)
  show "appends (State_Monad.bind m k)" using assms(1,2) by (simp add: within_def)
  fix h assume "soService (ob h) \<in> {s, target s}"
  then obtain s' where s': "s' \<in> {s, target s}" "ob (h @ trace_of m h) = (ob h)\<lparr>soService := s'\<rparr>"
    using assms(1) unfolding within_def by blast
  then have "soService (ob (h @ trace_of m h)) \<in> {s, target s}" by simp
  then obtain s'' where "s'' \<in> {s, target s}"
    "ob ((h @ trace_of m h) @ trace_of (k (result_of m h)) (h @ trace_of m h)) = (ob (h @ trace_of m h))\<lparr>soService := s''\<rparr>"
    using assms(3) unfolding within_def by blast
  then show "\<exists>s'\<in>{s, target s}. ob (h @ trace_of (State_Monad.bind m k) h) = (ob h)\<lparr>soService := s'\<rparr>"
    using assms(1,2) s' by (intro bexI [of _ s'']) (auto simp: within_def)
qed

lemma silent_ob: "holds (\<lambda>_ e. \<not> svc_write e) m \<Longrightarrow> ob (h @ trace_of m h) = ob h"
proof -
  assume m: "holds (\<lambda>_ e. \<not> svc_write e) m"
  have "\<not> svc_write e \<Longrightarrow> \<not> svc_acked e" for e by (cases e) auto
  then show ?thesis using holds_memD [OF m] by (auto intro!: quiet_trace)
qed

lemma within_silent: "holds (\<lambda>_ e. \<not> svc_write e) m \<Longrightarrow> within s m"
  by (rule withinI) (simp_all add: silent_ob, simp add: holds_def)

lemma within_retry:
  assumes "\<And>u. within s (fn u)"
  shows "within s (RetryOnConflict k fn u)"
proof -
  have sl: "within s sleep" by (rule within_silent) (simp add: holds_def)
  have ap: "appends (retry_loop k le fn u)" for k le u
    using assms by (intro retried.appends_loop retried.intro) (simp add: within_def)
  have "within s (retry_loop k le fn u)" for le
  proof (induction k arbitrary: le u)
    case (Suc k)
    then show ?case
      by (auto intro!: within_bind assms sl ap simp: ap split: prod.split option.split)
  qed simp
  then show ?thesis by (simp add: RetryOnConflict_loop)
qed

lemma waited_ip:
  assumes "result_of (waitForIP (allocatedIP l (loadBalancerName (scClusterName c) ns n uid))) h = Inr (lb, ip')"
  shows "ip' = ip \<and> ip' \<noteq> []"
proof -
  let ?n = "loadBalancerName (scClusterName c) ns n uid"
  have "result_of (waitLoop retryTimes (OtherError ''nil'') (allocatedIP l ?n)) h = Inr (lb, ip')"
    using assms by (simp add: waitForIP_def split: sum.splits)
  from waitLoop_success [OF _ this] obtain t where "result_of (allocatedIP l ?n) (h @ t) = Inr (lb, ip')" by auto
  then show ?thesis using address by (fastforce simp: allocatedIP_def split: resp.splits if_splits)
qed

lemma silent_pred: "monoP (\<lambda>_ e. \<not> svc_write e)" "allows_reads (\<lambda>_ e. \<not> svc_write e)"
proof -
  have "\<not> is_write e \<longrightarrow> \<not> svc_write e" for e by (cases e) auto
  then show "monoP (\<lambda>_ e. \<not> svc_write e)" "allows_reads (\<lambda>_ e. \<not> svc_write e)" by (simp_all add: allows_reads_def)
qed

lemma silent_lb:
  "holds (\<lambda>_ e. \<not> svc_write e) (createOrUpdateLoadBalancer l name cl s)" "holds (\<lambda>_ e. \<not> svc_write e) (deleteLoadBalancer l cl s)"
proof -
  have w: "holds (\<lambda>_ e. \<not> svc_write e) (lbCreate E lb)" "holds (\<lambda>_ e. \<not> svc_write e) (lbUpdate E lb)"
    "holds (\<lambda>_ e. \<not> svc_write e) (lbDelete E a b)" "holds (\<lambda>_ e. \<not> svc_write e) (warnClusterName name cl)" for E lb a b
    by (simp_all add: holds_def)
  show "holds (\<lambda>_ e. \<not> svc_write e) (createOrUpdateLoadBalancer l name cl s)"
    unfolding createOrUpdateLoadBalancer_def Let_def by (intro holds_bind holds_branches holds_reads holds_call silent_pred holds_ret w)
  show "holds (\<lambda>_ e. \<not> svc_write e) (deleteLoadBalancer l cl s)"
    unfolding deleteLoadBalancer_def Let_def by (intro holds_bind holds_branches holds_reads holds_call silent_pred holds_ret w)
qed

text \<open>One attempt to write the address.\<close>

lemma attempt:
  assumes "svc_ident s = (ns, n, uid)" "result_of (resolveNetworkInterface l s) [] = Inr ifc" "soService (ob h) \<in> {s, target s}"
    and "fn = retryFunc l s ty ip [] (updatePrimaryServiceObject ifc)"
  obtains r where "result_of (fn u) h = (resp_err r, ())"
    "ob (h @ trace_of (fn u) h) = (case r of Ok _ \<Rightarrow> (ob h)\<lparr>soService := target s\<rparr> | Fail _ _ \<Rightarrow> ob h)"
    "r = envSvcUpdate (lmClients l) (h @ [SvcCacheGet ns n (Ok (soService (ob h)))]) (target s)"
proof -
  have id: "svcNamespace s = ns" "svcName s = n" "svcUID s = uid" using assms(1) by (simp_all add: svc_ident_def)
  have old: "svcUID (soService (ob h)) = uid" using ident [of h] by (simp add: svc_ident_def)
  have upd: "updatePrimaryServiceObject ifc (soService (ob h)) ip [] = target s"
    using assms(2,3) by (auto simp: target_def updatePrimary_again)
  let ?g = "SvcCacheGet ns n (Ok (soService (ob h)))"
  let ?r = "envSvcUpdate (lmClients l) (h @ [?g]) (target s)"
  have g: "ob (h @ [?g]) = ob h" by (rule quiet) simp
  have "trace_of (fn u) h = [?g, SvcUpdate (target s) ?r]" "result_of (fn u) h = (resp_err ?r, ())"
    using cached [of h] id old upd by (simp_all add: assms(4) retryFunc_def)
  moreover have "ob ((h @ [?g]) @ [SvcUpdate (target s) ?r]) = (case ?r of Ok _ \<Rightarrow> (ob h)\<lparr>soService := target s\<rparr> | Fail _ _ \<Rightarrow> ob h)"
    using updated [of "target s" "h @ [?g]"] quiet [of "SvcUpdate (target s) _" "h @ [?g]"] assms(1) g
    by (cases ?r) simp_all
  ultimately show thesis using that [of ?r] by simp
qed

lemma within_update:
  assumes "svc_ident s = (ns, n, uid)" "result_of (resolveNetworkInterface l s) [] = Inr ifc"
  shows "within s (retryUpdateService l s ty ip [] (updatePrimaryServiceObject ifc))"
proof -
  have "within s (retryFunc l s ty ip [] (updatePrimaryServiceObject ifc) u)" for u
    unfolding within_def
  proof (intro conjI allI impI)
    fix h assume s: "soService (ob h) \<in> {s, target s}"
    obtain r :: "service resp" where "ob (h @ trace_of (retryFunc l s ty ip [] (updatePrimaryServiceObject ifc) u) h) =
        (case r of Ok _ \<Rightarrow> (ob h)\<lparr>soService := target s\<rparr> | Fail _ _ \<Rightarrow> ob h)"
      by (rule attempt [OF assms s refl, where ty = ty and u = u]) blast
    with s show "\<exists>s'\<in>{s, target s}. ob (h @ trace_of (retryFunc l s ty ip [] (updatePrimaryServiceObject ifc) u) h) = (ob h)\<lparr>soService := s'\<rparr>"
      by (intro bexI [of _ "case r of Ok _ \<Rightarrow> target s | Fail _ _ \<Rightarrow> soService (ob h)"]) (auto split: resp.split)
  qed simp
  then show ?thesis unfolding retryUpdateService_def by (intro within_bind within_retry) auto
qed

lemma loop_target:
  assumes "svc_ident s = (ns, n, uid)" "result_of (resolveNetworkInterface l s) [] = Inr ifc" "no_wait_timeout (lmClients l)"
    and "fn = retryFunc l s ty ip [] (updatePrimaryServiceObject ifc)"
  shows "soService (ob h) \<in> {s, target s} \<Longrightarrow> result_of (retry_loop (Suc k) le fn u) h = None \<Longrightarrow>
    soService (ob (h @ trace_of (retry_loop (Suc k) le fn u) h)) = target s"
proof (induction k arbitrary: le u h)
  case (0 le u h)
  obtain r where r: "result_of (fn u) h = (resp_err r, ())"
    "ob (h @ trace_of (fn u) h) = (case r of Ok _ \<Rightarrow> (ob h)\<lparr>soService := target s\<rparr> | Fail _ _ \<Rightarrow> ob h)"
    "r = envSvcUpdate (lmClients l) (h @ [SvcCacheGet ns n (Ok (soService (ob h)))]) (target s)"
    by (rule attempt [OF assms(1,2) 0(1) assms(4)]) blast
  note step = svc_retry.loop_step [OF r(1) [unfolded assms(4)] refl, folded assms(4)]
  show ?case
  proof (cases r)
    case (Fail e x)
    then have "e \<noteq> ErrWaitTimeout" using r(3) assms(3) by (auto simp: no_wait_timeout_def)
    then show ?thesis using 0(2) Fail unfolding step by (simp add: resp_err_def split: if_splits)
  next
    case (Ok x)
    then show ?thesis using r(2) unfolding step by (simp add: resp_err_def)
  qed
next
  case (Suc k le u h)
  obtain r where r: "result_of (fn u) h = (resp_err r, ())"
    "ob (h @ trace_of (fn u) h) = (case r of Ok _ \<Rightarrow> (ob h)\<lparr>soService := target s\<rparr> | Fail _ _ \<Rightarrow> ob h)"
    "r = envSvcUpdate (lmClients l) (h @ [SvcCacheGet ns n (Ok (soService (ob h)))]) (target s)"
    by (rule attempt [OF assms(1,2) Suc.prems(1) assms(4)]) blast
  note step = svc_retry.loop_step [OF r(1) [unfolded assms(4)] refl, folded assms(4)]
  show ?case
  proof (cases r)
    case (Fail e x)
    let ?h = "h @ trace_of (fn u) h @ [Sleep]"
    have "e \<noteq> ErrWaitTimeout" using Fail r(3) assms(3) by (auto simp: no_wait_timeout_def)
    then have c: "IsConflict e" "result_of (retry_loop (Suc k) (Some e) fn ()) ?h = None"
      using Suc.prems(2) Fail unfolding step by (simp_all add: resp_err_def del: retry_loop.simps split: if_splits)
    have "ob ?h = ob h" using quiet [of Sleep "h @ trace_of (fn u) h"] r(2) Fail by simp
    with Suc.IH [OF _ c(2)] Suc.prems(1) have "soService (ob (?h @ trace_of (retry_loop (Suc k) (Some e) fn ()) ?h)) = target s" by simp
    then show ?thesis using Fail c(1) unfolding step by (simp add: resp_err_def del: retry_loop.simps)
  next
    case (Ok x)
    then show ?thesis using r(2) unfolding step by (simp add: resp_err_def)
  qed
qed

abbreviation lbname :: string where
  "lbname \<equiv> loadBalancerName (scClusterName c) ns n uid"

lemma within_updateIP:
  assumes "svc_ident s = (ns, n, uid)"
  shows "within s (updatePrimaryServiceLoadBalancerIP l lbname s)"
  unfolding updatePrimaryServiceLoadBalancerIP_def
proof (rule within_bind)
  fix h
  show "within s (case result_of (resolveNetworkInterface l s) h of
      Inl err \<Rightarrow> ret (Some (Wrapf ''resolve interface for service %s/%s: %w'' (svc_key s) err))
    | Inr resolvedIface \<Rightarrow> do {
        w \<leftarrow> waitForIP (allocatedIP l lbname);
        (case w of
           Inl err \<Rightarrow> ret (Some err)
         | Inr (lb, ip) \<Rightarrow>
             if isPrimaryServiceUpdatedWithIP s lb ip resolvedIface then ret None
             else retryUpdateService l s ''primary'' ip [] (updatePrimaryServiceObject resolvedIface))
      })"
    unfolding resolved [of s h]
    by (auto intro!: within_bind within_update assms within_silent [OF holds_waitForIP] silent_pred holds_reads dest: waited_ip
        split: sum.split)
qed (auto intro!: within_silent holds_reads silent_pred)

lemma updateIP_target:
  assumes "svc_ident s = (ns, n, uid)" "no_wait_timeout (lmClients l)" "soService (ob h) = s"
    and "result_of (updatePrimaryServiceLoadBalancerIP l lbname s) h = None"
  shows "soService (ob (h @ trace_of (updatePrimaryServiceLoadBalancerIP l lbname s) h)) = target s"
proof -
  let ?R = "resolveNetworkInterface l s" and ?W = "waitForIP (allocatedIP l lbname)"
  let ?h1 = "h @ trace_of ?R h"
  let ?h2 = "?h1 @ trace_of ?W ?h1"
  obtain ifc where ifc: "result_of ?R h = Inr ifc" "result_of ?R [] = Inr ifc"
    using assms(4) resolved [of s h] by (auto simp: updatePrimaryServiceLoadBalancerIP_def split: sum.splits)
  obtain lb ip' where "result_of ?W ?h1 = Inr (lb, ip')"
    using assms(4) ifc(1) by (cases "result_of ?W ?h1") (auto simp: updatePrimaryServiceLoadBalancerIP_def)
  then have w: "result_of ?W ?h1 = Inr (lb, ip)" "ip \<noteq> []" using waited_ip by auto
  have h2: "ob ?h2 = ob h"
    unfolding silent_ob [OF holds_waitForIP [OF silent_pred holds_reads(6) [OF silent_pred]]] silent_ob [OF holds_reads(2) [OF silent_pred]] ..
  show ?thesis
  proof (cases "isPrimaryServiceUpdatedWithIP s lb ip ifc")
    case True
    then have "h @ trace_of (updatePrimaryServiceLoadBalancerIP l lbname s) h = ?h2"
      using ifc(1) w(1) by (simp add: updatePrimaryServiceLoadBalancerIP_def)
    moreover have "target s = s" using isPrimary_fixed [OF True w(2)] ifc(2) by (simp add: target_def)
    ultimately show ?thesis using h2 assms(3) by simp
  next
    case False
    let ?fn = "retryFunc l s ''primary'' ip [] (updatePrimaryServiceObject ifc)"
    have t: "h @ trace_of (updatePrimaryServiceLoadBalancerIP l lbname s) h = ?h2 @ trace_of (retry_loop (Suc 3) None ?fn ()) ?h2"
      using False ifc(1) w(1)
      by (simp add: updatePrimaryServiceLoadBalancerIP_def retryUpdateService_def RetryOnConflict_loop DefaultBackoffSteps_def
          svc_retry.appends_loop numeral_eq_Suc del: retry_loop.simps)
    have "result_of (retry_loop (Suc 3) None ?fn ()) ?h2 = None"
      using assms(4) False ifc(1) w(1)
      by (simp add: updatePrimaryServiceLoadBalancerIP_def retryUpdateService_def RetryOnConflict_loop DefaultBackoffSteps_def
          svc_retry.appends_loop numeral_eq_Suc del: retry_loop.simps split: option.splits)
    then show ?thesis unfolding t using h2 assms(3) by (intro loop_target [OF assms(1) ifc(2) assms(2) refl]) auto
  qed
qed

lemma lbname_of: "svc_ident s = (ns, n, uid) \<Longrightarrow> loadBalancerName (scClusterName c) (svcNamespace s) (svcName s) (svcUID s) = lbname"
  by (simp add: svc_ident_def)

lemmas within_reads = within_silent [OF holds_reads(1) [OF silent_pred]] within_silent [OF holds_reads(2) [OF silent_pred]]
  within_silent [OF holds_reads(3) [OF silent_pred]] within_silent [OF silent_lb(1)] within_silent [OF silent_lb(2)]

lemma within_ensure:
  assumes "svc_ident s = (ns, n, uid)" "mlookup (svcAnnotations s) KeyPrimaryService = None"
  shows "within s (EnsureLoadBalancer l (scClusterName c) s)"
proof -
  have "within s (ensurePrimaryLoadBalancer l (scClusterName c) s)"
    unfolding ensurePrimaryLoadBalancer_def Let_def lbname_of [OF assms(1)]
    by (auto intro!: within_bind within_reads within_updateIP [OF assms(1)] split: option.split)
  then show ?thesis
    using assms(2) unfolding EnsureLoadBalancer_def getPrimaryService_def
    by (auto intro!: within_bind within_reads split: sum.split)
qed

lemma ensure_target:
  assumes "svc_ident s = (ns, n, uid)" "mlookup (svcAnnotations s) KeyPrimaryService = None" "no_wait_timeout (lmClients l)"
    and "soService (ob h) = s" "result_of (EnsureLoadBalancer l (scClusterName c) s) h = (ing, None)"
  shows "ing = Some (svcIngress s)" "soService (ob (h @ trace_of (EnsureLoadBalancer l (scClusterName c) s) h)) = target s"
proof -
  let ?cl = "scClusterName c" and ?U = "updatePrimaryServiceLoadBalancerIP l lbname s"
  let ?h1 = "h @ trace_of (resolveNetworkInterface l s) h"
  let ?h2 = "?h1 @ trace_of (checkNetworkChanged l s lbname False) ?h1"
  let ?h3 = "?h2 @ trace_of (createOrUpdateLoadBalancer l lbname ?cl s) ?h2"
  have e: "ing = Some (svcIngress s)" "result_of ?U ?h3 = None"
    "h @ trace_of (EnsureLoadBalancer l ?cl s) h = ?h3 @ trace_of ?U ?h3"
    using assms(2,5) lbname_of [OF assms(1)]
    by (auto simp: EnsureLoadBalancer_def getPrimaryService_def ensurePrimaryLoadBalancer_def Let_def split: sum.splits option.splits)
  have "ob ?h3 = ob h"
    unfolding silent_ob [OF silent_lb(1)] silent_ob [OF holds_reads(3) [OF silent_pred]] silent_ob [OF holds_reads(2) [OF silent_pred]] ..
  then show "ing = Some (svcIngress s)" "soService (ob (h @ trace_of (EnsureLoadBalancer l ?cl s) h)) = target s"
    using updateIP_target [OF assms(1,3) _ e(2)] assms(4) e(1) unfolding e(3) by simp_all
qed

lemma silent_nodes: "holds (\<lambda>_ e. \<not> svc_write e) (listWithPredicates c ps)"
  by (simp add: holds_def listWithPredicates_def)

lemma addFinalizer_ob:
  assumes "ob h = so" "result_of (addFinalizer c so) h = None"
  shows "HasLBFinalizer (ob (h @ trace_of (addFinalizer c so) h))"
    "\<exists>fs. ob (h @ trace_of (addFinalizer c so) h) = so\<lparr>soFinalizers := fs\<rparr>"
proof -
  let ?new = "so\<lparr>soFinalizers := soFinalizers so @ [LoadBalancerCleanupFinalizer]\<rparr>"
  have p: "ob (h @ [FwSvcPatch so ?new (Ok r)]) = ?new" for r
    using patched [of so h ?new r] ident [of h] assms(1) by simp
  have "so\<lparr>soService := (soService so)\<lparr>svcServicePorts := svcServicePorts (soService so)\<rparr>, soType := soType so, soLBClass := soLBClass so,
     soSpec := soSpec so, soFinalizers := fs\<rparr> = so\<lparr>soFinalizers := fs\<rparr>" for fs by simp
  then show "HasLBFinalizer (ob (h @ trace_of (addFinalizer c so) h))"
    "\<exists>fs. ob (h @ trace_of (addFinalizer c so) h) = so\<lparr>soFinalizers := fs\<rparr>"
    using assms p by (auto simp: addFinalizer_def resp_err_def HasLBFinalizer_def split: resp.splits intro: exI [of _ "soFinalizers so"])
qed

lemma finishSync_same [simp]: "trace_of (finishSync c so (svcIngress (soService so))) h = []"
  by (simp add: finishSync_def patchStatus_def)

lemma wants_not_cleanup: "wantsLoadBalancer so \<Longrightarrow> \<not> soDeleted so \<Longrightarrow> \<not> needsCleanup so"
  by (simp add: wantsLoadBalancer_def needsCleanup_def)

lemma within_ensure_ob:
  assumes "soService (ob h) = s" "svc_ident s = (ns, n, uid)" "mlookup (svcAnnotations s) KeyPrimaryService = None"
  shows "\<exists>s'\<in>{s, target s}. ob (h @ trace_of (EnsureLoadBalancer l (scClusterName c) s) h) = (ob h)\<lparr>soService := s'\<rparr>"
  using within_ensure [OF assms(2,3)] assms(1) unfolding within_def by blast

lemma sync_settles:
  assumes "own_errors (lmClients l)" "\<forall>h x. fwNodeList (scEnv c) h \<noteq> Fail ImplementedElsewhere x" "no_wait_timeout (lmClients l)"
    and "ob h = so" "mlookup (svcAnnotations (soService so)) KeyPrimaryService = None" "wantsLoadBalancer so" "\<not> soDeleted so"
    and "snd (fst (result_of (syncLoadBalancerIfNeeded c so st) h)) = None"
  defines "h' \<equiv> h @ trace_of (syncLoadBalancerIfNeeded c so st) h"
  shows "HasLBFinalizer (ob h')" "soService (ob h') = target (soService so)" "wantsLoadBalancer (ob h')" "\<not> soDeleted (ob h')"
proof -
  let ?s = "soService so" and ?E = "EnsureLoadBalancer l (scClusterName c) (soService so)"
  let ?h1 = "h @ trace_of (addFinalizer c so) h"
  let ?h2 = "?h1 @ trace_of (listWithPredicates c stableNodeSetPredicates) ?h1"
  have id: "svc_ident ?s = (ns, n, uid)" using ident [of h] assms(4) by simp
  obtain ing where st: "result_of (addFinalizer c so) h = None" "result_of ?E ?h2 = (Some ing, None)"
    "h' = (?h2 @ trace_of ?E ?h2) @ trace_of (finishSync c so ing) (?h2 @ trace_of ?E ?h2)"
    by (rule ensure_stages [OF assms(1,2,5,6) wants_not_cleanup [OF assms(6,7)] assms(8), folded h'_def])
  obtain fs where h1: "ob ?h1 = so\<lparr>soFinalizers := fs\<rparr>" "HasLBFinalizer (ob ?h1)"
    using addFinalizer_ob [OF assms(4) st(1)] by blast
  have h2: "ob ?h2 = ob ?h1" by (rule silent_ob [OF silent_nodes])
  then have s2: "soService (ob ?h2) = ?s" using h1 by simp
  have "ing = svcIngress ?s" and tgt: "soService (ob (?h2 @ trace_of ?E ?h2)) = target ?s"
    using ensure_target [OF id assms(5,3) s2 st(2)] by simp_all
  then have h': "h' = ?h2 @ trace_of ?E ?h2" using st(3) by simp
  obtain s' where "ob h' = (ob ?h1)\<lparr>soService := s'\<rparr>"
    using within_ensure_ob [OF s2 id assms(5)] unfolding h' h2 by blast
  then show "HasLBFinalizer (ob h')" "wantsLoadBalancer (ob h')" "\<not> soDeleted (ob h')"
    using h1 assms(6,7) by (auto simp: HasLBFinalizer_def wantsLoadBalancer_def)
  show "soService (ob h') = target ?s" using tgt unfolding h' .
qed

lemma sync_keeps:
  assumes "no_wait_timeout (lmClients l)" "ob h = so" "mlookup (svcAnnotations (soService so)) KeyPrimaryService = None"
    and "wantsLoadBalancer so" "\<not> soDeleted so" "HasLBFinalizer so" "target (soService so) = soService so"
  shows "ob (h @ trace_of (syncLoadBalancerIfNeeded c so st) h) = so"
proof -
  let ?s = "soService so" and ?N = "listWithPredicates c stableNodeSetPredicates"
  let ?E = "EnsureLoadBalancer l (scClusterName c) ?s"
  let ?h1 = "h @ trace_of ?N h"
  have id: "svc_ident ?s = (ns, n, uid)" using ident [of h] assms(2) by simp
  have h1: "ob ?h1 = so" using silent_ob [OF silent_nodes] assms(2) by simp
  then have s1: "soService (ob ?h1) = ?s" by simp
  have h2: "ob (?h1 @ trace_of ?E ?h1) = so"
    using within_ensure_ob [OF s1 id assms(3)] assms(7) h1 by simp
  have ing: "ing = svcIngress ?s" if "result_of ?E ?h1 = (Some ing, None)" for ing
    using ensure_target(1) [OF id assms(3,1) s1 that] by simp
  have "\<not> (\<not> wantsLoadBalancer so \<or> needsCleanup so)" using wants_not_cleanup assms(4,5) by simp
  note branch = syncLoadBalancerIfNeeded_def [of c so st, unfolded if_not_P [OF this]]
  have "h @ trace_of (syncLoadBalancerIfNeeded c so st) h \<in> {?h1, ?h1 @ trace_of ?E ?h1}"
  proof (cases "result_of ?N h")
    case (Inr nodes)
    obtain r err where e: "result_of ?E ?h1 = (r, err)" by fastforce
    consider err' where "err = Some err'" | "err = None" "r = None" | i where "err = None" "r = Some i" by fastforce
    then show ?thesis
    proof cases
      case 3
      then have "i = svcIngress ?s" using ing e by simp
      with 3 e Inr branch show ?thesis by (simp add: addFinalizer_def ensureLoadBalancer_sc_def Let_def assms(6))
    qed (use e Inr branch in \<open>simp_all add: addFinalizer_def ensureLoadBalancer_sc_def Let_def assms(6)\<close>)
  qed (use branch in \<open>simp add: addFinalizer_def ensureLoadBalancer_sc_def assms(6)\<close>)
  then show ?thesis using h1 h2 by auto
qed

end

section \<open>An object that is stored\<close>

text \<open>
  The laws hold of a cluster that keeps the object as it was last written and hands it out at once, with
  load balancers as in \<open>host\<close>, in an otherwise arbitrary environment.
\<close>

fun obj_event :: "svc_object \<Rightarrow> event \<Rightarrow> svc_object" where
  "obj_event so (SvcUpdate s (Ok r)) = (if svc_ident s = svc_ident (soService so) then so\<lparr>soService := s\<rparr> else so)"
| "obj_event so (FwSvcPatch old new (Ok r)) =
     (if svc_ident (soService old) = svc_ident (soService so) \<and> soFinalizers so = soFinalizers old \<and> new = old\<lparr>soFinalizers := soFinalizers new\<rparr>
      then so\<lparr>soFinalizers := soFinalizers new\<rparr> else so)"
| "obj_event so _ = so"

definition obj_of :: "svc_object \<Rightarrow> history \<Rightarrow> svc_object" where
  "obj_of so h = foldl obj_event so h"

definition object_manager :: "(string \<times> string \<Rightarrow> string) \<Rightarrow> env \<Rightarrow> svc_object \<Rightarrow> lb_manager" where
  "object_manager pool E0 so = \<lparr>lmClients = host pool [] (E0\<lparr>envSvcCacheGet := (\<lambda>h ns n.
       if ns = svcNamespace (soService so) \<and> n = svcName (soService so) then Ok (soService (obj_of so h)) else envSvcCacheGet E0 h ns n),
     envCmCacheGet := (\<lambda>h. envCmCacheGet E0 [])\<rparr>), lmNamespace = ''default'', lmConfig = zero_config\<rparr>"

definition object_controller :: "(string \<times> string \<Rightarrow> string) \<Rightarrow> env \<Rightarrow> fw_env \<Rightarrow> svc_object \<Rightarrow> string \<Rightarrow> service_controller" where
  "object_controller pool E0 F0 so cl = \<lparr>scBalancer = object_manager pool E0 so, scClusterName = cl,
     scEnv = F0\<lparr>fwSvcGet := (\<lambda>h ns n.
       if ns = svcNamespace (soService so) \<and> n = svcName (soService so) then Ok (obj_of so h) else fwSvcGet F0 h ns n)\<rparr>\<rparr>"

lemma obj_event_ident [simp]: "svc_ident (soService (obj_event so e)) = svc_ident (soService so)"
  by (cases "(so, e)" rule: obj_event.cases) auto

lemma obj_of_snoc: "obj_of so (h @ [e]) = obj_event (obj_of so h) e"
  by (simp add: obj_of_def)

lemma obj_of_ident: "svc_ident (soService (obj_of so h)) = svc_ident (soService so)"
  by (induction h rule: rev_induct) (simp_all add: obj_of_snoc, simp add: obj_of_def)

interpretation objects: steady_cluster "object_controller pool E0 F0 so cl" "obj_of so"
  "svcNamespace (soService so)" "svcName (soService so)" "svcUID (soService so)"
  "pool (''default'', loadBalancerName cl (svcNamespace (soService so)) (svcName (soService so)) (svcUID (soService so)))"
  for pool E0 F0 so cl
proof
  fix h e s r r' old new lb x y
  show "svc_ident (soService (obj_of so h)) = (svcNamespace (soService so), svcName (soService so), svcUID (soService so))"
    using obj_of_ident [of so h] by (simp add: svc_ident_def)
  note id = this
  show "svc_ident s = (svcNamespace (soService so), svcName (soService so), svcUID (soService so)) \<Longrightarrow>
      obj_of so (h @ [SvcUpdate s (Ok r)]) = (obj_of so h)\<lparr>soService := s\<rparr>"
    "svc_ident (soService old) = (svcNamespace (soService so), svcName (soService so), svcUID (soService so)) \<Longrightarrow>
      soFinalizers (obj_of so h) = soFinalizers old \<Longrightarrow> new = old\<lparr>soFinalizers := soFinalizers new\<rparr> \<Longrightarrow>
      obj_of so (h @ [FwSvcPatch old new (Ok r')]) = (obj_of so h)\<lparr>soFinalizers := soFinalizers new\<rparr>"
    using id by (simp_all add: obj_of_snoc)
  show "\<not> svc_acked e \<Longrightarrow> obj_of so (h @ [e]) = obj_of so h"
    unfolding obj_of_snoc by (cases "(obj_of so h, e)" rule: obj_event.cases) auto
qed (auto simp: object_controller_def object_manager_def host_def hosted_def split: option.splits)

section \<open>The loop settles\<close>

lemma updatePrimary_primary [simp]:
  "mlookup (svcAnnotations (updatePrimaryServiceObject ifc s ip lab)) KeyPrimaryService = mlookup (svcAnnotations s) KeyPrimaryService"
  by (simp add: updatePrimaryServiceObject_def key_defs Let_def)

text \<open>C20: The loop between the service controller and its own writes comes to rest.  In a cluster in which nobody else
  changes the service, its address and the mapping of networks, after one synchronization of a primary
  service that reports no error every later one leaves the service object as it is, whether it succeeds or
  not; so no event puts its key back into the queue.\<close>

theorem own_writes_settle:
  assumes "steady_cluster c ob ns n uid ip" "own_errors (lmClients (scBalancer c))"
    and "\<forall>h x. fwNodeList (scEnv c) h \<noteq> Fail ImplementedElsewhere x" "no_wait_timeout (lmClients (scBalancer c))"
    and "SplitMetaNamespaceKey key = Inr (ns, n)" "same_object st key (ob h)" "wantsLoadBalancer (ob h)" "\<not> soDeleted (ob h)"
    and "mlookup (svcAnnotations (soService (ob h))) KeyPrimaryService = None"
    and "fst (result_of (syncService c key st) h) = None" "h1 = h @ trace_of (syncService c key st) h"
    and "ob h2 = ob h1" "same_object st2 key (ob h2)"
  shows "ob (h2 @ trace_of (syncService c key st2) h2) = ob h1 \<and>
    serviceUpdated (ob h1) (ob (h2 @ trace_of (syncService c key st2) h2)) q = q"
proof -
  let ?g = "\<lambda>h. h @ [FwSvcGet ns n (Ok (ob h))]"
  note found = syncService_found [OF assms(5) steady_cluster.lister [OF assms(1)]]
  have g: "ob (?g h) = ob h" for h by (rule steady_cluster.quiet [OF assms(1)]) simp
  define st1 where "st1 = st\<lparr>scCache := (scCache st)(key \<mapsto> ob h)\<rparr>"
  have "snd (fst (result_of (syncLoadBalancerIfNeeded c (ob h) st1) (?g h))) = None"
    using assms(10) found(2) [OF assms(6)] by (simp add: st1_def split: prod.splits)
  note settled = steady_cluster.sync_settles [OF assms(1-4) g assms(9,7,8) this]
  have h1: "h1 = ?g h @ trace_of (syncLoadBalancerIfNeeded c (ob h) st1) (?g h)"
    using found(1) [OF assms(6)] assms(11) by (simp add: st1_def)
  have "steady_cluster.target c ip (soService (ob h1)) = soService (ob h1)"
    unfolding h1 settled(2) by (rule steady_cluster.target_simps(1) [OF assms(1)])
  moreover have "mlookup (svcAnnotations (soService (ob h1))) KeyPrimaryService = None"
    unfolding h1 settled(2) using assms(9) by (simp add: steady_cluster.target_def [OF assms(1)] split: sum.split)
  moreover have "h2 @ trace_of (syncService c key st2) h2 =
      ?g h2 @ trace_of (syncLoadBalancerIfNeeded c (ob h2) (st2\<lparr>scCache := (scCache st2)(key \<mapsto> ob h2)\<rparr>)) (?g h2)"
    using found(1) [OF assms(13)] by simp
  ultimately have "ob (h2 @ trace_of (syncService c key st2) h2) = ob h1"
    using steady_cluster.sync_keeps [OF assms(1,4), of "?g h2" "ob h1"] g [of h2] settled(1,3,4) [folded h1] assms(12) by simp
  moreover have "\<not> needsCleanup (ob h1)"
    using steady_cluster.wants_not_cleanup [OF assms(1)] settled(3,4) [folded h1] by blast
  ultimately show ?thesis by (simp add: serviceUpdated_def)
qed

section \<open>A load balancer that stays lost\<close>

lemma update_forgotten:
  fixes c so h
  defines "l \<equiv> scBalancer c" and "k \<equiv> lb_key (scBalancer c) (scClusterName c) (soService so)"
  assumes "mlookup (svcAnnotations (soService so)) KeyPrimaryService = None" "mget (svcAnnotations (soService so)) KeyNetwork = []"
    and "svcLabels (soService so) = None" "harvester_obeys (lmClients l) h k" "updates_refused (lmClients l)"
    and "\<forall>t. envSvcCacheList (lmClients l) (h @ t) NamespaceAll (KeyPrimaryService, primaryServiceLabelValue (soService so)) = Ok []"
  shows "result_of (lockedUpdateLoadBalancerHosts c so) h = None"
    "LbDelete (fst k) (snd k) None \<in> set (trace_of (lockedUpdateLoadBalancerHosts c so) h)"
proof -
  let ?cl = "scClusterName c" and ?svc = "soService so"
  let ?U = "UpdateLoadBalancer l ?cl ?svc"
  note rb = update_rolled_back [OF assms(3-5) assms(6) [unfolded k_def, folded l_def] assms(7,8)]
  obtain err where u: "result_of ?U h = Some err" "err \<noteq> ImplementedElsewhere"
    using rb(1) by (auto simp: UpdateLoadBalancer_def ImplementedElsewhere_def)
  have del: "LbDelete (fst k) (snd k) None \<in> set (trace_of ?U h)"
    using rb(2) by (simp add: update_trace k_def lb_key_def l_def)
  then have "lb_gone (lmClients l) (h @ trace_of ?U h) k" using assms(6) by (auto simp: harvester_obeys_def)
  then have "result_of (GetLoadBalancer l ?cl ?svc) (h @ trace_of ?U h) = (None, False, None)"
    by (auto simp: lb_gone_def primary_reads [OF assms(3)] k_def lb_key_def l_def)
  then show "result_of (lockedUpdateLoadBalancerHosts c so) h = None"
    "LbDelete (fst k) (snd k) None \<in> set (trace_of (lockedUpdateLoadBalancerHosts c so) h)"
    using u del by (simp_all add: lockedUpdateLoadBalancerHosts_def l_def)
qed

text \<open>C22: When the nodes of the cluster change while updates of services are refused, the manager deletes the running load
  balancer of a primary service without labels: \<open>isPrimaryServiceUpdatedWithIP\<close> never holds of such a service, so the
  address is written again, in vain, and the load balancer is rolled back.  If Harvester has finished the
  deletion when the controller then asks for the load balancer, nothing brings it back: the worker for the nodes does not
  put the service into the queue, since \<open>GetLoadBalancer\<close> tells it that there is no load balancer to
  update, and the periodic events of the informer for the unchanged service are not taken up.\<close>

theorem lost_lb_stays_lost:
  assumes "mlookup (svcAnnotations (soService so)) KeyPrimaryService = None" "mget (svcAnnotations (soService so)) KeyNetwork = []"
    and "svcLabels (soService so) = None" "wantsLoadBalancer so" "\<not> needsCleanup so"
    and "wq_Get nodeQ = (Some key, nodeQ')" "fwNodeList (scEnv c) h = Ok nodes"
    and "\<not> nodesSufficientlyEqual (filterWithPredicates stableNodeSetPredicates (scLastSyncedNodes st (MetaNamespaceKeyFunc (soService so))))
       (filterWithPredicates stableNodeSetPredicates nodes)"
    and "k = lb_key (scBalancer c) (scClusterName c) (soService so)" "harvester_obeys (lmClients (scBalancer c)) h k"
    and "updates_refused (lmClients (scBalancer c))"
    and "\<forall>t. envSvcCacheList (lmClients (scBalancer c)) (h @ t) NamespaceAll (KeyPrimaryService, primaryServiceLabelValue (soService so)) = Ok []"
  shows "LbDelete (fst k) (snd k) None \<in> set (trace_of (processNextNodeItem c [so] nodeQ serviceQ st) h) \<and>
    fst (snd (result_of (processNextNodeItem c [so] nodeQ serviceQ st) h)) = serviceQ \<and> serviceUpdated so so serviceQ = serviceQ"
proof -
  let ?h = "h @ [FwNodeList (Ok nodes)]"
  have all: "filterWithPredicates [] nodes = nodes" by (simp add: filterWithPredicates_def)
  have obeys: "harvester_obeys (lmClients (scBalancer c)) ?h k"
    and list: "\<forall>t. envSvcCacheList (lmClients (scBalancer c)) (?h @ t) NamespaceAll (KeyPrimaryService, primaryServiceLabelValue (soService so)) = Ok []"
    using obeys_later [OF assms(10)] assms(12) by simp_all
  note lost = update_forgotten [OF assms(1-3) obeys [unfolded assms(9)] assms(11) list, folded assms(9)]
  have "fst (result_of (nodeSyncService c (Some so) st) h) = False"
    "LbDelete (fst k) (snd k) None \<in> set (trace_of (nodeSyncService c (Some so) st) h)"
    using assms(4,7,8) lost by (simp_all add: nodeSyncService_def listWithPredicates_def all Let_def)
  then show ?thesis
    using assms(5,6) by (simp add: processNextNodeItem_def serviceUpdated_def)
qed

section \<open>Witnesses\<close>

text \<open>The labels of the demo service change.\<close>

definition relabelled_so :: svc_object where
  "relabelled_so = demo_so\<lparr>soService := demo_svc\<lparr>svcLabels := None\<rparr>\<rparr>"

theorem unnoticed_change_harmless_witness:
  "lb_key host_manager ''c1'' (soService relabelled_so) = lb_key host_manager ''c1'' demo_svc \<and>
    ensured host_manager ''c1'' (soService relabelled_so) None = ensured host_manager ''c1'' demo_svc None \<and>
    getPrimaryService host_manager (soService relabelled_so) = getPrimaryService host_manager demo_svc \<and>
    resolveNetworkInterface host_manager (soService relabelled_so) = resolveNetworkInterface host_manager demo_svc \<and>
    checkPortOverlap host_manager demo_primary (soService relabelled_so) = checkPortOverlap host_manager demo_primary demo_svc"
proof -
  have w: "wantsLoadBalancer relabelled_so" "\<not> needsCleanup relabelled_so"
    by (simp_all add: relabelled_so_def demo_so_def wantsLoadBalancer_def needsCleanup_def HasLBFinalizer_def ServiceTypeLoadBalancer_def)
  moreover have "\<not> needsUpdate demo_so relabelled_so"
    using w(1) by (simp add: needsUpdate_def portSlicesEqualForLB_iff externalIPsDiffer_iff Let_def) (simp add: relabelled_so_def)
  ultimately have "serviceUpdated demo_so relabelled_so wq_new \<noteq> enqueueService relabelled_so wq_new"
    by (simp add: serviceUpdated_def enqueueService_def wq_new_def wq_Add_def)
  from unnoticed_change_harmless [OF this w(1)] show ?thesis by (simp add: relabelled_so_def)
qed

definition stored_controller :: service_controller where
  "stored_controller = object_controller (\<lambda>k. ''10.0.0.5'') (demo_env []) (quiet_fw (Ok demo_so) []) demo_so ''c1''"

lemma stored_simps [simp]:
  "scClusterName stored_controller = ''c1''" "fwNodeList (scEnv stored_controller) h = Ok []"
  "fwSvcPatch (scEnv stored_controller) h old new = Ok new"
  "obj_of demo_so [] = demo_so"
  by (simp_all add: stored_controller_def object_controller_def quiet_fw_def obj_of_def)

lemma stored_hosting: "hosting (scBalancer stored_controller)"
proof -
  have "svcUID (soService (obj_of demo_so h)) = svcUID demo_svc" for h
    using obj_of_ident [of demo_so h] by (simp add: svc_ident_def)
  then show ?thesis
    by (simp add: hosting_def stored_controller_def object_controller_def object_manager_def host_def cluster_responds_def demo_env_def empty_env_def)
qed

lemma stored_steady:
  "steady_cluster stored_controller (obj_of demo_so) ''default'' ''web'' (svcUID demo_svc) ''10.0.0.5''"
proof -
  have "svcNamespace demo_svc = ''default''" "svcName demo_svc = ''web''" by (simp_all add: demo_svc_def)
  then show ?thesis
    using objects.steady_cluster_axioms [of "\<lambda>k. ''10.0.0.5''" "demo_env []" "quiet_fw (Ok demo_so) []" demo_so "''c1''"]
    by (simp add: stored_controller_def)
qed

lemma stored_clients:
  "own_errors (lmClients (scBalancer stored_controller))" "no_wait_timeout (lmClients (scBalancer stored_controller))"
  by (auto simp: own_errors_def no_wait_timeout_def stored_controller_def object_controller_def object_manager_def host_def
      demo_env_def empty_env_def not_found_def ImplementedElsewhere_def split: option.splits)

lemma stored_sync_ok: "fst (result_of (syncService stored_controller ''default/web'' fresh_sc) []) = None"
proof -
  have "result_of (EnsureLoadBalancer (scBalancer stored_controller) ''c1'' demo_svc) [FwSvcGet a b r, FwSvcPatch x y z, FwNodeList w] = (Some [], None)"
    for a b r x y z w
    by (rule host_run [OF stored_hosting]) (simp add: hosted_def)
  then show ?thesis
    using steady_cluster.lister [OF stored_steady, of "[]"]
    by (simp add: syncService_found(2) [OF demo_key] syncLoadBalancerIfNeeded_def addFinalizer_def ensureLoadBalancer_sc_def
        listWithPredicates_def finishSync_def patchStatus_def resp_err_def Let_def)
qed

theorem own_writes_settle_witness:
  "let h1 = [] @ trace_of (syncService stored_controller ''default/web'' fresh_sc) [];
       h2 = h1 @ trace_of (syncService stored_controller ''default/web'' fresh_sc) h1 in
   obj_of demo_so h2 = obj_of demo_so h1 \<and> serviceUpdated (obj_of demo_so h1) (obj_of demo_so h2) wq_new = wq_new"
  unfolding Let_def
  by (rule own_writes_settle [OF stored_steady stored_clients(1) _ stored_clients(2) demo_key _ _ _ _ stored_sync_ok refl refl])
    (simp_all add: demo_not_secondary, simp add: demo_so_def)

text \<open>The last node has left the cluster while the service cache of the guest cluster is behind.\<close>

definition left_node :: node_object where
  "left_node = \<lparr>noNode = \<lparr>nodeName = ''node1'', nodeAnnotations = None, nodeLabels = None, nodeTaints = []\<rparr>, noProviderID = ''harvester://vm1'',
     noDeleted = False, noReady = Some ''True'', noAddresses = []\<rparr>"

definition node_queue :: "string wqueue" where
  "node_queue = nodeDeleted left_node wq_new"

definition left_state :: sc_state where
  "left_state = fresh_sc\<lparr>scLastSyncedNodes := (\<lambda>_. [left_node])\<rparr>"

text \<open>The service has its address, and the API server of the guest cluster refuses updates.\<close>

definition served_so :: svc_object where
  "served_so = demo_so\<lparr>soService := demo_svc\<lparr>svcLabels := None, svcAnnotations := Some (fmap_of_list [(KeyKubevipLoadBalancerIP, ''10.0.0.5'')]),
     svcIngress := [\<lparr>ingIP = ''10.0.0.5''\<rparr>]\<rparr>, soFinalizers := [LoadBalancerCleanupFinalizer]\<rparr>"

definition served_key :: "string \<times> string" where
  "served_key = (''default'', lb_name_of ''c1'' (soService served_so))"

definition served_lb :: loadbalancer where
  "served_lb = \<lparr>lbAPIVersion = [], lbNamespace = ''default'', lbName = snd served_key, lbAnnotations = None, lbLabels = None, lbIPAM = ''pool'',
     lbWorkloadType = ''cluster'', lbAddress = ''10.0.0.5'', lbAllocatedIP = ''10.0.0.5'', lbConditions = []\<rparr>"

definition refusing_env :: env where
  "refusing_env = empty_env\<lparr>
     envLbGet := (\<lambda>h ns n. if LbDelete ns n None \<in> set h then Fail not_found None else Ok served_lb),
     envSvcCacheGet := (\<lambda>h ns n. Ok (soService served_so)), envSvcUpdate := (\<lambda>h s. Fail (OtherError ''etcdserver: no space'') None)\<rparr>"

definition refusing_controller :: service_controller where
  "refusing_controller = \<lparr>scBalancer = \<lparr>lmClients = refusing_env, lmNamespace = ''default'', lmConfig = zero_config\<rparr>,
     scClusterName = ''c1'', scEnv = quiet_fw (Ok served_so) []\<rparr>"

theorem lost_lb_stays_lost_witness:
  "let run = processNextNodeItem refusing_controller [served_so] node_queue wq_new left_state in
    LbDelete (fst served_key) (snd served_key) None \<in> set (trace_of run []) \<and>
    fst (snd (result_of run [])) = wq_new \<and> serviceUpdated served_so served_so wq_new = wq_new"
  unfolding Let_def
proof (rule lost_lb_stays_lost)
  show "wq_Get node_queue = (Some ''node1'', snd (wq_Get node_queue))"
    by (simp add: node_queue_def nodeDeleted_def enqueueNode_def left_node_def wq_Get_def wq_Add_def wq_new_def)
  show "\<not> nodesSufficientlyEqual (filterWithPredicates stableNodeSetPredicates (scLastSyncedNodes left_state (MetaNamespaceKeyFunc (soService served_so))))
       (filterWithPredicates stableNodeSetPredicates [])"
    by (simp add: nodesSufficientlyEqual_def filterWithPredicates_def stableNodeSetPredicates_def left_state_def left_node_def
        nodeNotDeletedPredicate_def nodeIncludedPredicate_def nodeUnTaintedPredicate_def mlookup_def)
  show "harvester_obeys (lmClients (scBalancer refusing_controller)) [] served_key"
    by (simp add: harvester_obeys_def lb_gone_def lb_running_def refusing_controller_def refusing_env_def empty_env_def served_lb_def served_key_def)
  show "updates_refused (lmClients (scBalancer refusing_controller))"
    by (simp add: updates_refused_def no_wait_timeout_def refusing_controller_def refusing_env_def)
qed (simp_all add: served_so_def demo_so_def demo_svc_def mget_mlookup mlookup_def key_defs wantsLoadBalancer_def needsCleanup_def HasLBFinalizer_def
    ServiceTypeLoadBalancer_def refusing_controller_def refusing_env_def empty_env_def quiet_fw_def lb_key_def served_key_def)

end
