(* ===== verification/NADStore.thy ===== *)
theory NADStore
  imports LoadBalancer_Props VMIController Bootstrap
begin

text \<open>
  The mapping of networks to interfaces on its way from the virtual machines through the ConfigMap to the
  load balancer manager.  A store gives the answers of the guest cluster's API for ConfigMaps (the
  locale \<open>cm_store\<close>); a synchronization by the VMI controller is then one function on it, and the
  interface a service is bound to afterwards is determined by the machines.
\<close>

section \<open>Writing and reading the mapping\<close>

lemma nadMappingValue_stored: "nadMappingValue vmis = json.stored (GetCommonVMINADs (map Some vmis))"
  by (simp add: nadMappingValue_def json.stored_def)

definition utf8_common :: "vmi list \<Rightarrow> bool" where
  "utf8_common vmis \<longleftrightarrow> (\<forall>m. GetCommonVMINADs (map Some vmis) = Some m \<longrightarrow> utf8_map m)"

lemma decode_nadMappingValue:
  assumes "mget (cmData cm) ConfigMapKeyNADMapping = nadMappingValue vmis" "utf8_common vmis"
  shows "decodeNADMapping cm = Inr (made (GetCommonVMINADs (map Some vmis)))"
  using assms json.loaded_stored [of "GetCommonVMINADs (map Some vmis)"]
  unfolding decodeNADMapping_loaded nadMappingValue_stored utf8_common_def by simp

section \<open>Retried operations on a state\<close>

context retried
begin

text \<open>
  When every attempt keeps a property of the history and has only events of some kind while it
  holds, so does the loop.
\<close>

lemma loop_keeps:
  assumes "\<And>s h. I h \<Longrightarrow> I (h @ trace_of (fn s) h) \<and> list_all P (trace_of (fn s) h)"
    and "\<And>h. I h \<Longrightarrow> I (h @ [Sleep])" "P Sleep" "I h"
  shows "list_all P (trace_of (retry_loop n le fn s) h)"
  using assms(4)
proof (induction n arbitrary: le s h)
  case (Suc n)
  obtain r s' where r: "result_of (fn s) h = (r, s')" by fastforce
  have "I (h @ trace_of (fn s) h)" "list_all P (trace_of (fn s) h)" using assms(1) Suc.prems by auto
  moreover from this have "I (h @ trace_of (fn s) h @ [Sleep])" using assms(2) [of "h @ trace_of (fn s) h"] by simp
  ultimately show ?case
    using assms(3) Suc.IH by (simp add: loop_step [OF r refl] del: retry_loop.simps split: option.split)
qed simp

text \<open>
  When an attempt that succeeds acts on the state as \<open>g\<close> and one that fails leaves it alone, the loop acts
  as \<open>g\<close> exactly when it succeeds, however many attempts it takes.
\<close>

lemma loop_refines:
  assumes "\<And>s h. F (h @ trace_of (fn s) h) = (if fst (result_of (fn s) h) = None then g (F h) else F h)"
    and "\<And>h. F (h @ [Sleep]) = F h" "\<And>s h. fst (result_of (fn s) h) \<noteq> Some ErrWaitTimeout"
    and "le \<noteq> None \<or> 0 < n"
  shows "F (h @ trace_of (retry_loop n le fn s) h) =
    (if result_of (retry_loop n le fn s) h = None then g (F h) else F h)"
  using assms(4)
proof (induction n arbitrary: le s h)
  case (Suc n)
  obtain r s' where r: "result_of (fn s) h = (r, s')" by fastforce
  let ?t = "trace_of (fn s) h"
  have t: "F (h @ ?t) = (if r = None then g (F h) else F h)" using assms(1) [where s = s and h = h] r by simp
  then have "F (h @ ?t @ [Sleep]) = (if r = None then g (F h) else F h)" using assms(2) [of "h @ ?t"] by simp
  moreover have "F ((h @ ?t @ [Sleep]) @ trace_of (retry_loop n (Some e) fn s') (h @ ?t @ [Sleep])) =
      (if result_of (retry_loop n (Some e) fn s') (h @ ?t @ [Sleep]) = None then g (F (h @ ?t @ [Sleep])) else F (h @ ?t @ [Sleep]))" for e
    by (rule Suc.IH) simp
  moreover have "r \<noteq> Some ErrWaitTimeout" using assms(3) [of s h] r by simp
  ultimately show ?case
    using t by (auto simp: loop_step [OF r refl] simp del: retry_loop.simps split: option.split)
qed auto

end

section \<open>The store of ConfigMaps\<close>

type_synonym cm_map = "string \<times> string \<Rightarrow> configmap option"

definition nad_key :: "string \<times> string" where
  "nad_key = (NamespaceSystem, ConfigMapNADMapping)"

text \<open>What a synchronization establishes: a new ConfigMap with one entry, or the present one with that entry.\<close>

definition mapping_stored :: "string \<Rightarrow> cm_map \<Rightarrow> cm_map" where
  "mapping_stored v S = S(nad_key \<mapsto> (case S nad_key of
     None \<Rightarrow> \<lparr>cmNamespace = NamespaceSystem, cmName = ConfigMapNADMapping, cmData = Some (fmupd ConfigMapKeyNADMapping v fmempty)\<rparr>
   | Some cm \<Rightarrow> if mget (cmData cm) ConfigMapKeyNADMapping = v then cm
       else cm\<lparr>cmData := mset_key ConfigMapKeyNADMapping v (made (cmData cm))\<rparr>))"

fun cm_acked :: "event \<Rightarrow> bool" where
  "cm_acked (CmCreate cm (Ok r)) = True"
| "cm_acked (CmUpdate cm (Ok r)) = True"
| "cm_acked _ = False"

lemma mapping_stored_value:
  "\<exists>cm. mapping_stored v S nad_key = Some cm \<and> mget (cmData cm) ConfigMapKeyNADMapping = v"
  by (auto simp: mapping_stored_def mget_def [of "Some _"] split: option.split)

lemma mapping_stored_same:
  "S nad_key = Some cm \<Longrightarrow> mget (cmData cm) ConfigMapKeyNADMapping = v \<Longrightarrow> mapping_stored v S = S"
  by (auto simp: mapping_stored_def)

lemma mapping_stored_fix:
  assumes "mapping_stored v S = S"
  shows "\<exists>cm. S nad_key = Some cm \<and> mget (cmData cm) ConfigMapKeyNADMapping = v"
  using mapping_stored_value [of v S] assms by simp

lemma mapping_stored_idem: "mapping_stored v (mapping_stored v S) = mapping_stored v S"
  using mapping_stored_value [of v S] mapping_stored_same by blast

locale cm_store =
  fixes E :: env and cms :: "history \<Rightarrow> cm_map"
  assumes cm_found: "envCmGet E h ns n = Ok cm \<Longrightarrow> cms h (ns, n) = Some cm \<and> cmNamespace cm = ns \<and> cmName cm = n"
    and cm_missing: "envCmGet E h ns n = Fail err x \<Longrightarrow> IsNotFound err \<Longrightarrow> cms h (ns, n) = None"
    and cm_created: "cms (h @ [CmCreate cm (Ok r)]) = (cms h)((cmNamespace cm, cmName cm) \<mapsto> cm)"
    and cm_updated: "cms (h @ [CmUpdate cm (Ok r)]) = (cms h)((cmNamespace cm, cmName cm) \<mapsto> cm)"
    and cm_quiet: "\<not> cm_acked e \<Longrightarrow> cms (h @ [e]) = cms h"
begin

lemma cm_write: "cms (h @ [CmCreate cm r]) = (case r of Ok _ \<Rightarrow> (cms h)((cmNamespace cm, cmName cm) \<mapsto> cm) | Fail _ _ \<Rightarrow> cms h)"
  "cms (h @ [CmUpdate cm r]) = (case r of Ok _ \<Rightarrow> (cms h)((cmNamespace cm, cmName cm) \<mapsto> cm) | Fail _ _ \<Rightarrow> cms h)"
  by (cases r; simp add: cm_created cm_updated cm_quiet)+

text \<open>One attempt stores the value or leaves the ConfigMaps alone, and writes nothing when the value is there.\<close>

lemma attempt_stores:
  "cms (h @ trace_of (storeAttempt E v u) h) =
     (if fst (result_of (storeAttempt E v u) h) = None then mapping_stored v (cms h) else cms h)"
  "mapping_stored v (cms h) = cms h \<Longrightarrow> read_only (trace_of (storeAttempt E v u) h)"
proof -
  let ?g = "CmGet NamespaceSystem ConfigMapNADMapping (envCmGet E h NamespaceSystem ConfigMapNADMapping)"
  have g: "cms (h @ [?g]) = cms h" by (rule cm_quiet) simp
  have evs: "cms (h @ [?g, CmCreate cm r]) = (case r of Ok _ \<Rightarrow> (cms h)((cmNamespace cm, cmName cm) \<mapsto> cm) | Fail _ _ \<Rightarrow> cms h)"
    "cms (h @ [?g, CmUpdate cm r]) = (case r of Ok _ \<Rightarrow> (cms h)((cmNamespace cm, cmName cm) \<mapsto> cm) | Fail _ _ \<Rightarrow> cms h)" for cm r
    using cm_write [of "h @ [?g]"] g by (simp_all split: resp.split)
  have "cms (h @ trace_of (storeAttempt E v u) h) =
      (if fst (result_of (storeAttempt E v u) h) = None then mapping_stored v (cms h) else cms h) \<and>
    (mapping_stored v (cms h) = cms h \<longrightarrow> read_only (trace_of (storeAttempt E v u) h))"
  proof (cases "envCmGet E h NamespaceSystem ConfigMapNADMapping")
    case (Ok cm)
    have found: "cms h nad_key = Some cm" "(cmNamespace cm, cmName cm) = nad_key"
      using cm_found [OF Ok] by (simp_all add: nad_key_def)
    show ?thesis
    proof (cases "mget (cmData cm) ConfigMapKeyNADMapping = v")
      case True
      with found(1) have "mapping_stored v (cms h) = cms h" by (rule mapping_stored_same)
      with True g [unfolded Ok] show ?thesis by (simp add: storeAttempt_def Ok)
    next
      case False
      then have "mapping_stored v (cms h) \<noteq> cms h" using mapping_stored_fix [of v "cms h"] found(1) by auto
      moreover have "mapping_stored v (cms h) = (cms h)(nad_key \<mapsto> cm\<lparr>cmData := mset_key ConfigMapKeyNADMapping v (made (cmData cm))\<rparr>)"
        using False found(1) by (simp add: mapping_stored_def)
      ultimately show ?thesis
        using False found(2) evs(2) [unfolded Ok] by (simp add: storeAttempt_def Ok split: resp.split)
    qed
  next
    case (Fail e x)
    show ?thesis
    proof (cases "IsNotFound e")
      case True
      then have none: "cms h nad_key = None" using cm_missing [OF Fail] by (simp add: nad_key_def)
      then have "mapping_stored v (cms h) \<noteq> cms h" using mapping_stored_fix [of v "cms h"] by auto
      with True none show ?thesis
        using evs(1) [unfolded Fail] by (simp add: storeAttempt_def Fail mapping_stored_def nad_key_def split: resp.split)
    next
      case False
      with g [unfolded Fail] show ?thesis by (simp add: storeAttempt_def Fail)
    qed
  qed
  then show "cms (h @ trace_of (storeAttempt E v u) h) =
      (if fst (result_of (storeAttempt E v u) h) = None then mapping_stored v (cms h) else cms h)"
    "mapping_stored v (cms h) = cms h \<Longrightarrow> read_only (trace_of (storeAttempt E v u) h)" by blast+
qed

lemma retried_store:
  assumes "no_cm_timeout E" "0 < n"
  shows "cms (h @ trace_of (RetryOnConflict n (storeAttempt E v) u) h) =
    (if result_of (RetryOnConflict n (storeAttempt E v) u) h = None then mapping_stored v (cms h) else cms h)"
  unfolding RetryOnConflict_loop
proof (rule store_retry.loop_refines)
  show "cms (h @ trace_of (storeAttempt E v u) h) =
      (if fst (result_of (storeAttempt E v u) h) = None then mapping_stored v (cms h) else cms h)" for u h
    by (rule attempt_stores(1))
  show "cms (h @ [Sleep]) = cms h" for h by (rule cm_quiet) simp
  show "fst (result_of (storeAttempt E v u) h) \<noteq> Some ErrWaitTimeout" for u h
    using assms(1) by (auto simp: storeAttempt_def no_cm_timeout_def split: resp.split)
qed (use assms(2) in simp)

lemma retried_store_quiet:
  assumes "mapping_stored v (cms h) = cms h"
  shows "read_only (trace_of (RetryOnConflict n (storeAttempt E v) u) h)"
proof -
  let ?I = "\<lambda>h'. cms h' = cms h"
  have "list_all (\<lambda>e. \<not> is_write e) (trace_of (retry_loop n None (storeAttempt E v) u) h)"
  proof (rule store_retry.loop_keeps [where I = ?I])
    show "cms (h' @ trace_of (storeAttempt E v u) h') = cms h \<and> list_all (\<lambda>e. \<not> is_write e) (trace_of (storeAttempt E v u) h')"
      if "cms h' = cms h" for u h'
      using attempt_stores [where h = h' and v = v and u = u] that assms by (auto simp: read_only_def list_all_iff split: if_splits)
    show "cms (h' @ [Sleep]) = cms h" if "cms h' = cms h" for h' using that cm_quiet [of Sleep h'] by simp
  qed simp_all
  then show ?thesis by (simp add: RetryOnConflict_loop read_only_def list_all_iff)
qed

end

section \<open>An API server over a list of acknowledged writes\<close>

text \<open>
  The ConfigMaps as the acknowledged writes of the history leave them, with clients that answer
  from them and from a list of machines.
\<close>

fun cm_apply :: "event \<Rightarrow> cm_map \<Rightarrow> cm_map" where
  "cm_apply (CmCreate cm (Ok r)) S = S((cmNamespace cm, cmName cm) \<mapsto> cm)"
| "cm_apply (CmUpdate cm (Ok r)) S = S((cmNamespace cm, cmName cm) \<mapsto> cm)"
| "cm_apply _ S = S"

definition cms_of :: "history \<Rightarrow> cm_map" where
  "cms_of h = fold cm_apply h Map.empty"

definition cm_env :: "vmi list \<Rightarrow> env" where
  "cm_env vmis = empty_env\<lparr>envVmiCacheList := (\<lambda>h ns s. Ok vmis),
     envCmGet := (\<lambda>h ns n. case cms_of h (ns, n) of None \<Rightarrow> Fail not_found None | Some cm \<Rightarrow> Ok cm),
     envCmCacheGet := (\<lambda>h ns n. case cms_of h (ns, n) of None \<Rightarrow> Fail not_found None | Some cm \<Rightarrow> Ok cm),
     envCmCreate := (\<lambda>h cm. Ok cm), envCmUpdate := (\<lambda>h cm. Ok cm)\<rparr>"

lemma cm_apply_quiet: "\<not> cm_acked e \<Longrightarrow> cm_apply e S = S"
  by (cases "(e, S)" rule: cm_apply.cases) auto

lemma cms_of_named: "cms_of h (ns, n) = Some cm \<Longrightarrow> cmNamespace cm = ns \<and> cmName cm = n"
proof (induction h rule: rev_induct)
  case (snoc e h)
  show ?case
  proof (cases "cm_acked e")
    case True
    then show ?thesis using snoc by (cases e rule: cm_acked.cases) (auto simp: cms_of_def split: if_splits)
  next
    case False
    then show ?thesis using snoc by (simp add: cms_of_def cm_apply_quiet)
  qed
qed (simp add: cms_of_def)

interpretation acked: cm_store "cm_env vmis" cms_of for vmis
  by unfold_locales
    (auto simp: cm_env_def empty_env_def cms_of_named cm_apply_quiet split: option.splits, simp_all add: cms_of_def cm_apply_quiet)

section \<open>The synchronization on the store\<close>

abbreviation listed :: "handler \<Rightarrow> vmi list \<Rightarrow> event" where
  "listed h us \<equiv> VmiCacheList (hNamespace h) (LabelKeyGuestClusterNameOnVM, cfgClusterName (hConfig h)) (Ok us)"

abbreviation lists :: "handler \<Rightarrow> history \<Rightarrow> vmi list \<Rightarrow> bool" where
  "lists h g us \<equiv> envVmiCacheList (hClients h) g (hNamespace h) (LabelKeyGuestClusterNameOnVM, cfgClusterName (hConfig h)) = Ok us"

abbreviation retried_storing :: "handler \<Rightarrow> vmi list \<Rightarrow> go_error option io" where
  "retried_storing h us \<equiv> RetryOnConflict DefaultBackoffSteps (storeAttempt (hClients h) (nadMappingValue us)) ()"

text \<open>One run of the synchronization: the listing, and then the retried storing.\<close>

lemma sync_unfold:
  assumes "cfgClusterName (hConfig h) \<noteq> []" "cfgClusterName (hConfig h) \<noteq> DefaultGuestClusterName"
    and "lists h g us"
  shows "trace_of (syncNADMappingConfigMap h) g = listed h us # trace_of (retried_storing h us) (g @ [listed h us])"
    "result_of (syncNADMappingConfigMap h) g = result_of (retried_storing h us) (g @ [listed h us])"
  using assms by (simp_all add: syncNADMappingConfigMap_def Let_def)

lemma sync_stores:
  assumes "cm_store (hClients h) cms" "no_cm_timeout (hClients h)"
    and "lists h hs vmis"
  shows "cms (hs @ trace_of (syncNADMappingConfigMap h) hs) =
    (if result_of (syncNADMappingConfigMap h) hs = None then mapping_stored (nadMappingValue vmis) (cms hs) else cms hs)"
proof (cases "cfgClusterName (hConfig h) = [] \<or> cfgClusterName (hConfig h) = DefaultGuestClusterName")
  case True
  then show ?thesis using sync_needs_cluster_name [of h hs] by auto
next
  case False
  have "cms (hs @ [listed h vmis]) = cms hs" by (rule cm_store.cm_quiet [OF assms(1)]) simp
  with False show ?thesis
    using cm_store.retried_store [OF assms(1,2), of DefaultBackoffSteps "hs @ [listed h vmis]" "nadMappingValue vmis" "()"] sync_unfold [OF _ _ assms(3)]
    by (simp add: DefaultBackoffSteps_def)
qed

lemma sync_stored_quiet:
  assumes "cm_store (hClients h) cms" "mapping_stored (nadMappingValue vmis) (cms g) = cms g" "set vmis' = set vmis"
    and "lists h g vmis'"
  shows "read_only (trace_of (syncNADMappingConfigMap h) g)"
proof (cases "cfgClusterName (hConfig h) = [] \<or> cfgClusterName (hConfig h) = DefaultGuestClusterName")
  case True
  then show ?thesis using sync_needs_cluster_name [of h g] by auto
next
  case False
  have "nadMappingValue vmis' = nadMappingValue vmis"
    using GetCommonVMINADs_order [of "map Some vmis'" "map Some vmis"] assms(3) by (simp add: nadMappingValue_def)
  moreover have "cms (g @ [listed h vmis']) = cms g" by (rule cm_store.cm_quiet [OF assms(1)]) simp
  ultimately have "mapping_stored (nadMappingValue vmis') (cms (g @ [listed h vmis'])) = cms (g @ [listed h vmis'])"
    using assms(2) by simp
  from cm_store.retried_store_quiet [OF assms(1) this] False show ?thesis using sync_unfold(1) [OF _ _ assms(4)] by simp
qed

text \<open>The lookup of a network when the ConfigMap holds the encoding of a list of machines.\<close>

lemma resolve_common:
  assumes "envCmCacheGet (lmClients l) now NamespaceSystem ConfigMapNADMapping = Ok cm"
    and "mget (cmData cm) ConfigMapKeyNADMapping = nadMappingValue vmis" "utf8_common vmis"
    and "mget (svcAnnotations svc) KeyNetwork \<noteq> []"
  shows "result_of (resolveNetworkInterface l svc) now = Inr ifc \<longleftrightarrow>
    (\<exists>m. GetCommonVMINADs (map Some vmis) = Some m \<and> fmlookup m (mget (svcAnnotations svc) KeyNetwork) = Some ifc)"
proof -
  have "result_of (GetNADInterfaceMapping (lmClients l)) now = Inr (made (GetCommonVMINADs (map Some vmis)))"
    using assms(1) decode_nadMappingValue [OF assms(2,3)] by (simp add: GetNADInterfaceMapping_def)
  then show ?thesis
    using assms(4) by (cases "GetCommonVMINADs (map Some vmis)")
      (auto simp: resolveNetworkInterface_def made_def Let_def split: option.split)
qed

section \<open>Properties\<close>

text \<open>C35: The synchronization of the NAD mapping is one operation on the store of ConfigMaps, however
  often it is retried after a conflict: if it succeeds, the entry of the mapping ConfigMap is the
  encoding of the common mapping of the listed machines, the ConfigMap being created if need be
  and every other entry and every other ConfigMap being as before; if it fails, nothing has
  changed.  Once it has succeeded, a later run that lists the same machines in whatever order,
  with the ConfigMaps as they were left, writes nothing.\<close>

theorem sync_refines_cm_store:
  assumes "cm_store (hClients h) cms" "no_cm_timeout (hClients h)"
    and "lists h hs vmis"
    and "hs' = hs @ trace_of (syncNADMappingConfigMap h) hs"
  shows "cms hs' = (if result_of (syncNADMappingConfigMap h) hs = None then mapping_stored (nadMappingValue vmis) (cms hs) else cms hs) \<and>
    (result_of (syncNADMappingConfigMap h) hs = None \<longrightarrow> (\<forall>later vmis'.
       cms later = cms hs' \<and> set vmis' = set vmis \<and>
       lists h later vmis' \<longrightarrow>
       read_only (trace_of (syncNADMappingConfigMap h) later)))"
proof (intro conjI impI allI)
  show stored: "cms hs' = (if result_of (syncNADMappingConfigMap h) hs = None then mapping_stored (nadMappingValue vmis) (cms hs) else cms hs)"
    unfolding assms(4) by (rule sync_stores [OF assms(1-3)])
  fix later vmis'
  assume "result_of (syncNADMappingConfigMap h) hs = None"
    "cms later = cms hs' \<and> set vmis' = set vmis \<and> lists h later vmis'"
  moreover from this have "mapping_stored (nadMappingValue vmis) (cms later) = cms later"
    using stored mapping_stored_idem by simp
  ultimately show "read_only (trace_of (syncNADMappingConfigMap h) later)"
    using sync_stored_quiet [OF assms(1)] by blast
qed

text \<open>C36: The interface a service is bound to is determined by the machines: after a successful
  synchronization, as long as the mapping ConfigMap is as the synchronization left it and the cache shows it, the network
  annotation of a service resolves to an interface if and only if some qualifying machine
  exists and on every qualifying machine that was listed the network is on this interface.  NAD and interface names are assumed to be
  valid UTF-8, which JSON encoding needs to be lossless.\<close>

theorem network_resolution_after_sync:
  assumes "cm_store (hClients h) cms" "no_cm_timeout (hClients h)"
    and "lists h hs vmis"
    and "result_of (syncNADMappingConfigMap h) hs = None" "utf8_common vmis"
    and "cms now nad_key = cms (hs @ trace_of (syncNADMappingConfigMap h) hs) nad_key"
    and "\<forall>cm. cms now nad_key = Some cm \<longrightarrow> envCmCacheGet (lmClients l) now NamespaceSystem ConfigMapNADMapping = Ok cm"
    and "mget (svcAnnotations svc) KeyNetwork \<noteq> []"
  shows "result_of (resolveNetworkInterface l svc) now = Inr ifc \<longleftrightarrow>
    (\<exists>v\<in>set vmis. isQualifying v) \<and>
    (\<forall>v\<in>set vmis. isQualifying v \<longrightarrow> fmlookup (getNADToInterfaceMapping v) (mget (svcAnnotations svc) KeyNetwork) = Some ifc)"
proof -
  obtain cm where cm: "cms now nad_key = Some cm" "mget (cmData cm) ConfigMapKeyNADMapping = nadMappingValue vmis"
    using sync_stores [OF assms(1-3)] assms(4,6) mapping_stored_value [of "nadMappingValue vmis" "cms hs"] by auto
  have "envCmCacheGet (lmClients l) now NamespaceSystem ConfigMapNADMapping = Ok cm" using assms(7) cm(1) by blast
  note res = resolve_common [OF this cm(2) assms(5,8)]
  show ?thesis
  proof (cases "GetCommonVMINADs (map Some vmis)")
    case None
    then show ?thesis using res common_None [of "map Some vmis"] by auto
  next
    case (Some m)
    then have "\<exists>v\<in>set vmis. isQualifying v" using common_None [of "map Some vmis"] by auto
    with Some show ?thesis using res common_lookup [OF Some] by auto
  qed
qed

section \<open>Witnesses\<close>

text \<open>Two machines that have the management network on the same interface and another network on different ones.\<close>

definition demo_guests :: "vmi list" where
  "demo_guests = [demo_guest ''enp2s0'', demo_guest ''enp3s0'']"

definition sync_handler :: handler where
  "sync_handler = \<lparr>hClients = cm_env demo_guests, hNamespace = ''default'', hConfig = demo_config\<rparr>"

definition mapped_manager :: lb_manager where
  "mapped_manager = \<lparr>lmClients = cm_env demo_guests, lmNamespace = ''default'', lmConfig = demo_config\<rparr>"

lemma demo_guest_facts:
  "isQualifying (demo_guest nic)"
  "getNADToInterfaceMapping (demo_guest nic) = (if nic = [] then fmupd ''default/mgmt'' ''enp1s0'' fmempty
     else fmupd ''default/net1'' nic (fmupd ''default/mgmt'' ''enp1s0'' fmempty))"
  by (simp_all add: isQualifying_def IsRunning_def IsMigrationCompleted_def Running_def demo_guest_def getNADToInterfaceMapping_def)

lemma utf8_demo: "utf8_common demo_guests"
proof -
  have ascii: "utf8_valid ''default/mgmt''" "utf8_valid ''enp1s0''" by (rule utf8_valid_ascii, code_simp)+
  show ?thesis
    unfolding utf8_common_def
  proof (intro allI impI)
    fix m assume m: "GetCommonVMINADs (map Some demo_guests) = Some m"
    have "n = ''default/mgmt'' \<and> i = ''enp1s0''" if "fmlookup m n = Some i" for n i
    proof -
      have "fmlookup (getNADToInterfaceMapping v) n = Some i" if "v \<in> set demo_guests" "isQualifying v" for v
        using common_lookup [OF m, of n i] \<open>fmlookup m n = Some i\<close> that by auto
      from this [of "demo_guest ''enp2s0''"] this [of "demo_guest ''enp3s0''"] show ?thesis
        by (auto simp: demo_guests_def demo_guest_facts split: if_splits)
    qed
    with ascii show "utf8_map m" unfolding utf8_map_def by blast
  qed
qed

lemma sync_handler_clients: "hClients sync_handler = cm_env demo_guests" "lists sync_handler g demo_guests"
  "no_cm_timeout (cm_env us)"
  by (auto simp: sync_handler_def cm_env_def no_cm_timeout_def not_found_def empty_env_def split: option.splits)

lemma sync_handler_ok: "result_of (syncNADMappingConfigMap sync_handler) h = None"
proof -
  let ?fn = "storeAttempt (hClients sync_handler) (nadMappingValue demo_guests)"
  have "result_of (?fn ()) h = (None, ())" for h
    by (auto simp: storeAttempt_def sync_handler_def cm_env_def empty_env_def split: option.split)
  then have "result_of (RetryOnConflict DefaultBackoffSteps ?fn ()) h = None" for h
    by (intro store_retry.retry_no_conflict(1)) (auto simp: DefaultBackoffSteps_def)
  moreover have "cfgClusterName (hConfig sync_handler) \<noteq> []" "cfgClusterName (hConfig sync_handler) \<noteq> DefaultGuestClusterName"
    by (simp_all add: sync_handler_def demo_config_def DefaultGuestClusterName_def)
  ultimately show ?thesis using sync_unfold(2) [OF _ _ sync_handler_clients(2)] by simp
qed

abbreviation synced :: history where
  "synced \<equiv> trace_of (syncNADMappingConfigMap sync_handler) []"

theorem sync_refines_cm_store_witness:
  "cms_of synced = mapping_stored (nadMappingValue demo_guests) Map.empty \<and>
   read_only (trace_of (syncNADMappingConfigMap sync_handler) synced)"
proof -
  have "cm_store (hClients sync_handler) cms_of" "no_cm_timeout (hClients sync_handler)"
    unfolding sync_handler_clients(1) by (rule acked.cm_store_axioms sync_handler_clients(3))+
  from sync_refines_cm_store [OF this sync_handler_clients(2) refl, where hs = "[]"] show ?thesis
    using sync_handler_ok sync_handler_clients(2) by (simp add: cms_of_def [of "[]"])
qed

theorem network_resolution_after_sync_witness:
  "result_of (resolveNetworkInterface mapped_manager (demo_annotated KeyNetwork ''default/mgmt'')) synced = Inr ''enp1s0'' \<and>
   (\<forall>ifc. result_of (resolveNetworkInterface mapped_manager (demo_annotated KeyNetwork ''default/net1'')) synced \<noteq> Inr ifc)"
proof -
  have "cm_store (hClients sync_handler) cms_of" "no_cm_timeout (hClients sync_handler)"
    unfolding sync_handler_clients(1) by (rule acked.cm_store_axioms sync_handler_clients(3))+
  note res = network_resolution_after_sync [OF this sync_handler_clients(2) sync_handler_ok utf8_demo,
    where hs = "[]" and now = synced and l = mapped_manager]
  have "\<forall>cm. cms_of synced nad_key = Some cm \<longrightarrow>
      envCmCacheGet (lmClients mapped_manager) synced NamespaceSystem ConfigMapNADMapping = Ok cm"
    by (simp add: mapped_manager_def cm_env_def nad_key_def)
  note res = res [OF _ this]
  show ?thesis
    using res [of "demo_annotated KeyNetwork ''default/mgmt''"] res [of "demo_annotated KeyNetwork ''default/net1''"]
    by (simp add: demo_guests_def demo_guest_facts)
qed

end
