(* ===== verification/NodeLifecycle.thy ===== *)
theory NodeLifecycle
  imports Framework Instances VMIController
begin

text \<open>
  The node lifecycle controller of the framework (\<open>k8s.io/cloud-provider/controllers/nodelifecycle\<close>), a
  caller of the instance manager: a node that is not ready is deleted when its virtual machine is gone
  and tainted when the machine is shut down; the taint goes away with the first ready status.
\<close>

section \<open>Removing taints\<close>

definition ShutdownTaint :: taint where
  "ShutdownTaint = \<lparr>taintKey = ''node.cloudprovider.kubernetes.io/shutdown'', taintValue = [],
     taintEffect = ''NoSchedule'', taintTimeAdded = None\<rparr>"

fun taintExists :: "taint list \<Rightarrow> taint \<Rightarrow> bool" where
  "taintExists [] t = False"
| "taintExists (u # us) t = (if MatchTaint u t then True else taintExists us t)"

fun deleteTaint :: "taint list \<Rightarrow> taint \<Rightarrow> taint list \<times> bool" where
  "deleteTaint [] t = ([], False)"
| "deleteTaint (u # us) t = (case deleteTaint us t of (ts, deleted) \<Rightarrow>
     if MatchTaint t u then (ts, True) else (u # ts, deleted))"

text \<open>The new taints, and whether something was removed.\<close>

definition removeTaint :: "node \<Rightarrow> taint \<Rightarrow> taint list \<times> bool" where
  "removeTaint nd t =
     (if nodeTaints nd = [] then (nodeTaints nd, False)
      else if \<not> taintExists (nodeTaints nd) t then (nodeTaints nd, False)
      else (fst (deleteTaint (nodeTaints nd) t), True))"

definition removeAttempt :: "env \<Rightarrow> string \<Rightarrow> taint \<Rightarrow> bool \<Rightarrow> (go_error option \<times> bool) io" where
  "removeAttempt E name t firstTry = do {
     r \<leftarrow> nodeGet E name firstTry;
     (case r of
        Fail err _ \<Rightarrow> ret (Some err, False)
      | Ok oldNode \<Rightarrow>
          (case removeTaint oldNode t of (newTaints, updated) \<Rightarrow>
             if \<not> updated then ret (None, False)
             else do {
               e \<leftarrow> nodePatchTaints E name oldNode newTaints;
               ret (e, False)
             }))
   }"

text \<open>For one taint; a node that is passed and does not have it costs no call.\<close>

definition RemoveTaintOffNode :: "env \<Rightarrow> string \<Rightarrow> node option \<Rightarrow> taint \<Rightarrow> go_error option io" where
  "RemoveTaintOffNode E name nd t =
     (if nd \<noteq> None \<and> \<not> taintExists (nodeTaints (the nd)) t then ret None
      else RetryOnConflict updateTaintSteps (removeAttempt E name t) True)"

section \<open>The controller\<close>

text \<open>Harvester supports \<open>InstancesV2\<close>, so the branches for the older interface are not taken.\<close>

record node_lifecycle =
  nlInstances :: instance_manager
  nlEnv :: fw_env

definition ensureNodeExistsByProviderID :: "node_lifecycle \<Rightarrow> node \<Rightarrow> (bool \<times> go_error option) io" where
  "ensureNodeExistsByProviderID c nd = InstanceExists (nlInstances c) nd"

definition shutdownInCloudProvider :: "node_lifecycle \<Rightarrow> node \<Rightarrow> (bool \<times> go_error option) io" where
  "shutdownInCloudProvider c nd = InstanceShutdown (nlInstances c) nd"

text \<open>The body of the loop of \<open>MonitorNodes\<close>; a missing condition counts as \<open>Unknown\<close>, errors are logged.\<close>

definition monitorNode :: "node_lifecycle \<Rightarrow> node_object \<Rightarrow> unit io" where
  "monitorNode c no = (let nd = noNode no in
     if (case noReady no of Some s \<Rightarrow> s | None \<Rightarrow> ''Unknown'') = ''True'' then do {
       RemoveTaintOffNode (imClients (nlInstances c)) (nodeName nd) (Some nd) ShutdownTaint;
       ret ()
     }
     else do {
       x \<leftarrow> ensureNodeExistsByProviderID c nd;
       (case x of (exists, err) \<Rightarrow>
          if err \<noteq> None then ret ()
          else if \<not> exists then do {
            nodeDelete (nlEnv c) (nodeName nd);
            ret ()
          }
          else do {
            s \<leftarrow> shutdownInCloudProvider c nd;
            (case s of (shutdown, err) \<Rightarrow>
               if shutdown \<and> err = None then do {
                 AddOrUpdateTaintOnNode (imClients (nlInstances c)) (nodeName nd) ShutdownTaint;
                 ret ()
               }
               else ret ())
          })
     })"

fun monitorLoop :: "node_lifecycle \<Rightarrow> node_object list \<Rightarrow> unit io" where
  "monitorLoop c [] = ret ()"
| "monitorLoop c (no # nos) = do {
     monitorNode c no;
     monitorLoop c nos
   }"

definition MonitorNodes :: "node_lifecycle \<Rightarrow> unit io" where
  "MonitorNodes c = do {
     r \<leftarrow> nodeListerList (nlEnv c);
     (case r of Fail err _ \<Rightarrow> ret () | Ok nodes \<Rightarrow> monitorLoop c nodes)
   }"

section \<open>Taints\<close>

lemma taintExists_iff: "taintExists ts t \<longleftrightarrow> (\<exists>u\<in>set ts. MatchTaint u t)"
  by (induction ts t rule: taintExists.induct) auto

lemma deleteTaint_eq: "deleteTaint ts t = (filter (\<lambda>u. \<not> MatchTaint t u) ts, \<exists>u\<in>set ts. MatchTaint t u)"
  by (induction ts t rule: deleteTaint.induct) auto

lemma MatchTaint_sym: "MatchTaint t u = MatchTaint u t"
  by (auto simp: MatchTaint_def)

lemma removeTaint_eq:
  "removeTaint nd t = (filter (\<lambda>u. \<not> MatchTaint t u) (nodeTaints nd), \<exists>u\<in>set (nodeTaints nd). MatchTaint t u)"
  by (auto simp: removeTaint_def taintExists_iff deleteTaint_eq MatchTaint_sym filter_id_conv)

section \<open>Writes\<close>

lemma appends_removeAttempt [simp]: "appends (removeAttempt E n t b)"
  by (simp add: removeAttempt_def)

interpretation remove_retry: retried "removeAttempt E n t" for E n t
  by unfold_locales simp

lemma appends_lifecycle [simp]:
  "appends (RemoveTaintOffNode E n nd t)" "appends (ensureNodeExistsByProviderID c nd')" "appends (shutdownInCloudProvider c nd')"
  "appends (monitorNode c no)" "appends (monitorLoop c nos)" "appends (MonitorNodes c)"
proof -
  show 1: "appends (RemoveTaintOffNode E n nd t)" "appends (ensureNodeExistsByProviderID c nd')" "appends (shutdownInCloudProvider c nd')" for nd'
    by (simp_all add: RemoveTaintOffNode_def ensureNodeExistsByProviderID_def shutdownInCloudProvider_def InstanceExists_def InstanceShutdown_def)
  show 2: "appends (monitorNode c no)" for no
    by (simp add: monitorNode_def Let_def RemoveTaintOffNode_def ensureNodeExistsByProviderID_def shutdownInCloudProvider_def
        InstanceExists_def InstanceShutdown_def)
  show 3: "appends (monitorLoop c nos)" for nos by (induction nos) (simp_all add: 2)
  show "appends (MonitorNodes c)" by (simp add: MonitorNodes_def 3)
qed

definition node_ready :: "node_object \<Rightarrow> bool" where
  "node_ready no \<longleftrightarrow> noReady no = Some ''True''"

text \<open>The writes of a round over \<open>nodes\<close>, with the reads before them; \<open>h\<close> is the history at its start.\<close>

fun lifecycle_ok :: "node_lifecycle \<Rightarrow> history \<Rightarrow> node_object list \<Rightarrow> event_pred" where
  "lifecycle_ok c h nodes pre (FwNodeDelete n r) \<longleftrightarrow>
     (\<exists>no err x. no \<in> set nodes \<and> nodeName (noNode no) = n \<and> \<not> node_ready no \<and> IsNotFound err \<and>
        VmGet (imNamespace (nlInstances c)) (vm_of_node h (noNode no)) (Fail err x) \<in> set pre)"
| "lifecycle_ok c h nodes pre (NodePatchTaints n nd ts r) \<longleftrightarrow>
     (\<exists>b. NodeGet n b (Ok nd) \<in> set pre) \<and>
     (\<exists>no. no \<in> set nodes \<and> nodeName (noNode no) = n \<and>
        (if node_ready no then ts = filter (\<lambda>u. \<not> MatchTaint ShutdownTaint u) (nodeTaints nd)
         else ts = fst (addOrUpdateTaint nd ShutdownTaint) \<and>
           (\<exists>v. VmGet (imNamespace (nlInstances c)) (vm_of_node h (noNode no)) (Ok v) \<in> set pre \<and> \<not> vmReady v)))"
| "lifecycle_ok c h nodes pre e \<longleftrightarrow> \<not> is_write e"

lemma lifecycle_ok_mono: "monoP (lifecycle_ok c h nodes)"
  unfolding monoP_def
proof (intro allI impI)
  fix pre pre' e
  assume "lifecycle_ok c h nodes pre e" "set pre \<subseteq> set pre'"
  then show "lifecycle_ok c h nodes pre' e" by (cases e; fastforce)
qed

lemma lifecycle_no_store: "always (lifecycle_ok c h nodes) t \<Longrightarrow> StoreVMName k n \<notin> set t"
  using always_memD by fastforce

text \<open>Both taint helpers write what they compute from the node they read.\<close>

lemma remove_taint_ok:
  assumes "no \<in> set nodes" "node_ready no"
  shows "holds (lifecycle_ok c h nodes) (RemoveTaintOffNode E (nodeName (noNode no)) nd ShutdownTaint)"
proof -
  have "holds (lifecycle_ok c h nodes) (removeAttempt E (nodeName (noNode no)) ShutdownTaint b)" for b
    using assms by (auto simp: holds_def removeAttempt_def removeTaint_eq split: resp.split)
  then show ?thesis unfolding RemoveTaintOffNode_def by (intro holds_branches holds_ret holds_retry lifecycle_ok_mono) auto
qed

lemma add_taint_ok:
  assumes "no \<in> set nodes" "\<not> node_ready no" "\<not> vmReady v"
    and "VmGet (imNamespace (nlInstances c)) (vm_of_node h (noNode no)) (Ok v) \<in> set u"
  shows "holds (\<lambda>pre. lifecycle_ok c h nodes (u @ pre)) (AddOrUpdateTaintOnNode E (nodeName (noNode no)) ShutdownTaint)"
proof -
  have m: "monoP (\<lambda>pre. lifecycle_ok c h nodes (u @ pre))"
    using lifecycle_ok_mono unfolding monoP_def by (metis (no_types, lifting) set_append Un_mono subset_refl)
  have "holds (\<lambda>pre. lifecycle_ok c h nodes (u @ pre)) (taintAttempt E (nodeName (noNode no)) ShutdownTaint b)" for b
    using assms by (auto simp: holds_def taintAttempt_def split: resp.split prod.split)
  then show ?thesis unfolding AddOrUpdateTaintOnNode_def by (intro holds_retry m) auto
qed

lemma monitorNode_ok:
  assumes "no \<in> set nodes" "vm_of_node h' (noNode no) = vm_of_node h (noNode no)"
  shows "always (lifecycle_ok c h nodes) (trace_of (monitorNode c no) h')"
proof (cases "node_ready no")
  case True
  then have "trace_of (monitorNode c no) h' =
      trace_of (RemoveTaintOffNode (imClients (nlInstances c)) (nodeName (noNode no)) (Some (noNode no)) ShutdownTaint) h'"
    by (simp add: monitorNode_def node_ready_def Let_def)
  then show ?thesis using remove_taint_ok [OF assms(1) True] by (simp add: holds_def)
next
  case False
  let ?i = "nlInstances c" and ?nd = "noNode no"
  let ?get = "\<lambda>h. VmGet (imNamespace ?i) (vm_of_node h' ?nd) (vm_answer ?i h ?nd)"
  have nr: "(case noReady no of Some s \<Rightarrow> s | None \<Rightarrow> ''Unknown'') \<noteq> ''True''"
    using False by (auto simp: node_ready_def split: option.splits)
  have vm: "vm_of_node (h' @ [?get h']) ?nd = vm_of_node h' ?nd" by (rule vm_of_node_append) simp
  show ?thesis
  proof (cases "vm_answer ?i h' ?nd")
    case (Fail err x)
    then show ?thesis using nr assms False
      by (auto simp: monitorNode_def ensureNodeExistsByProviderID_def InstanceExists_def Let_def)
  next
    case (Ok v)
    let ?g2 = "VmGet (imNamespace ?i) (vm_of_node h' ?nd) (vm_answer ?i (h' @ [?get h']) ?nd)"
    let ?A = "AddOrUpdateTaintOnNode (imClients ?i) (nodeName ?nd) ShutdownTaint"
    have "always (\<lambda>pre. lifecycle_ok c h nodes ([?get h', ?g2] @ pre)) (trace_of ?A h'')"
      if "vm_answer ?i (h' @ [?get h']) ?nd = Ok v'" "\<not> vmReady v'" for v' h''
      using add_taint_ok [OF assms(1) False that(2), where u = "[?get h', ?g2]" and h = h and c = c] that(1) assms(2)
      unfolding holds_def by (metis (no_types, lifting) list.set_intros)
    then show ?thesis using nr Ok vm
      by (cases "vm_answer ?i (h' @ [?get h']) ?nd")
        (auto simp: monitorNode_def ensureNodeExistsByProviderID_def shutdownInCloudProvider_def InstanceExists_def InstanceShutdown_def Let_def)
  qed
qed

lemma monitorLoop_ok:
  "set nos \<subseteq> set nodes \<Longrightarrow> (\<And>nd. vm_of_node h' nd = vm_of_node h nd) \<Longrightarrow>
   always (lifecycle_ok c h nodes) (trace_of (monitorLoop c nos) h')"
proof (induction nos arbitrary: h')
  case (Cons no nos)
  have ok: "always (lifecycle_ok c h nodes) (trace_of (monitorNode c no) h')" using Cons.prems by (intro monitorNode_ok) auto
  then have "vm_of_node (h' @ trace_of (monitorNode c no) h') nd = vm_of_node h' nd" for nd
    using lifecycle_no_store by (intro vm_of_node_append) blast
  then have "always (lifecycle_ok c h nodes) (trace_of (monitorLoop c nos) (h' @ trace_of (monitorNode c no) h'))"
    using Cons by auto
  then show ?case using ok by (simp add: always_append monoP_always [OF lifecycle_ok_mono])
qed simp

lemma MonitorNodes_ok:
  assumes "fwNodeList (nlEnv c) h = Ok nodes"
  shows "always (lifecycle_ok c h nodes) (trace_of (MonitorNodes c) h)"
proof -
  have "vm_of_node (h @ [FwNodeList (Ok nodes)]) nd = vm_of_node h nd" for nd by (rule vm_of_node_append) simp
  then have "always (lifecycle_ok c h nodes) (trace_of (monitorLoop c nodes) (h @ [FwNodeList (Ok nodes)]))"
    by (intro monitorLoop_ok) auto
  then show ?thesis using assms monoP_always [OF lifecycle_ok_mono, of c h nodes _ "[FwNodeList (Ok nodes)]"]
    by (simp add: MonitorNodes_def)
qed

text \<open>A node without a recorded machine, and no machine of its own name, is deleted in every round.\<close>

lemma monitorNode_deletes:
  assumes "\<not> node_ready no" "vm_names h' (nodeName (noNode no)) = None"
    and "\<forall>h. \<exists>err x. envVmGet (imClients (nlInstances c)) h (imNamespace (nlInstances c)) (nodeName (noNode no)) = Fail err x \<and> IsNotFound err"
  shows "\<exists>r. FwNodeDelete (nodeName (noNode no)) r \<in> set (trace_of (monitorNode c no) h')"
proof -
  have "(case noReady no of Some s \<Rightarrow> s | None \<Rightarrow> ''Unknown'') \<noteq> ''True''"
    using assms(1) by (auto simp: node_ready_def split: option.splits)
  moreover obtain err x where "vm_answer (nlInstances c) h' (noNode no) = Fail err x" "IsNotFound err"
    using assms(2) spec [OF assms(3), of h'] by (auto simp: vm_of_node_def)
  ultimately show ?thesis by (simp add: monitorNode_def ensureNodeExistsByProviderID_def InstanceExists_def Let_def)
qed

lemma vm_names_same: "always (lifecycle_ok c h nodes) t \<Longrightarrow> vm_names (h' @ t) k = vm_names h' k"
  using lifecycle_no_store vm_names_store [of t k] by (auto simp: vm_names_append split: option.split)

lemma monitorLoop_deletes:
  assumes "\<not> node_ready no"
    and "\<forall>h. \<exists>err x. envVmGet (imClients (nlInstances c)) h (imNamespace (nlInstances c)) (nodeName (noNode no)) = Fail err x \<and> IsNotFound err"
  shows "no \<in> set nos \<Longrightarrow> vm_names h' (nodeName (noNode no)) = None \<Longrightarrow>
    \<exists>r. FwNodeDelete (nodeName (noNode no)) r \<in> set (trace_of (monitorLoop c nos) h')"
proof (induction nos arbitrary: h')
  case (Cons no' nos)
  show ?case
  proof (cases "no' = no")
    case True
    then show ?thesis using monitorNode_deletes [OF assms(1) Cons.prems(2) assms(2)] by auto
  next
    case False
    have "always (lifecycle_ok c h' [no']) (trace_of (monitorNode c no') h')" by (rule monitorNode_ok) simp_all
    then have "vm_names (h' @ trace_of (monitorNode c no') h') (nodeName (noNode no)) = None"
      using vm_names_same Cons.prems(2) by simp
    from Cons.IH [OF _ this] show ?thesis using Cons.prems(1) False by auto
  qed
qed simp

section \<open>Properties\<close>

text \<open>C24: What a round of the node lifecycle controller writes.  A node is deleted only if it was listed as
  not ready and the virtual machine recorded for it was not found; a shutdown taint is put only on a
  node that was not ready and whose machine was found and not ready; it is taken only off a node
  that was listed as ready.  In each case the taints are those of the node as it was just read.\<close>

theorem lifecycle_writes_justified:
  assumes "fwNodeList (nlEnv c) h = Ok nodes" "trace_of (MonitorNodes c) h = pre @ e # post" "is_write e"
  shows "(\<exists>n r no err x. e = FwNodeDelete n r \<and> no \<in> set nodes \<and> nodeName (noNode no) = n \<and> \<not> node_ready no \<and> IsNotFound err \<and>
      VmGet (imNamespace (nlInstances c)) (vm_of_node h (noNode no)) (Fail err x) \<in> set pre) \<or>
    (\<exists>n nd ts r b no. e = NodePatchTaints n nd ts r \<and> NodeGet n b (Ok nd) \<in> set pre \<and> no \<in> set nodes \<and> nodeName (noNode no) = n \<and>
      (if node_ready no then ts = filter (\<lambda>u. \<not> MatchTaint ShutdownTaint u) (nodeTaints nd)
       else ts = fst (addOrUpdateTaint nd ShutdownTaint) \<and>
         (\<exists>v. VmGet (imNamespace (nlInstances c)) (vm_of_node h (noNode no)) (Ok v) \<in> set pre \<and> \<not> vmReady v)))"
proof -
  have "lifecycle_ok c h nodes pre e" using MonitorNodes_ok [OF assms(1)] assms(2) unfolding always_def by blast
  then show ?thesis using assms(3) by (cases e) auto
qed

text \<open>C25: Just after a start of the cloud provider, when the VMI controller has not yet recorded the machine
  of a node, a node that is not ready and has another name than its machine is deleted by the
  framework although the machine exists; once the machine is recorded, the node exists.\<close>

theorem restart_deletes_node:
  assumes "fwNodeList (nlEnv c) h = Ok nodes" "no \<in> set nodes" "\<not> node_ready no"
    and "vm_names h (nodeName (noNode no)) = None"
    and "\<forall>h. \<exists>err x. envVmGet (imClients (nlInstances c)) h (imNamespace (nlInstances c)) (nodeName (noNode no)) = Fail err x \<and> IsNotFound err"
    and "\<forall>h. envVmGet (imClients (nlInstances c)) h (imNamespace (nlInstances c)) machine = Ok v"
  shows "(\<exists>r. FwNodeDelete (nodeName (noNode no)) r \<in> set (trace_of (MonitorNodes c) h)) \<and>
    result_of (InstanceExists (nlInstances c) (noNode no)) (h @ [StoreVMName (nodeName (noNode no)) machine]) = (True, None)"
proof
  have "vm_names (h @ [FwNodeList (Ok nodes)]) (nodeName (noNode no)) = None" using assms(4) by (simp add: vm_names_append)
  from monitorLoop_deletes [OF assms(3,5,2) this]
  show "\<exists>r. FwNodeDelete (nodeName (noNode no)) r \<in> set (trace_of (MonitorNodes c) h)"
    using assms(1) by (simp add: MonitorNodes_def)
  show "result_of (InstanceExists (nlInstances c) (noNode no)) (h @ [StoreVMName (nodeName (noNode no)) machine]) = (True, None)"
    using assms(6) by (simp add: InstanceExists_def vm_of_node_def)
qed

section \<open>Witnesses\<close>

text \<open>A node \<open>node1\<close> that is not ready, on the machine \<open>vm1\<close>.\<close>

definition lost_node :: node_object where
  "lost_node = \<lparr>noNode = demo_node, noProviderID = [], noDeleted = False, noReady = None, noAddresses = []\<rparr>"

definition demo_lifecycle :: node_lifecycle where
  "demo_lifecycle = \<lparr>nlInstances = \<lparr>imClients = empty_env\<lparr>envVmGet := (\<lambda>h ns n.
       if n = ''vm1'' then Ok \<lparr>vmName = ''vm1'', vmUID = ''1234'', vmReady = True\<rparr> else Fail not_found None)\<rparr>,
       imNamespace = ''default'', imConfig = zero_config\<rparr>,
     nlEnv = quiet_fw (Fail not_found None) [lost_node]\<rparr>"

lemma lost_node_simps [simp]:
  "\<not> node_ready lost_node" "noNode lost_node = demo_node" "nodeName demo_node = ''node1''"
  by (simp_all add: lost_node_def node_ready_def demo_node_def)

lemma lost_round:
  "trace_of (MonitorNodes demo_lifecycle) [] =
    [FwNodeList (Ok [lost_node]), VmGet ''default'' ''node1'' (Fail not_found None)] @ FwNodeDelete ''node1'' None # []"
  by (simp add: MonitorNodes_def demo_lifecycle_def quiet_fw_def monitorNode_def ensureNodeExistsByProviderID_def InstanceExists_def
      vm_of_node_def Let_def) (simp add: lost_node_def)

theorem lifecycle_writes_justified_witness:
  "\<exists>no err x. no \<in> set [lost_node] \<and> nodeName (noNode no) = ''node1'' \<and> \<not> node_ready no \<and> IsNotFound err \<and>
    VmGet ''default'' (vm_of_node [] (noNode no)) (Fail err x) \<in>
      set [FwNodeList (Ok [lost_node]), VmGet ''default'' ''node1'' (Fail not_found None)]"
  using lifecycle_writes_justified [OF _ lost_round, of "[lost_node]"] by (simp add: demo_lifecycle_def quiet_fw_def)

theorem restart_deletes_node_witness:
  "(\<exists>r. FwNodeDelete (nodeName (noNode lost_node)) r \<in> set (trace_of (MonitorNodes demo_lifecycle) [])) \<and>
    result_of (InstanceExists (nlInstances demo_lifecycle) (noNode lost_node)) ([] @ [StoreVMName (nodeName (noNode lost_node)) ''vm1'']) =
      (True, None)"
  by (rule restart_deletes_node [where nodes = "[lost_node]"]) (simp_all add: demo_lifecycle_def quiet_fw_def)

end
