(* ===== verification/SloppyIP.thy ===== *)
theory SloppyIP
  imports Netip_Facts
begin

text \<open>
  The lenient parser the framework uses for addresses (\<open>ParseIPSloppy\<close> of \<open>k8s.io/utils/net\<close>, a fork of
  an old \<open>net.ParseIP\<close>), loop by loop.  It agrees with \<open>netip.ParseAddr\<close>, which the provider uses, on
  every text without a zone that the latter accepts; so the framework recognizes the addresses the
  provider prints.
\<close>

section \<open>Numbers\<close>

definition big :: nat where "big = 0xFFFFFF"

text \<open>The loops: value, number of digits, rest of the input; \<^term>\<open>None\<close> is the early return.\<close>

fun dtoiLoop :: "nat \<Rightarrow> nat \<Rightarrow> string \<Rightarrow> (nat \<times> nat \<times> string) option" where
  "dtoiLoop n i [] = Some (n, i, [])"
| "dtoiLoop n i (c # cs) =
     (if is_dec c then (if n * 10 + dec_val c \<ge> big then None else dtoiLoop (n * 10 + dec_val c) (Suc i) cs)
      else Some (n, i, c # cs))"

definition dtoi :: "string \<Rightarrow> (nat \<times> string) option" where
  "dtoi s = (case dtoiLoop 0 0 s of None \<Rightarrow> None | Some (n, i, rest) \<Rightarrow> if i = 0 then None else Some (n, rest))"

fun xtoiLoop :: "nat \<Rightarrow> nat \<Rightarrow> string \<Rightarrow> (nat \<times> nat \<times> string) option" where
  "xtoiLoop n i [] = Some (n, i, [])"
| "xtoiLoop n i (c # cs) = (case hex_val c of
     None \<Rightarrow> Some (n, i, c # cs)
   | Some d \<Rightarrow> if n * 16 + d \<ge> big then None else xtoiLoop (n * 16 + d) (Suc i) cs)"

definition xtoi :: "string \<Rightarrow> (nat \<times> string) option" where
  "xtoi s = (case xtoiLoop 0 0 s of None \<Rightarrow> None | Some (n, i, rest) \<Rightarrow> if i = 0 then None else Some (n, rest))"

section \<open>Addresses\<close>

text \<open>The loop over the octets: how many are missing, those read, the rest of the input.\<close>

fun sloppy4Loop :: "nat \<Rightarrow> nat list \<Rightarrow> string \<Rightarrow> nat list option" where
  "sloppy4Loop 0 p s = (if s \<noteq> [] then None else Some p)"
| "sloppy4Loop (Suc k) p s =
     (if s = [] then None
      else if p \<noteq> [] \<and> hd s \<noteq> CHR ''.'' then None
      else case dtoi (if p \<noteq> [] then tl s else s) of
        None \<Rightarrow> None
      | Some (n, rest) \<Rightarrow> if n > 255 then None else sloppy4Loop k (p @ [n]) rest)"

function sloppy6Loop :: "string \<Rightarrow> nat list \<Rightarrow> nat option \<Rightarrow> (nat list \<times> nat option) option" where
  "sloppy6Loop s bs ell =
     (if length bs < 16 then
        (case xtoi s of
           None \<Rightarrow> None
         | Some (n, rest) \<Rightarrow>
             if n > 65535 then None
             else if rest \<noteq> [] \<and> hd rest = CHR ''.'' then
               (if ell = None \<and> length bs \<noteq> 12 then None
                else if length bs + 4 > 16 then None
                else map_option (\<lambda>f. (bs @ f, ell)) (sloppy4Loop 4 [] s))
             else if rest = [] then Some (bs @ [n div 256, n mod 256], ell)
             else if hd rest \<noteq> CHR '':'' \<or> tl rest = [] then None
             else if hd (tl rest) = CHR '':'' then
               (if ell \<noteq> None then None
                else if tl (tl rest) = [] then Some (bs @ [n div 256, n mod 256], Some (length bs + 2))
                else sloppy6Loop (tl (tl rest)) (bs @ [n div 256, n mod 256]) (Some (length bs + 2)))
             else sloppy6Loop (tl rest) (bs @ [n div 256, n mod 256]) ell)
      else if s \<noteq> [] then None else Some (bs, ell))"
  by pat_completeness auto
termination
  by (relation "measure (\<lambda>(s, bs, ell). 16 - length bs)") auto

declare sloppy6Loop.simps [simp del]

text \<open>An address is its sixteen bytes, as a number; an IPv4 address is stored in its mapped form.\<close>

definition sloppy4 :: "string \<Rightarrow> 128 word option" where
  "sloppy4 s = map_option (\<lambda>p. of_nat (be_nat (replicate 10 0 @ [255, 255] @ p))) (sloppy4Loop 4 [] s)"

definition sloppy6 :: "string \<Rightarrow> 128 word option" where
  "sloppy6 s = map_option (\<lambda>bs. of_nat (be_nat bs))
     (if take 2 s = ''::'' then
        (if drop 2 s = [] then Some (replicate 16 0)
         else Option.bind (sloppy6Loop (drop 2 s) [] (Some 0)) expandEllipsis)
      else Option.bind (sloppy6Loop s [] None) expandEllipsis)"

definition ParseIPSloppy :: "string \<Rightarrow> 128 word option" where
  "ParseIPSloppy s = (case find (\<lambda>c. c = CHR ''.'' \<or> c = CHR '':'') s of
      None \<Rightarrow> None
    | Some c \<Rightarrow> if c = CHR ''.'' then sloppy4 s else sloppy6 s)"

text \<open>\<open>To4\<close> is not nil.\<close>

definition is_To4 :: "128 word \<Rightarrow> bool" where
  "is_To4 ip \<longleftrightarrow> drop_bit 32 ip = 0xFFFF"

definition ip_IsUnspecified :: "128 word \<Rightarrow> bool" where
  "ip_IsUnspecified ip \<longleftrightarrow> ip = 0xFFFF00000000 \<or> ip = 0"

section \<open>Agreement with the strict parser\<close>

fun as16 :: "addr \<Rightarrow> 128 word" where
  "as16 (Addr4 w) = of_nat (0xFFFF * 2 ^ 32 + unat w)"
| "as16 (Addr6 w z) = w"
| "as16 AddrZero = 0"

lemma scanHex_xtoi:
  "scanHex acc off s = Some (n, i, rest) \<Longrightarrow> acc \<le> 65535 \<Longrightarrow> xtoiLoop acc off s = Some (n, i, rest) \<and> n \<le> 65535"
  by (induction acc off s rule: scanHex.induct) (auto simp: big_def split: option.splits if_splits)

lemma scanHex_xtoi0: "scanHex 0 0 s = Some (n, i, rest) \<Longrightarrow> i \<noteq> 0 \<Longrightarrow> xtoi s = Some (n, rest) \<and> n \<le> 65535"
  using scanHex_xtoi [of 0 0 s n i rest] by (simp add: xtoi_def)

text \<open>An octet of the strict loop is a number of the lenient one.\<close>

lemma octet_dtoi:
  "parseIPv4Loop prev val digLen fs s = Some gs \<Longrightarrow> val \<le> 255 \<Longrightarrow>
   \<exists>n i rest. dtoiLoop val digLen s = Some (n, i, rest) \<and> digLen \<le> i \<and> n \<le> 255 \<and>
     (rest = [] \<and> 3 \<le> length fs \<and> gs = fs @ [n] \<or>
      (\<exists>rest'. rest = CHR ''.'' # rest' \<and> rest' \<noteq> [] \<and> length fs \<noteq> 3 \<and> parseIPv4Loop (Some (CHR ''.'')) 0 0 (fs @ [n]) rest' = Some gs))"
proof (induction prev val digLen fs s rule: parseIPv4Loop.induct)
  case (2 prev val digLen fs c cs)
  show ?case
  proof (cases "is_dec c")
    case True
    then have "parseIPv4Loop (Some c) (val * 10 + dec_val c) (Suc digLen) fs cs = Some gs" "val * 10 + dec_val c \<le> 255"
      "\<not> (digLen = 1 \<and> val = 0)"
      using 2(3) by (auto split: if_splits)
    with 2(1) [OF True] have "\<exists>n i rest. dtoiLoop (val * 10 + dec_val c) (Suc digLen) cs = Some (n, i, rest) \<and> Suc digLen \<le> i \<and> n \<le> 255 \<and>
     (rest = [] \<and> 3 \<le> length fs \<and> gs = fs @ [n] \<or>
      (\<exists>rest'. rest = CHR ''.'' # rest' \<and> rest' \<noteq> [] \<and> length fs \<noteq> 3 \<and> parseIPv4Loop (Some (CHR ''.'')) 0 0 (fs @ [n]) rest' = Some gs))"
      by auto
    then show ?thesis using True \<open>val * 10 + dec_val c \<le> 255\<close> by (auto simp: big_def dest: Suc_leD)
  next
    case False
    then show ?thesis using 2(3,4) by (auto split: if_splits)
  qed
qed (auto split: if_splits)

lemma octet_digit: "parseIPv4Loop prev 0 0 fs s = Some gs \<Longrightarrow> prev = None \<or> prev = Some (CHR ''.'') \<Longrightarrow> s \<noteq> [] \<Longrightarrow> is_dec (hd s)"
  by (cases s) (auto split: if_splits)

lemma dtoiLoop_le: "dtoiLoop n i s = Some (m, j, rest) \<Longrightarrow> i \<le> j"
  by (induction n i s rule: dtoiLoop.induct) (auto split: if_splits)

lemma dtoiLoop_digit: "dtoiLoop n i s = Some (m, j, rest) \<Longrightarrow> s \<noteq> [] \<Longrightarrow> is_dec (hd s) \<Longrightarrow> i < j"
  by (cases s) (auto split: if_splits dest: dtoiLoop_le)

lemma sloppy4Loop_extends:
  "parseIPv4Loop prev 0 0 p s = Some gs \<Longrightarrow> prev = None \<or> prev = Some (CHR ''.'') \<Longrightarrow> s \<noteq> [] \<Longrightarrow> length p + Suc k = 4 \<Longrightarrow>
   sloppy4Loop (Suc k) p (if p = [] then s else CHR ''.'' # s) = Some gs"
proof (induction k arbitrary: prev p s)
  case 0
  obtain n i rest where n: "dtoiLoop 0 0 s = Some (n, i, rest)" "n \<le> 255" "rest = []" "gs = p @ [n]"
    using octet_dtoi [OF 0(1)] 0(4) by auto
  have "0 < i" by (rule dtoiLoop_digit [OF n(1) 0(3) octet_digit [OF 0(1-3)]])
  then show ?case using n 0(3,4) by (auto simp: dtoi_def)
next
  case (Suc k)
  obtain n i rest where n: "dtoiLoop 0 0 s = Some (n, i, CHR ''.'' # rest)" "n \<le> 255" "rest \<noteq> []"
    "parseIPv4Loop (Some (CHR ''.'')) 0 0 (p @ [n]) rest = Some gs"
    using octet_dtoi [OF Suc(2)] Suc(5) by auto
  have i: "0 < i" by (rule dtoiLoop_digit [OF n(1) Suc(4) octet_digit [OF Suc(2-4)]])
  have "sloppy4Loop (Suc k) (p @ [n]) (CHR ''.'' # rest) = Some gs"
    using Suc.IH [OF n(4) _ n(3)] Suc(5) by simp
  moreover have "dtoi s = Some (n, CHR ''.'' # rest)" using n(1) i by (simp add: dtoi_def)
  ultimately show ?case using n(2) Suc(4) by (subst sloppy4Loop.simps) (auto simp del: sloppy4Loop.simps)
qed

lemma sloppy4_fields: "parseIPv4Fields s = Some fs \<Longrightarrow> sloppy4Loop 4 [] s = Some fs"
  using sloppy4Loop_extends [of None "[]" s fs 3] by (cases s) (simp_all add: parseIPv4Fields_def eval_nat_numeral)

lemma sloppy6Loop_extends: "parseIPv6Loop s bs ell = Some r \<Longrightarrow> sloppy6Loop s bs ell = Some r"
proof (induction s bs ell rule: parseIPv6Loop.induct)
  case (1 s bs ell)
  show ?case
  proof (cases "length bs < 16")
    case True
    then obtain n i rest where sc: "scanHex 0 0 s = Some (n, i, rest)" "i \<noteq> 0"
      using 1(3) by (subst (asm) parseIPv6Loop.simps) (auto split: option.splits if_splits)
    note x = scanHex_xtoi0 [OF this]
    note IH = 1(1) [OF True sc(1) refl refl sc(2)] 1(2) [OF True sc(1) refl refl sc(2)]
    have "(if rest \<noteq> [] \<and> hd rest = CHR ''.'' then
               (if ell = None \<and> length bs \<noteq> 12 then None
                else if length bs + 4 > 16 then None
                else map_option (\<lambda>f. (bs @ f, ell)) (parseIPv4Fields s))
             else if rest = [] then Some (bs @ [n div 256, n mod 256], ell)
             else if hd rest \<noteq> CHR '':'' then None
             else if tl rest = [] then None
             else if hd (tl rest) = CHR '':'' then
               (if ell \<noteq> None then None
                else if tl (tl rest) = [] then Some (bs @ [n div 256, n mod 256], Some (length bs + 2))
                else parseIPv6Loop (tl (tl rest)) (bs @ [n div 256, n mod 256]) (Some (length bs + 2)))
             else parseIPv6Loop (tl rest) (bs @ [n div 256, n mod 256]) ell) = Some r"
      using 1(3) True sc by (subst (asm) parseIPv6Loop.simps) simp
    then show ?thesis using True x IH
      by (subst sloppy6Loop.simps) (auto simp: sloppy4_fields split: if_splits)
  next
    case False
    then show ?thesis using 1(3) by (subst sloppy6Loop.simps, subst (asm) parseIPv6Loop.simps) auto
  qed
qed

lemma sloppy6_extends: "parseIPv6NoZone s = Some bs \<Longrightarrow> sloppy6 s = Some (of_nat (be_nat bs))"
  by (auto simp: parseIPv6NoZone_def sloppy6_def bind_eq_Some_conv split: if_splits dest!: sloppy6Loop_extends)

lemma foldl_be: "foldl (\<lambda>a b. a * 256 + b) (a :: nat) fs = a * 256 ^ length fs + be_nat fs"
proof (induction fs rule: rev_induct)
  case (snoc x xs)
  then show ?case by (simp add: be_nat_def algebra_simps)
qed (simp add: be_nat_def)

lemma be_nat_mapped: "be_nat (replicate 10 0 @ [255, 255] @ fs) = 0xFFFF * 256 ^ length fs + be_nat fs"
proof -
  have "foldl (\<lambda>a b. a * 256 + b) 0 (replicate k 0) = (0::nat)" for k by (induction k) auto
  then have "foldl (\<lambda>a b. a * 256 + b) 0 (replicate 10 0 @ [255, 255]) = (0xFFFF::nat)" by simp
  then show ?thesis using foldl_be [of "0xFFFF" fs] by (simp add: be_nat_def)
qed

lemma parseIPv4Loop_octets:
  "parseIPv4Loop prev val digLen fs s = Some gs \<Longrightarrow> val \<le> 255 \<Longrightarrow> \<forall>x\<in>set fs. x \<le> 255 \<Longrightarrow> length fs \<le> 3 \<Longrightarrow>
   length gs = 4 \<and> (\<forall>x\<in>set gs. x \<le> 255)"
proof (induction prev val digLen fs s rule: parseIPv4Loop.induct)
  case (2 prev val digLen fs c cs)
  show ?case
  proof (cases "is_dec c")
    case True
    then have "parseIPv4Loop (Some c) (val * 10 + dec_val c) (Suc digLen) fs cs = Some gs" "val * 10 + dec_val c \<le> 255"
      "\<not> (digLen = 1 \<and> val = 0)"
      using 2(3) by (auto split: if_splits)
    then show ?thesis using 2(1) [OF True] 2(5,6) by simp
  next
    case False
    then have "c = CHR ''.''" "\<not> (prev = None \<or> cs = [] \<or> prev = Some (CHR ''.''))" "length fs \<noteq> 3"
      "parseIPv4Loop (Some c) 0 0 (fs @ [val]) cs = Some gs"
      using 2(3) by (auto split: if_splits)
    then show ?thesis using 2(2) [OF False] 2(4-6) by simp
  qed
qed (auto split: if_splits)

lemma be_nat_4:
  assumes "length gs = 4" "\<forall>x\<in>set gs. x \<le> 255"
  shows "be_nat gs < 4294967296"
proof -
  obtain a b c d where gs: "gs = [a, b, c, d]" using assms(1) by (auto simp: eval_nat_numeral length_Suc_conv)
  show ?thesis using assms(2) unfolding gs be_nat_def by simp
qed

lemma find_dot_colon:
  "find (\<lambda>c. c = CHR ''.'' \<or> c = CHR '':'' \<or> c = CHR ''%'') s = Some c \<Longrightarrow> c \<noteq> CHR ''%'' \<Longrightarrow>
   find (\<lambda>c. c = CHR ''.'' \<or> c = CHR '':'') s = Some c"
  by (induction s) (auto split: if_splits)

text \<open>The lenient parser accepts every text without a zone that the strict one accepts, with the same address.\<close>

lemma ParseIPSloppy_extends:
  assumes "ParseAddr s = Some a" "\<not> hasZone a"
  shows "ParseIPSloppy s = Some (as16 a)"
proof -
  obtain c where c: "find (\<lambda>c. c = CHR ''.'' \<or> c = CHR '':'' \<or> c = CHR ''%'') s = Some c" "c \<noteq> CHR ''%''"
    and p: "(if c = CHR ''.'' then parseIPv4 s else parseIPv6 s) = Some a"
    using assms(1) by (auto simp: ParseAddr_def split: option.splits if_splits)
  note f = find_dot_colon [OF c]
  show ?thesis
  proof (cases "c = CHR ''.''")
    case True
    then obtain fs where fs: "parseIPv4Fields s = Some fs" "a = Addr4 (of_nat (be_nat fs))"
      using p by (auto simp: parseIPv4_def)
    then have "length fs = 4 \<and> (\<forall>x\<in>set fs. x \<le> 255)"
      using parseIPv4Loop_octets [of None 0 0 "[]" s fs] by (simp add: parseIPv4Fields_def)
    then have "unat (of_nat (be_nat fs) :: 32 word) = be_nat fs" "length fs = 4"
      using be_nat_4 [of fs] by (simp_all add: unat_of_nat take_bit_nat_eq_self_iff)
    then show ?thesis using True f sloppy4_fields [OF fs(1)] fs(2)
      by (simp add: ParseIPSloppy_def sloppy4_def be_nat_mapped [simplified])
  next
    case False
    have "c = CHR '':''" using c False by (auto simp: find_Some_iff)
    have z: "dropWhile (\<lambda>c. c \<noteq> CHR ''%'') s = []"
      using p False assms(2) by (auto simp: parseIPv6_def zone_suffix_def split: list.splits if_splits)
    then have "map_option (\<lambda>bs. Addr6 (of_nat (be_nat bs)) []) (parseIPv6NoZone s) = Some a"
      using p False by (simp only: parseIPv6_def list.case if_False)
    then obtain bs where "parseIPv6NoZone s = Some bs" "a = Addr6 (of_nat (be_nat bs)) []"
      unfolding map_option_eq_Some by blast
    then show ?thesis using False f sloppy6_extends by (simp add: ParseIPSloppy_def)
  qed
qed

lemma ParseIPSloppy_String: "IsValid a \<Longrightarrow> \<not> hasZone a \<Longrightarrow> ParseIPSloppy (addr_String a) = Some (as16 a)"
  by (simp add: ParseIPSloppy_extends ParseAddr_String)

section \<open>Characters\<close>

definition ip_char :: "char \<Rightarrow> bool" where
  "ip_char c \<longleftrightarrow> hex_val c \<noteq> None \<or> c = CHR ''.'' \<or> c = CHR '':''"

lemma is_dec_ip_char: "is_dec c \<Longrightarrow> ip_char c"
  by (simp add: ip_char_def hex_val_def is_dec_def Let_def)

lemma dtoiLoop_chars: "dtoiLoop n i s = Some (m, j, rest) \<Longrightarrow> \<exists>u. s = u @ rest \<and> (\<forall>c\<in>set u. ip_char c)"
proof (induction n i s rule: dtoiLoop.induct)
  case (2 n i c cs)
  show ?case
  proof (cases "is_dec c")
    case True
    then obtain u where "cs = u @ rest" "\<forall>c\<in>set u. ip_char c" using 2 by (auto split: if_splits)
    then show ?thesis using is_dec_ip_char [OF True] by (intro exI [of _ "c # u"]) simp
  qed (use 2(2) in simp)
qed simp

lemma xtoiLoop_chars: "xtoiLoop n i s = Some (m, j, rest) \<Longrightarrow> \<exists>u. s = u @ rest \<and> (\<forall>c\<in>set u. ip_char c)"
proof (induction n i s rule: xtoiLoop.induct)
  case (2 n i c cs)
  show ?case
  proof (cases "hex_val c")
    case (Some d)
    then obtain u where "cs = u @ rest" "\<forall>c\<in>set u. ip_char c" using 2 by (auto split: if_splits)
    then show ?thesis using Some by (intro exI [of _ "c # u"]) (simp add: ip_char_def)
  qed (use 2(2) in simp)
qed simp

lemma dtoi_chars: "dtoi s = Some (m, rest) \<Longrightarrow> \<forall>c\<in>set rest. ip_char c \<Longrightarrow> \<forall>c\<in>set s. ip_char c"
  using dtoiLoop_chars [of 0 0 s m _ rest] by (auto simp: dtoi_def split: option.splits if_splits)

lemma xtoi_chars: "xtoi s = Some (m, rest) \<Longrightarrow> \<forall>c\<in>set rest. ip_char c \<Longrightarrow> \<forall>c\<in>set s. ip_char c"
  using xtoiLoop_chars [of 0 0 s m _ rest] by (auto simp: xtoi_def split: option.splits if_splits)

lemma sloppy4Loop_chars: "sloppy4Loop k p s = Some r \<Longrightarrow> \<forall>c\<in>set s. ip_char c"
proof (induction k p s rule: sloppy4Loop.induct)
  case (2 k p s)
  obtain n rest where n: "dtoi (if p \<noteq> [] then tl s else s) = Some (n, rest)" "\<not> n > 255" "sloppy4Loop k (p @ [n]) rest = Some r"
    and s: "s \<noteq> []" "p \<noteq> [] \<longrightarrow> hd s = CHR ''.''"
    using 2(2) by (auto split: if_splits option.splits)
  then have "\<forall>c\<in>set rest. ip_char c" using 2(1) by (simp split: if_splits)
  from dtoi_chars [OF n(1) this] show ?case using s by (cases s) (auto simp: ip_char_def split: if_splits)
qed (simp split: if_splits)

lemma sloppy6Loop_chars: "sloppy6Loop s bs ell = Some r \<Longrightarrow> \<forall>c\<in>set s. ip_char c"
proof (induction s bs ell rule: sloppy6Loop.induct)
  case (1 s bs ell)
  show ?case
  proof (cases "length bs < 16")
    case True
    then obtain n rest where x: "xtoi s = Some (n, rest)" "\<not> n > 65535"
      using 1(3) by (subst (asm) sloppy6Loop.simps) (auto split: option.splits if_splits)
    note IH = 1(1) [OF True x(1) refl x(2)] 1(2) [OF True x(1) refl x(2)]
    have "(if rest \<noteq> [] \<and> hd rest = CHR ''.'' then
               (if ell = None \<and> length bs \<noteq> 12 then None
                else if length bs + 4 > 16 then None
                else map_option (\<lambda>f. (bs @ f, ell)) (sloppy4Loop 4 [] s))
             else if rest = [] then Some (bs @ [n div 256, n mod 256], ell)
             else if hd rest \<noteq> CHR '':'' \<or> tl rest = [] then None
             else if hd (tl rest) = CHR '':'' then
               (if ell \<noteq> None then None
                else if tl (tl rest) = [] then Some (bs @ [n div 256, n mod 256], Some (length bs + 2))
                else sloppy6Loop (tl (tl rest)) (bs @ [n div 256, n mod 256]) (Some (length bs + 2)))
             else sloppy6Loop (tl rest) (bs @ [n div 256, n mod 256]) ell) = Some r"
      using 1(3) True x by (subst (asm) sloppy6Loop.simps) simp
    then consider "sloppy4Loop 4 [] s \<noteq> None" | "\<forall>c\<in>set rest. ip_char c"
      using IH by (cases rest; cases "tl rest") (auto simp: ip_char_def split: if_splits)
    then show ?thesis using sloppy4Loop_chars [of 4 "[]" s] xtoi_chars [OF x(1)] by cases auto
  next
    case False
    then show ?thesis using 1(3) by (subst (asm) sloppy6Loop.simps) (simp split: if_splits)
  qed
qed

lemma ParseIPSloppy_chars:
  assumes "ParseIPSloppy s = Some w" "c \<in> set s"
  shows "ip_char c"
proof -
  have "\<forall>c\<in>set s. ip_char c" if "take 2 s = ''::''" "\<forall>c\<in>set (drop 2 s). ip_char c"
    using that by (subst append_take_drop_id [of 2, symmetric]) (auto simp del: append_take_drop_id simp: ip_char_def)
  moreover have "sloppy4Loop 4 [] s \<noteq> None \<or> take 2 s = ''::'' \<and> (drop 2 s = [] \<or> sloppy6Loop (drop 2 s) [] (Some 0) \<noteq> None) \<or>
      sloppy6Loop s [] None \<noteq> None"
    using assms(1) by (auto simp: ParseIPSloppy_def sloppy4_def sloppy6_def bind_eq_Some_conv split: option.splits if_splits)
  ultimately have "\<forall>c\<in>set s. ip_char c"
    using sloppy4Loop_chars [of 4 "[]" s] sloppy6Loop_chars [of "drop 2 s"] sloppy6Loop_chars [of s] by auto
  then show ?thesis using assms(2) by blast
qed

end
