(* ===== verification/CloudNode.thy ===== *)
theory CloudNode
  imports Framework Instances VMIController SloppyIP
begin

text \<open>
  The node controller of the framework (\<open>k8s.io/cloud-provider/controllers/node\<close>), the caller of
  \<open>InstanceMetadata\<close>: it initializes a node that carries the taint of an external cloud provider, which
  the VMI controller puts back to ask for a refresh, and writes the addresses of the provider on the
  status of the node.  Log lines, events for users and metrics are left out; the branches for
  providers without \<open>InstancesV2\<close> are not taken, and the instance type and the additional labels of the
  metadata, which this provider never sets, are not part of the model.
\<close>

section \<open>The addresses of the kubelet\<close>

definition ip_IsIPv6 :: "128 word \<Rightarrow> bool" where
  "ip_IsIPv6 ip \<longleftrightarrow> \<not> is_To4 ip"

fun parseNodeIPLoop :: "string list \<Rightarrow> go_error + 128 word list" where
  "parseNodeIPLoop [] = Inr []"
| "parseNodeIPLoop (ip # ips) = (case ParseIPSloppy ip of
     None \<Rightarrow> Inl (Errorf ''could not parse %q'' [FQuote ip])
   | Some w \<Rightarrow> (case parseNodeIPLoop ips of Inl err \<Rightarrow> Inl err | Inr ws \<Rightarrow> Inr (w # ws)))"

text \<open>\<open>parseNodeIP\<close> with \<open>allowDual\<close> set and \<open>sloppy\<close> unset.\<close>

definition ParseNodeIPAnnotation :: "string \<Rightarrow> go_error + 128 word list" where
  "ParseNodeIPAnnotation nodeIP = (case parseNodeIPLoop (split_byte (CHR '','') nodeIP) of
     Inl err \<Rightarrow> Inl err
   | Inr nodeIPs \<Rightarrow>
       if length nodeIPs > 2 \<or> (length nodeIPs = 2 \<and> ip_IsIPv6 (nodeIPs ! 0) = ip_IsIPv6 (nodeIPs ! 1))
       then Inl (Errorf ''must contain either a single IP or a dual-stack pair of IPs'' [])
       else if length nodeIPs = 2 \<and> (ip_IsUnspecified (nodeIPs ! 0) \<or> ip_IsUnspecified (nodeIPs ! 1))
       then Inl (Errorf ''dual-stack node IP cannot include %s'' [FStr ''0.0.0.0 or ::''])
       else Inr nodeIPs)"

definition matchesIP :: "128 word \<Rightarrow> node_address \<Rightarrow> bool" where
  "matchesIP ip a \<longleftrightarrow> ParseIPSloppy (naAddress a) = Some ip"

text \<open>The loop over the node addresses of the kubelet: those found so far, and their types.\<close>

fun enforceLoop :: "node_address list \<Rightarrow> 128 word list \<Rightarrow> node_address list \<Rightarrow> NodeAddressType list \<Rightarrow>
    go_error + node_address list \<times> NodeAddressType list" where
  "enforceLoop as [] enforced types = Inr (enforced, types)"
| "enforceLoop as (ip # ips) enforced types = (let ms = filter (matchesIP ip) as in
     if ms = [] then Inl (Errorf ''failed to get node address from cloud provider that matches ip: %v'' [])
     else enforceLoop as ips (enforced @ ms) (types @ map naType ms))"

definition GetNodeAddressesFromNodeIP :: "string \<Rightarrow> node_address list \<Rightarrow> go_error + node_address list" where
  "GetNodeAddressesFromNodeIP providedNodeIP as = (case ParseNodeIPAnnotation providedNodeIP of
     Inl err \<Rightarrow> Inl (Errorf ''failed to parse node IP %q: %v'' [FQuote providedNodeIP])
   | Inr nodeIPs \<Rightarrow> (case enforceLoop as nodeIPs [] [] of
       Inl err \<Rightarrow> Inl err
     | Inr (enforced, types) \<Rightarrow> Inr (enforced @ filter (\<lambda>a. naType a \<notin> set types) as)))"

definition updateNodeAddressesFromNodeIP :: "node \<Rightarrow> node_address list \<Rightarrow> go_error + node_address list" where
  "updateNodeAddressesFromNodeIP nd as = (case mlookup (nodeAnnotations nd) AnnotationAlphaProvidedIPAddr of
     None \<Rightarrow> Inr as
   | Some providedNodeIP \<Rightarrow> GetNodeAddressesFromNodeIP providedNodeIP as)"

section \<open>Taints and addresses of a node\<close>

definition TaintExternalCloudProvider :: string where
  "TaintExternalCloudProvider = ''node.cloudprovider.kubernetes.io/uninitialized''"

definition getCloudTaint :: "taint list \<Rightarrow> taint option" where
  "getCloudTaint ts = find (\<lambda>t. taintKey t = TaintExternalCloudProvider) ts"

definition excludeCloudTaint :: "taint list \<Rightarrow> taint list" where
  "excludeCloudTaint ts = filter (\<lambda>t. taintKey t \<noteq> TaintExternalCloudProvider) ts"

text \<open>The map from types to addresses keeps the last address of a type; a missing key reads as the empty string.\<close>

definition addressOfType :: "node_address list \<Rightarrow> NodeAddressType \<Rightarrow> string" where
  "addressOfType as ty = (case find (\<lambda>a. naType a = ty) (rev as) of Some a \<Rightarrow> naAddress a | None \<Rightarrow> [])"

definition nodeAddressesChangeDetected :: "node_address list \<Rightarrow> node_address list \<Rightarrow> bool" where
  "nodeAddressesChangeDetected as1 as2 =
     (if length as1 \<noteq> length as2 then True else list_ex (\<lambda>v. addressOfType as1 (naType v) \<noteq> naAddress v) as2)"

section \<open>The controller\<close>

record node_controller =
  ncInstances :: instance_manager
  ncEnv :: fw_env

text \<open>The metadata of a nil pointer would crash the caller; \<open>InstanceMetadata\<close> never returns one without an error.\<close>

definition updateNodeAddress :: "node_controller \<Rightarrow> node_object \<Rightarrow> instance_metadata \<Rightarrow> unit io" where
  "updateNodeAddress c no md =
     (if getCloudTaint (nodeTaints (noNode no)) \<noteq> None then ret ()
      else let as = mdNodeAddresses md in
        if as = [] then ret ()
        else let as1 = (if list_ex (\<lambda>a. naType a = NodeHostName) as then as
                        else as @ filter (\<lambda>a. naType a = NodeHostName) (noAddresses no)) in
          (case updateNodeAddressesFromNodeIP (noNode no) as1 of
             Inl err \<Rightarrow> ret ()
           | Inr as2 \<Rightarrow>
               if \<not> nodeAddressesChangeDetected (noAddresses no) as2 then ret ()
               else do {
                 nodePatchStatus (ncEnv c) (nodeName (noNode no)) as2;
                 ret ()
               }))"

definition getInstanceMetadata :: "node_controller \<Rightarrow> node_object \<Rightarrow> (instance_metadata option \<times> go_error option) io" where
  "getInstanceMetadata c no = do {
     r \<leftarrow> InstanceMetadata (ncInstances c) (noNode no);
     ret (case r of
        (_, Some err) \<Rightarrow> (None, Some err)
      | (Some md, None) \<Rightarrow>
          if mdProviderID md = [] then
            (if noProviderID no = []
             then (Some md, Some (Errorf ''cloud provider does not set node provider ID for node %s'' [FStr (nodeName (noNode no))]))
             else (Some (md\<lparr>mdProviderID := noProviderID no\<rparr>), None))
          else (Some md, None)
      | (None, None) \<Rightarrow> (None, None))
   }"

definition LabelFailureDomainBetaZone :: string where
  "LabelFailureDomainBetaZone = ''failure-domain.beta.kubernetes.io/zone''"

definition LabelFailureDomainBetaRegion :: string where
  "LabelFailureDomainBetaRegion = ''failure-domain.beta.kubernetes.io/region''"

definition setNodeLabels :: "(string \<times> string) list \<Rightarrow> node_object \<Rightarrow> node_object" where
  "setNodeLabels kvs no = no\<lparr>noNode := (noNode no)\<lparr>nodeLabels :=
     fold (\<lambda>(k, v) m. mset_key k v m) kvs (made (nodeLabels (noNode no)))\<rparr>\<rparr>"

definition getNodeModifiersFromCloudProvider ::
  "node_object \<Rightarrow> instance_metadata \<Rightarrow> go_error + (node_object \<Rightarrow> node_object) list" where
  "getNodeModifiersFromCloudProvider no md =
     (let providerID = (if noProviderID no = [] \<and> mdProviderID md \<noteq> [] then [\<lambda>n. n\<lparr>noProviderID := mdProviderID md\<rparr>] else []);
          zone = (if mdZone md \<noteq> [] then [setNodeLabels [(LabelFailureDomainBetaZone, mdZone md), (LabelTopologyZone, mdZone md)]] else []);
          region = (if mdRegion md \<noteq> []
            then [setNodeLabels [(LabelFailureDomainBetaRegion, mdRegion md), (LabelTopologyRegion, mdRegion md)]] else [])
      in case updateNodeAddressesFromNodeIP (noNode no) (mdNodeAddresses md) of
           Inl err \<Rightarrow> Inl (Wrapf ''provided node ip for node %q is not valid: %w'' [FQuote (nodeName (noNode no))] err)
         | Inr _ \<Rightarrow> Inr (providerID @ zone @ region))"

definition removeCloudTaint :: "node_object \<Rightarrow> node_object" where
  "removeCloudTaint no = no\<lparr>noNode := (noNode no)\<lparr>nodeTaints := excludeCloudTaint (nodeTaints (noNode no))\<rparr>\<rparr>"

definition initAttempt ::
  "node_controller \<Rightarrow> string \<Rightarrow> (node_object \<Rightarrow> node_object) list \<Rightarrow> instance_metadata \<Rightarrow> unit \<Rightarrow> (go_error option \<times> unit) io" where
  "initAttempt c name modifiers md u = do {
     r \<leftarrow> nodeListerGet (ncEnv c) name;
     (case r of
        Fail err _ \<Rightarrow> ret (Some err, ())
      | Ok curNode \<Rightarrow> do {
          let newNode = fold (\<lambda>f n. f n) modifiers curNode;
          w \<leftarrow> nodeUpdate (ncEnv c) newNode;
          (case w of
             Fail err _ \<Rightarrow> ret (Some err, ())
           | Ok _ \<Rightarrow> do {
               updateNodeAddress c newNode md;
               ret (None, ())
             })
        })
   }"

definition UpdateNodeSpecSteps :: nat where "UpdateNodeSpecSteps = 20"

subsection \<open>Labels\<close>

definition LabelInstanceType :: string where "LabelInstanceType = ''beta.kubernetes.io/instance-type''"
definition LabelInstanceTypeStable :: string where "LabelInstanceTypeStable = ''node.kubernetes.io/instance-type''"

text \<open>Primary key, secondary key, whether to create the secondary one.\<close>

definition labelReconcileInfo :: "(string \<times> string \<times> bool) list" where
  "labelReconcileInfo = [(LabelFailureDomainBetaZone, LabelTopologyZone, True),
     (LabelFailureDomainBetaRegion, LabelTopologyRegion, True), (LabelInstanceType, LabelInstanceTypeStable, True)]"

fun labelsToUpdate :: "gomap \<Rightarrow> (string \<times> string \<times> bool) list \<Rightarrow> (string \<times> string) list" where
  "labelsToUpdate ls [] = []"
| "labelsToUpdate ls ((primaryKey, secondaryKey, ensureSecondaryExists) # rs) =
     (case mlookup ls primaryKey of
        None \<Rightarrow> labelsToUpdate ls rs
      | Some primaryValue \<Rightarrow>
          (case mlookup ls secondaryKey of
             Some secondaryValue \<Rightarrow>
               if primaryValue \<noteq> secondaryValue then (secondaryKey, primaryValue) # labelsToUpdate ls rs else labelsToUpdate ls rs
           | None \<Rightarrow>
               if ensureSecondaryExists then (secondaryKey, primaryValue) # labelsToUpdate ls rs else labelsToUpdate ls rs))"

definition updateLabelSteps :: nat where "updateLabelSteps = 5"

text \<open>The error of the patch is wrapped as text, so a conflict is not recognized as one.\<close>

definition labelAttempt :: "node_controller \<Rightarrow> string \<Rightarrow> (string \<times> string) list \<Rightarrow> bool \<Rightarrow> (go_error option \<times> bool) io" where
  "labelAttempt c name kvs firstTry = do {
     r \<leftarrow> nodeGet (imClients (ncInstances c)) name firstTry;
     (case r of
        Fail err _ \<Rightarrow> ret (Some err, False)
      | Ok nd \<Rightarrow> do {
          e \<leftarrow> nodePatchLabels (ncEnv c) (nodeName nd) nd (fold (\<lambda>(k, v) m. mset_key k v m) kvs (made (nodeLabels nd)));
          ret (case e of Some err \<Rightarrow> Some (Errorf ''failed to patch the node: %v'' []) | None \<Rightarrow> None, False)
        })
   }"

definition reconcileNodeLabels :: "node_controller \<Rightarrow> string \<Rightarrow> go_error option io" where
  "reconcileNodeLabels c name = do {
     r \<leftarrow> nodeListerGet (ncEnv c) name;
     (case r of
        Fail err _ \<Rightarrow> ret (if IsNotFound err then None else Some err)
      | Ok no \<Rightarrow>
          if nodeLabels (noNode no) = None then ret None
          else let kvs = labelsToUpdate (nodeLabels (noNode no)) labelReconcileInfo in
            if kvs = [] then ret None
            else do {
              e \<leftarrow> RetryOnConflict updateLabelSteps (labelAttempt c (nodeName (noNode no)) kvs) True;
              ret (case e of Some _ \<Rightarrow> Some (Errorf ''failed update labels for node %+v'' []) | None \<Rightarrow> None)
            })
   }"

subsection \<open>Synchronizing a node\<close>

definition syncNode :: "node_controller \<Rightarrow> string \<Rightarrow> go_error option io" where
  "syncNode c name = do {
     r \<leftarrow> nodeListerGet (ncEnv c) name;
     (case r of
        Fail err _ \<Rightarrow> ret (if IsNotFound err then None else Some err)
      | Ok curNode \<Rightarrow>
          if getCloudTaint (nodeTaints (noNode curNode)) = None then reconcileNodeLabels c name
          else do {
            m \<leftarrow> getInstanceMetadata c curNode;
            (case m of
               (_, Some err) \<Rightarrow> ret (Some (Errorf ''failed to get instance metadata for node %s: %v'' [FStr name]))
             | (None, None) \<Rightarrow> ret None
             | (Some md, None) \<Rightarrow>
                 (case getNodeModifiersFromCloudProvider curNode md of
                    Inl err \<Rightarrow> ret (Some (Errorf ''failed to get node modifiers from cloud provider: %v'' []))
                  | Inr modifiers \<Rightarrow>
                      RetryOnConflict UpdateNodeSpecSteps (initAttempt c name (modifiers @ [removeCloudTaint]) md) ()))
          })
   }"

text \<open>The workers take the nodes in any order; here it is that of the list.\<close>

definition updateNodeStatus1 :: "node_controller \<Rightarrow> node_object \<Rightarrow> unit io" where
  "updateNodeStatus1 c no =
     (if getCloudTaint (nodeTaints (noNode no)) \<noteq> None then ret ()
      else do {
        r \<leftarrow> InstanceMetadata (ncInstances c) (noNode no);
        (case r of
           (Some md, None) \<Rightarrow> updateNodeAddress c no md
         | _ \<Rightarrow> ret ())
      })"

fun updateNodesLoop :: "node_controller \<Rightarrow> node_object list \<Rightarrow> unit io" where
  "updateNodesLoop c [] = ret ()"
| "updateNodesLoop c (no # nos) = do {
     updateNodeStatus1 c no;
     updateNodesLoop c nos
   }"

definition UpdateNodeStatus :: "node_controller \<Rightarrow> go_error option io" where
  "UpdateNodeStatus c = do {
     r \<leftarrow> nodeListerList (ncEnv c);
     (case r of
        Fail err _ \<Rightarrow> ret (Some err)
      | Ok nodes \<Rightarrow> do {
          updateNodesLoop c nodes;
          ret None
        })
   }"

section \<open>Enforcing the address of the kubelet\<close>

lemma enforceLoop_Inr:
  "enforceLoop as ips enf ts = Inr (enf', ts') \<longleftrightarrow>
   (\<forall>ip\<in>set ips. \<exists>a\<in>set as. matchesIP ip a) \<and> enf' = enf @ concat (map (\<lambda>ip. filter (matchesIP ip) as) ips) \<and>
   ts' = ts @ concat (map (\<lambda>ip. map naType (filter (matchesIP ip) as)) ips)"
  by (induction as ips enf ts rule: enforceLoop.induct) (auto simp: Let_def filter_empty_conv)

lemma enforced_eq:
  assumes "ParseNodeIPAnnotation ip = Inr ips"
  shows "GetNodeAddressesFromNodeIP ip as = Inr as2 \<longleftrightarrow>
    (\<forall>w\<in>set ips. \<exists>a\<in>set as. matchesIP w a) \<and>
    as2 = concat (map (\<lambda>w. filter (matchesIP w) as) ips) @ filter (\<lambda>a. \<nexists>b. b \<in> set as \<and> naType b = naType a \<and> (\<exists>w\<in>set ips. matchesIP w b)) as"
proof -
  let ?ts = "concat (map (\<lambda>w. map naType (filter (matchesIP w) as)) ips)"
  have ts: "filter (\<lambda>a. naType a \<notin> set ?ts) as =
      filter (\<lambda>a. \<nexists>b. b \<in> set as \<and> naType b = naType a \<and> (\<exists>w\<in>set ips. matchesIP w b)) as"
  proof (rule filter_cong [OF refl])
    have "set ?ts = {t. \<exists>b. b \<in> set as \<and> naType b = t \<and> (\<exists>w\<in>set ips. matchesIP w b)}" by (auto simp: image_iff)
    then show "(naType x \<notin> set ?ts) = (\<nexists>b. b \<in> set as \<and> naType b = naType x \<and> (\<exists>w\<in>set ips. matchesIP w b))" for x by blast
  qed
  show ?thesis
  proof (cases "\<forall>w\<in>set ips. \<exists>a\<in>set as. matchesIP w a")
    case True
    then have "enforceLoop as ips [] [] = Inr (concat (map (\<lambda>w. filter (matchesIP w) as) ips), ?ts)"
      by (simp add: enforceLoop_Inr)
    then show ?thesis using assms True ts by (auto simp: GetNodeAddressesFromNodeIP_def)
  next
    case False
    then have "\<exists>e. enforceLoop as ips [] [] = Inl e"
      using enforceLoop_Inr [of as ips "[]" "[]"] by (cases "enforceLoop as ips [] []") auto
    then show ?thesis using assms False by (auto simp: GetNodeAddressesFromNodeIP_def)
  qed
qed

lemma GetNodeAddressesFromNodeIP_parsed: "GetNodeAddressesFromNodeIP ip as = Inr as2 \<Longrightarrow> \<exists>ips. ParseNodeIPAnnotation ip = Inr ips"
  by (auto simp: GetNodeAddressesFromNodeIP_def split: sum.splits)

lemma enforced_subset: "updateNodeAddressesFromNodeIP nd as = Inr as2 \<Longrightarrow> set as2 \<subseteq> set as"
  using GetNodeAddressesFromNodeIP_parsed enforced_eq
  by (fastforce simp: updateNodeAddressesFromNodeIP_def split: option.splits)

lemma split_byte_mem: "x \<in> set s \<Longrightarrow> x \<noteq> c \<Longrightarrow> \<exists>p\<in>set (split_byte c s). x \<in> set p"
  by (induction c s rule: split_byte.induct) (auto split: list.splits)

lemma annotation_chars:
  assumes "ParseNodeIPAnnotation ip = Inr ips" "c \<in> set ip"
  shows "c = CHR '','' \<or> ip_char c"
proof -
  have "parseNodeIPLoop ps = Inr ws \<Longrightarrow> \<forall>p\<in>set ps. ParseIPSloppy p \<noteq> None" for ps ws
    by (induction ps arbitrary: ws) (auto split: option.splits sum.splits)
  then have "\<forall>p\<in>set (split_byte (CHR '','') ip). ParseIPSloppy p \<noteq> None"
    using assms(1) by (auto simp: ParseNodeIPAnnotation_def split: sum.splits)
  then show ?thesis using split_byte_mem [OF assms(2)] ParseIPSloppy_chars by fastforce
qed

text \<open>An address without a zone is printed with the characters of addresses only.\<close>

lemma addr_String_chars: "IsValid a \<Longrightarrow> \<not> hasZone a \<Longrightarrow> c \<in> set (addr_String a) \<Longrightarrow> ip_char c"
  using ParseIPSloppy_String ParseIPSloppy_chars by blast

lemma percent_zone: "hasZone a \<Longrightarrow> CHR ''%'' \<in> set (addr_String a)"
  by (cases a) (auto simp: zone_suffix_def)

lemma specials_not_ip [simp]: "\<not> ip_char (CHR ''%'')" "\<not> ip_char (CHR '','')"
  by (simp_all add: ip_char_def hex_val_def)

lemma single_annotation:
  assumes "IsValid x" "\<not> hasZone x"
  shows "ParseNodeIPAnnotation (addr_String x) = Inr [as16 x]"
proof -
  have "CHR '','' \<notin> set (addr_String x)" using addr_String_chars [OF assms] specials_not_ip by blast
  then show ?thesis using ParseIPSloppy_String [OF assms] by (simp add: ParseNodeIPAnnotation_def split_byte_no_sep)
qed

section \<open>Addresses of nodes with an annotation\<close>

text \<open>With a dual-stack annotation, as the kubelet writes it, no address is internal.\<close>

lemma dual_no_internal:
  assumes "\<not> cfgDisableAnnotationAlphaProvidedIPAddr cfg"
    and "mlookup (nodeAnnotations nd) AnnotationAlphaProvidedIPAddr = Some ip" "CHR '','' \<in> set ip"
    and "getNodeAddresses nd (Some v) cfg = Inr as" "ParseNodeIPAnnotation ip = Inr ips" "a \<in> set as"
  shows "naType a \<noteq> NodeInternalIP"
proof
  assume i: "naType a = NodeInternalIP"
  then have ip: "naAddress a = ip" by (rule provided_ip_priority [OF assms(1,2,4,6)])
  obtain x where x: "IsValid x" "naAddress a = addr_String x"
  proof -
    have "a \<noteq> hostNameAddress nd" using i by (auto simp: hostNameAddress_def)
    then obtain xs where "vmi_addrs v cfg = Some xs"
      "a \<in> set (policy_addresses (wanted (node_ctx nd v cfg)) (dropped (node_ctx nd v cfg)) xs)"
      using assms(4,6) by (auto simp: getNodeAddresses_Some split: option.splits)
    then show thesis using that vmi_addrs_valid by (metis policy_addresses_mem)
  qed
  have "CHR ''%'' \<notin> set ip" using annotation_chars [OF assms(5), of "CHR ''%''"] by auto
  then have "\<not> hasZone x" using percent_zone [of x] ip x(2) by auto
  then show False using addr_String_chars [OF x(1), of "CHR '',''"] assms(3) ip x(2) by auto
qed

text \<open>A single address, written as the provider writes it: it is the one internal address.\<close>

lemma provided_internal:
  assumes "\<not> cfgDisableAnnotationAlphaProvidedIPAddr cfg"
    and "mlookup (nodeAnnotations nd) AnnotationAlphaProvidedIPAddr = Some (addr_String x)" "vmi_addrs v cfg = Some xs" "x \<in> set xs"
    and "getNodeAddresses nd (Some v) cfg = Inr as"
  shows "filter (\<lambda>a. naType a = NodeInternalIP) as = [\<lparr>naType = NodeInternalIP, naAddress = addr_String x\<rparr>]"
proof -
  let ?w = "\<lambda>y. addr_String y = addr_String x" and ?I = "\<lambda>a. naType a = NodeInternalIP"
  have w: "wanted (node_ctx nd v cfg) = ?w"
    using assms(1,2) by (auto simp: fun_eq_iff wanted_def node_ctx_def buildIPAddressProcessContext_def
        getLegacyModeRelatedParams_def Let_def)
  have inj: "y \<in> set xs \<Longrightarrow> ?w y \<Longrightarrow> y = x" for y
    using ParseAddr_String vmi_addrs_valid [OF assms(3)] assms(4) by (metis option.inject)
  obtain i where i: "i < length xs" "xs ! i = x" "\<forall>j<i. xs ! j \<noteq> x"
  proof -
    obtain k where "k < length xs \<and> xs ! k = x" using assms(4) by (auto simp: in_set_conv_nth)
    from ex_least_nat_le [of "\<lambda>i. i < length xs \<and> xs ! i = x", OF this]
    obtain l where l: "l < length xs" "xs ! l = x" "\<forall>j<l. \<not> (j < length xs \<and> xs ! j = x)" by blast
    then have "\<forall>j<l. xs ! j \<noteq> x" by simp
    then show thesis by (rule that [OF l(1,2)])
  qed
  have ty: "policy_type ?w xs j = NodeInternalIP \<longleftrightarrow> j = i" if "j < length xs" for j
  proof -
    have at: "?w (xs ! k) \<longleftrightarrow> xs ! k = x" if "k < length xs" for k using inj [of "xs ! k"] nth_mem [OF that] by auto
    have "policy_type ?w xs j = NodeInternalIP \<longleftrightarrow> xs ! j = x \<and> (\<forall>k<j. xs ! k = x \<longrightarrow> Is4 (xs ! k) \<noteq> Is4 (xs ! j))"
      unfolding policy_type_internal using at that by auto
    then show ?thesis using i by (cases i j rule: linorder_cases) auto
  qed
  have as: "as = policy_addresses ?w (dropped (node_ctx nd v cfg)) xs @ [hostNameAddress nd]"
    using assms(3,5) w by (simp add: getNodeAddresses_Some)
  have "filter ?I (policy_addresses ?w d xs) = [\<lparr>naType = NodeInternalIP, naAddress = addr_String x\<rparr>]" for d
  proof -
    have "filter ?I (policy_addresses ?w d xs) =
        map (\<lambda>j. \<lparr>naType = policy_type ?w xs j, naAddress = addr_String (xs ! j)\<rparr>) (filter (\<lambda>j. j = i) [0..<length xs])"
      unfolding policy_addresses_def filter_map filter_filter o_def
      by (rule arg_cong [where f = "map _"], rule filter_cong) (auto simp: ty)
    moreover have "filter (\<lambda>j. j = i) [0..<length xs] = [i]"
      using i(1) by (induction xs rule: rev_induct) (auto simp: less_Suc_eq)
    ultimately show ?thesis using ty [OF i(1)] i(2) by simp
  qed
  then show ?thesis by (simp add: as hostNameAddress_def)
qed

section \<open>Runs of the controller\<close>

lemma appends_node_reads [simp]:
  "appends (updateNodeAddress c no md)" "appends (InstanceMetadata i nd)" "appends (getInstanceMetadata c no)"
  "appends (initAttempt c name ms md u)" "appends (labelAttempt c name kvs b)"
  by (simp_all add: updateNodeAddress_def InstanceMetadata_def getInstanceMetadata_def initAttempt_def labelAttempt_def Let_def)

interpretation init_retry: retried "initAttempt c name ms md" for c name ms md
  by unfold_locales simp

interpretation label_retry: retried "labelAttempt c name kvs" for c name kvs
  by unfold_locales simp

lemma appends_syncNode [simp]: "appends (reconcileNodeLabels c name)" "appends (syncNode c name)" "appends (updateNodeStatus1 c no)"
  by (simp_all add: reconcileNodeLabels_def syncNode_def updateNodeStatus1_def Let_def)

lemma read_only_metadata: "read_only (trace_of (getInstanceMetadata c no) h)"
  by (simp add: getInstanceMetadata_def InstanceMetadata_def Let_def split: resp.split)

lemma getCloudTaint_exclude [simp]: "getCloudTaint (excludeCloudTaint ts) = None"
  by (simp add: getCloudTaint_def excludeCloudTaint_def find_None_iff)

lemma getCloudTaint_resync: "resyncTaint \<in> set ts \<Longrightarrow> getCloudTaint ts \<noteq> None"
  by (auto simp: getCloudTaint_def find_None_iff resyncTaint_def TaintExternalCloudProvider_def)

lemma setNodeLabels_keeps [simp]:
  "nodeName (noNode (setNodeLabels kvs no)) = nodeName (noNode no)" "nodeAnnotations (noNode (setNodeLabels kvs no)) = nodeAnnotations (noNode no)"
  "noAddresses (setNodeLabels kvs no) = noAddresses no" "noProviderID (setNodeLabels kvs no) = noProviderID no"
  "nodeTaints (noNode (setNodeLabels kvs no)) = nodeTaints (noNode no)"
  by (simp_all add: setNodeLabels_def)

lemma removeCloudTaint_keeps [simp]:
  "nodeName (noNode (removeCloudTaint no)) = nodeName (noNode no)" "nodeAnnotations (noNode (removeCloudTaint no)) = nodeAnnotations (noNode no)"
  "noAddresses (removeCloudTaint no) = noAddresses no" "noProviderID (removeCloudTaint no) = noProviderID no"
  "nodeTaints (noNode (removeCloudTaint no)) = excludeCloudTaint (nodeTaints (noNode no))"
  by (simp_all add: removeCloudTaint_def)

text \<open>The node the modifiers make of the one they were made for.\<close>

lemma modified_node:
  assumes "getNodeModifiersFromCloudProvider no md = Inr ms" "new = fold (\<lambda>f n. f n) (ms @ [removeCloudTaint]) no"
  shows "nodeName (noNode new) = nodeName (noNode no)" "nodeAnnotations (noNode new) = nodeAnnotations (noNode no)"
    "noAddresses new = noAddresses no" "noProviderID new = (if noProviderID no = [] then mdProviderID md else noProviderID no)"
    "nodeTaints (noNode new) = excludeCloudTaint (nodeTaints (noNode no))"
  using assms by (auto simp: getNodeModifiersFromCloudProvider_def Let_def split: sum.splits)

lemma updateNodeAddressesFromNodeIP_cong:
  "nodeAnnotations nd = nodeAnnotations nd' \<Longrightarrow> updateNodeAddressesFromNodeIP nd as = updateNodeAddressesFromNodeIP nd' as"
  by (simp add: updateNodeAddressesFromNodeIP_def)

text \<open>Writing the addresses of the provider, which always have a host name.\<close>

lemma updateNodeAddress_patches:
  assumes "getCloudTaint (nodeTaints (noNode no)) = None" "mdNodeAddresses md = as" "list_ex (\<lambda>a. naType a = NodeHostName) as"
    and "updateNodeAddressesFromNodeIP (noNode no) as = Inr as2" "nodeAddressesChangeDetected (noAddresses no) as2"
  shows "\<exists>r. trace_of (updateNodeAddress c no md) h = [FwNodePatchStatus (nodeName (noNode no)) as2 r]"
proof -
  have "as \<noteq> []" using assms(3) by auto
  then show ?thesis using assms by (simp add: updateNodeAddress_def Let_def)
qed

lemma metadata_found:
  assumes "vm_answer i h nd = Ok v"
    and "envVmiGet (imClients i) (h @ [VmGet (imNamespace i) (vm_of_node h nd) (Ok v)]) (imNamespace i) (vmName v) = Ok vi"
    and "getNodeAddresses nd (Some vi) (imConfig i) = Inr as"
  shows "\<exists>md. result_of (InstanceMetadata i nd) h = (Some md, None) \<and> mdProviderID md = ''harvester://'' @ vmUID v \<and> mdNodeAddresses md = as"
  using InstanceMetadata_found [OF assms(1,2)] assms(3) by auto

lemma hostname_in_addresses: "getNodeAddresses nd (Some vi) cfg = Inr as \<Longrightarrow> list_ex (\<lambda>a. naType a = NodeHostName) as"
  by (auto simp: getNodeAddresses_Some hostNameAddress_def split: option.splits)

section \<open>Properties\<close>

text \<open>C26: A refresh that is asked for is served.  A node with the taint the VMI controller puts on it, whose
  machine and instance are found and whose address annotation, if any, is met by the provider's addresses,
  is updated without the taint and with the provider id of the machine, and the addresses of the
  provider, adjusted to the annotation, are written on its status when they differ.\<close>

theorem refresh_served:
  assumes "\<And>h. fwNodeGet (ncEnv c) h name = Ok no" "\<And>h n. fwNodeUpdate (ncEnv c) h n = Ok n"
    and "resyncTaint \<in> set (nodeTaints (noNode no))" "h1 = h @ [FwNodeGet name (Ok no)]" "nd = noNode no" "i = ncInstances c"
    and "envVmGet (imClients i) h1 (imNamespace i) (vm_of_node h1 nd) = Ok v"
    and "envVmiGet (imClients i) (h1 @ [VmGet (imNamespace i) (vm_of_node h1 nd) (Ok v)]) (imNamespace i) (vmName v) = Ok vi"
    and "getNodeAddresses nd (Some vi) (imConfig i) = Inr as" "updateNodeAddressesFromNodeIP nd as = Inr as2"
    and "nodeAddressesChangeDetected (noAddresses no) as2"
  shows "result_of (syncNode c name) h = None \<and>
    (\<exists>new. FwNodeUpdate new (Ok new) \<in> set (trace_of (syncNode c name) h) \<and> getCloudTaint (nodeTaints (noNode new)) = None \<and>
       noProviderID new = (if noProviderID no = [] then ''harvester://'' @ vmUID v else noProviderID no)) \<and>
    (\<exists>r. FwNodePatchStatus (nodeName nd) as2 r \<in> set (trace_of (syncNode c name) h))"
proof -
  obtain md where md: "result_of (InstanceMetadata i nd) h1 = (Some md, None)" "mdProviderID md = ''harvester://'' @ vmUID v" "mdNodeAddresses md = as"
    using metadata_found [OF assms(7-9)] by blast
  have meta: "result_of (getInstanceMetadata c no) h1 = (Some md, None)"
    using md assms(5,6) by (simp add: getInstanceMetadata_def)
  obtain ms where ms: "getNodeModifiersFromCloudProvider no md = Inr ms"
    using assms(5,10) md(3) by (simp add: getNodeModifiersFromCloudProvider_def Let_def)
  define new where "new = fold (\<lambda>f n. f n) (ms @ [removeCloudTaint]) no"
  note new = modified_node [OF ms new_def]
  have eq: "removeCloudTaint (fold (\<lambda>f. f) ms no) = new" by (simp add: new_def)
  let ?A = "initAttempt c name (ms @ [removeCloudTaint]) md ()"
  have "updateNodeAddressesFromNodeIP (noNode new) as = Inr as2"
    using assms(5,10) new(2) updateNodeAddressesFromNodeIP_cong by metis
  then have p: "\<exists>r. trace_of (updateNodeAddress c new md) h' = [FwNodePatchStatus (nodeName nd) as2 r]" for h'
    using updateNodeAddress_patches [of new md as as2 c h'] md(3) hostname_in_addresses [OF assms(9)] assms(5,11) new by simp
  have a: "result_of ?A h' = (None, ())" "FwNodeUpdate new (Ok new) \<in> set (trace_of ?A h')"
    "\<exists>r. FwNodePatchStatus (nodeName nd) as2 r \<in> set (trace_of ?A h')" for h'
    using p [of "h' @ [FwNodeGet name (Ok no), FwNodeUpdate new (Ok new)]"] assms(1,2)
    by (auto simp: initAttempt_def eq Let_def)
  note retry = init_retry.retry_no_conflict [OF a(1), of UpdateNodeSpecSteps]
  obtain t where ok: "getCloudTaint (nodeTaints (noNode no)) = Some t" using getCloudTaint_resync [OF assms(3)] by blast
  have "result_of (syncNode c name) h = None"
    using assms(1,4) ok meta ms retry(1) by (simp add: syncNode_def UpdateNodeSpecSteps_def)
  moreover have "set (trace_of ?A (h1 @ trace_of (getInstanceMetadata c no) h1)) \<subseteq> set (trace_of (syncNode c name) h)"
    using assms(1,4) ok meta ms retry(2) by (auto simp: syncNode_def UpdateNodeSpecSteps_def)
  ultimately show ?thesis using a(2,3) new(4,5) md(2) getCloudTaint_exclude by (metis (no_types, lifting) subsetD)
qed

text \<open>C27: With the provided-node-ip annotation in use, a single address that the machine reports, written as
  the provider writes it, passes the check of the framework and ends up as the one internal address of
  the node.\<close>

theorem provided_node_ip_enforced:
  assumes "\<not> cfgDisableAnnotationAlphaProvidedIPAddr cfg"
    and "mlookup (nodeAnnotations nd) AnnotationAlphaProvidedIPAddr = Some (addr_String x)" "vmi_addrs v cfg = Some xs" "x \<in> set xs"
    and "\<not> hasZone x" "getNodeAddresses nd (Some v) cfg = Inr as"
  shows "\<exists>as2. updateNodeAddressesFromNodeIP nd as = Inr as2 \<and>
    filter (\<lambda>a. naType a = NodeInternalIP) as2 = [\<lparr>naType = NodeInternalIP, naAddress = addr_String x\<rparr>]"
proof -
  let ?I = "\<lambda>a. naType a = NodeInternalIP" and ?a = "\<lparr>naType = NodeInternalIP, naAddress = addr_String x\<rparr>" and ?m = "matchesIP (as16 x)"
  have x: "IsValid x" by (rule vmi_addrs_valid [OF assms(3,4)])
  note int = provided_internal [OF assms(1-4,6)]
  have m: "?m ?a" using ParseIPSloppy_String [OF x assms(5)] by (simp add: matchesIP_def)
  have "?a \<in> set (filter ?I as)" unfolding int by simp
  then have a: "?a \<in> set as" by simp
  have "filter ?I (filter ?m as) = filter ?m (filter ?I as)" by (simp add: conj_commute)
  then have 1: "filter ?I (filter ?m as) = [?a]" using int m by simp
  have 2: "filter ?I (filter (\<lambda>a. \<nexists>b. b \<in> set as \<and> naType b = naType a \<and> (\<exists>w\<in>set [as16 x]. matchesIP w b)) as) = []"
    using a m by (auto simp: filter_empty_conv)
  let ?as2 = "filter ?m as @ filter (\<lambda>a. \<nexists>b. b \<in> set as \<and> naType b = naType a \<and> (\<exists>w\<in>set [as16 x]. matchesIP w b)) as"
  have "updateNodeAddressesFromNodeIP nd as = Inr ?as2"
    using enforced_eq [OF single_annotation [OF x assms(5)], of as ?as2] assms(2) a m
    by (auto simp: updateNodeAddressesFromNodeIP_def)
  then show ?thesis using 1 2 by auto
qed

text \<open>C28: With the dual-stack form of the annotation, two addresses with a comma, which the kubelet writes and the
  framework understands, the node gets no internal address at all: the provider compares the whole
  text with each address.\<close>

theorem dual_stack_no_internal:
  assumes "\<not> cfgDisableAnnotationAlphaProvidedIPAddr cfg"
    and "mlookup (nodeAnnotations nd) AnnotationAlphaProvidedIPAddr = Some ip" "CHR '','' \<in> set ip"
    and "getNodeAddresses nd (Some v) cfg = Inr as" "updateNodeAddressesFromNodeIP nd as = Inr as2"
  shows "filter (\<lambda>a. naType a = NodeInternalIP) as2 = []"
proof -
  have "GetNodeAddressesFromNodeIP ip as = Inr as2" using assms(2,5) by (simp add: updateNodeAddressesFromNodeIP_def)
  then obtain ips where "ParseNodeIPAnnotation ip = Inr ips" using GetNodeAddressesFromNodeIP_parsed by blast
  then show ?thesis using dual_no_internal [OF assms(1-4)] enforced_subset [OF assms(5)] by (auto simp: filter_empty_conv)
qed

text \<open>C29: A node whose annotation names an address that is not among those of the provider is never
  initialized: every synchronization fails before any write, so the node keeps its taint.  The flag that
  disables the annotation in the provider does not disable this check.\<close>

theorem provided_ip_missing_blocks_node:
  assumes "fwNodeGet (ncEnv c) h name = Ok no" "getCloudTaint (nodeTaints (noNode no)) \<noteq> None" "h1 = h @ [FwNodeGet name (Ok no)]"
    and "mlookup (nodeAnnotations (noNode no)) AnnotationAlphaProvidedIPAddr = Some ip" "ParseNodeIPAnnotation ip = Inr ips" "w \<in> set ips"
    and "result_of (InstanceMetadata (ncInstances c) (noNode no)) h1 = (Some md, None)"
    and "\<not> list_ex (matchesIP w) (mdNodeAddresses md)"
  shows "result_of (syncNode c name) h \<noteq> None \<and> read_only (trace_of (syncNode c name) h)"
proof -
  let ?m = "getInstanceMetadata c no"
  have "\<not> (\<forall>w\<in>set ips. \<exists>a\<in>set (mdNodeAddresses md). matchesIP w a)" using assms(6,8) by (auto simp: list_ex_iff)
  then have "GetNodeAddressesFromNodeIP ip (mdNodeAddresses md) \<noteq> Inr as2" for as2
    using enforced_eq [OF assms(5), of "mdNodeAddresses md" as2] by blast
  then obtain err where e: "updateNodeAddressesFromNodeIP (noNode no) (mdNodeAddresses md) = Inl err"
    using assms(4) by (cases "GetNodeAddressesFromNodeIP ip (mdNodeAddresses md)") (auto simp: updateNodeAddressesFromNodeIP_def)
  have mods: "\<exists>err. getNodeModifiersFromCloudProvider no md' = Inl err" if "mdNodeAddresses md' = mdNodeAddresses md" for md'
    using e that by (simp add: getNodeModifiersFromCloudProvider_def Let_def)
  obtain t where t: "getCloudTaint (nodeTaints (noNode no)) = Some t" using assms(2) by blast
  have "(\<exists>x err. result_of ?m h1 = (x, Some err)) \<or> (\<exists>md'. result_of ?m h1 = (Some md', None) \<and> mdNodeAddresses md' = mdNodeAddresses md)"
    using assms(7) by (auto simp: getInstanceMetadata_def)
  then consider x err where "result_of ?m h1 = (x, Some err)"
    | md' err where "result_of ?m h1 = (Some md', None)" "getNodeModifiersFromCloudProvider no md' = Inl err"
    using mods by blast
  then show ?thesis using assms(1,3) t read_only_metadata [of c no h1] by cases (simp_all add: syncNode_def split: option.split)
qed

text \<open>C30: While the machine of an initialized node reports no usable address on its management network, the
  provider answers with the host name alone instead of no addresses or an error; the framework then
  removes all other addresses of the node from its status, the internal one included.\<close>

theorem missing_ips_drop_addresses:
  assumes "getCloudTaint (nodeTaints (noNode no)) = None" "mlookup (nodeAnnotations (noNode no)) AnnotationAlphaProvidedIPAddr = None"
    and "nd = noNode no" "i = ncInstances c" "envVmGet (imClients i) h (imNamespace i) (vm_of_node h nd) = Ok v"
    and "envVmiGet (imClients i) (h @ [VmGet (imNamespace i) (vm_of_node h nd) (Ok v)]) (imNamespace i) (vmName v) = Ok vi"
    and "vmi_addrs vi (imConfig i) = None" "length (noAddresses no) \<noteq> 1"
  shows "\<exists>r. FwNodePatchStatus (nodeName nd) [hostNameAddress nd] r \<in> set (trace_of (updateNodeStatus1 c no) h)"
proof -
  have as: "getNodeAddresses nd (Some vi) (imConfig i) = Inr [hostNameAddress nd]" using assms(7) by (simp add: getNodeAddresses_Some)
  obtain md where md: "result_of (InstanceMetadata i nd) h = (Some md, None)" "mdNodeAddresses md = [hostNameAddress nd]"
    using metadata_found [OF assms(5,6) as] by blast
  have "updateNodeAddressesFromNodeIP (noNode no) [hostNameAddress nd] = Inr [hostNameAddress nd]"
    using assms(2) by (simp add: updateNodeAddressesFromNodeIP_def)
  moreover have "nodeAddressesChangeDetected (noAddresses no) [hostNameAddress nd]" using assms(8) by (simp add: nodeAddressesChangeDetected_def)
  ultimately have "\<exists>r. trace_of (updateNodeAddress c no md) h' = [FwNodePatchStatus (nodeName nd) [hostNameAddress nd] r]" for h'
    using updateNodeAddress_patches [OF assms(1) md(2) hostname_in_addresses [OF as], of "[hostNameAddress nd]" c h'] assms(3) by simp
  from this [of "h @ trace_of (InstanceMetadata i nd) h"] show ?thesis
    using assms(1,3,4) md(1) by (auto simp: updateNodeStatus1_def)
qed

section \<open>Witnesses\<close>

definition annotated_node :: "string \<Rightarrow> node" where
  "annotated_node ip = demo_node\<lparr>nodeAnnotations := Some (fmap_of_list [(AnnotationAlphaProvidedIPAddr, ip)]), nodeTaints := [resyncTaint]\<rparr>"

definition demo_node_object :: "node \<Rightarrow> node_object" where
  "demo_node_object nd = \<lparr>noNode = nd, noProviderID = [], noDeleted = False, noReady = Some ''True'', noAddresses = []\<rparr>"

definition demo_node_controller :: "config \<Rightarrow> string list \<Rightarrow> node_object \<Rightarrow> node_controller" where
  "demo_node_controller cfg ips no = \<lparr>ncInstances = \<lparr>imClients = empty_env\<lparr>
       envVmGet := (\<lambda>h ns n. Ok \<lparr>vmName = ''vm1'', vmUID = ''1234'', vmReady = True\<rparr>), envVmiGet := (\<lambda>h ns n. Ok (demo_vmi ips))\<rparr>,
       imNamespace = ''default'', imConfig = cfg\<rparr>,
     ncEnv = (quiet_fw (Fail not_found None) [no])\<lparr>fwNodeGet := (\<lambda>h n. Ok no)\<rparr>\<rparr>"

lemma demo_node_controller_simps [simp]:
  "fwNodeGet (ncEnv (demo_node_controller cfg ips no)) h n = Ok no" "fwNodeUpdate (ncEnv (demo_node_controller cfg ips no)) h n' = Ok n'"
  "envVmGet (imClients (ncInstances (demo_node_controller cfg ips no))) h ns n = Ok \<lparr>vmName = ''vm1'', vmUID = ''1234'', vmReady = True\<rparr>"
  "envVmiGet (imClients (ncInstances (demo_node_controller cfg ips no))) h ns n = Ok (demo_vmi ips)"
  "imConfig (ncInstances (demo_node_controller cfg ips no)) = cfg"
  by (simp_all add: demo_node_controller_def quiet_fw_def)

lemma annotated_addresses:
  "getNodeAddresses (annotated_node ''10.0.0.1'') (Some (demo_vmi [''10.0.0.1'', ''10.0.0.2''])) zero_config =
     Inr [\<lparr>naType = NodeInternalIP, naAddress = ''10.0.0.1''\<rparr>, \<lparr>naType = NodeExternalIP, naAddress = ''10.0.0.2''\<rparr>,
       \<lparr>naType = NodeHostName, naAddress = ''node1''\<rparr>]"
  "updateNodeAddressesFromNodeIP (annotated_node ''10.0.0.1'')
     [\<lparr>naType = NodeInternalIP, naAddress = ''10.0.0.1''\<rparr>, \<lparr>naType = NodeExternalIP, naAddress = ''10.0.0.2''\<rparr>,
       \<lparr>naType = NodeHostName, naAddress = ''node1''\<rparr>] =
     Inr [\<lparr>naType = NodeInternalIP, naAddress = ''10.0.0.1''\<rparr>, \<lparr>naType = NodeExternalIP, naAddress = ''10.0.0.2''\<rparr>,
       \<lparr>naType = NodeHostName, naAddress = ''node1''\<rparr>]"
  by code_simp+

abbreviation refreshed_node :: node_object where
  "refreshed_node \<equiv> demo_node_object (annotated_node ''10.0.0.1'')"

theorem refresh_served_witness:
  "let c = demo_node_controller zero_config [''10.0.0.1'', ''10.0.0.2''] refreshed_node in
    result_of (syncNode c ''node1'') [] = None \<and>
    (\<exists>new. FwNodeUpdate new (Ok new) \<in> set (trace_of (syncNode c ''node1'') []) \<and> getCloudTaint (nodeTaints (noNode new)) = None \<and>
       noProviderID new = (if noProviderID refreshed_node = [] then ''harvester://'' @ vmUID \<lparr>vmName = ''vm1'', vmUID = ''1234'', vmReady = True\<rparr>
         else noProviderID refreshed_node)) \<and>
    (\<exists>r. FwNodePatchStatus (nodeName (annotated_node ''10.0.0.1''))
      [\<lparr>naType = NodeInternalIP, naAddress = ''10.0.0.1''\<rparr>, \<lparr>naType = NodeExternalIP, naAddress = ''10.0.0.2''\<rparr>,
       \<lparr>naType = NodeHostName, naAddress = ''node1''\<rparr>] r \<in> set (trace_of (syncNode c ''node1'') []))"
  unfolding Let_def
  by (rule refresh_served [OF _ _ _ refl _ refl _ _ _ annotated_addresses(2), where vi = "demo_vmi [''10.0.0.1'', ''10.0.0.2'']"])
    (simp_all add: demo_node_object_def annotated_addresses(1) nodeAddressesChangeDetected_def, simp add: annotated_node_def)

lemma provided_demo:
  "mlookup (nodeAnnotations (annotated_node ''10.0.0.1'')) AnnotationAlphaProvidedIPAddr = Some (addr_String (Addr4 0x0A000001))"
  "vmi_addrs (demo_vmi [''10.0.0.1'', ''10.0.0.2'']) zero_config = Some [Addr4 0x0A000001, Addr4 0x0A000002]"
  by code_simp+

theorem provided_node_ip_enforced_witness:
  "\<exists>as2. updateNodeAddressesFromNodeIP (annotated_node ''10.0.0.1'')
     [\<lparr>naType = NodeInternalIP, naAddress = ''10.0.0.1''\<rparr>, \<lparr>naType = NodeExternalIP, naAddress = ''10.0.0.2''\<rparr>,
       \<lparr>naType = NodeHostName, naAddress = ''node1''\<rparr>] = Inr as2 \<and>
    filter (\<lambda>a. naType a = NodeInternalIP) as2 = [\<lparr>naType = NodeInternalIP, naAddress = addr_String (Addr4 0x0A000001)\<rparr>]"
  by (rule provided_node_ip_enforced [OF _ provided_demo _ _ annotated_addresses(1)]) (simp_all add: zero_config_def)

abbreviation dual_addr :: addr where
  "dual_addr \<equiv> Addr6 0xfd000000000000000000000000000001 []"

lemma dual_parsed:
  "addr_String dual_addr = ''fd00::1''" "addr_String (Addr4 0x0A000001) = ''10.0.0.1''"
  "vmi_addrs (demo_vmi [''10.0.0.1'', ''fd00::1'']) zero_config = Some [Addr4 0x0A000001, dual_addr]"
proof -
  show "addr_String dual_addr = ''fd00::1''" by (simp add: string6_def groups6_def v6u16_def hex.simps digit_char_def zone_suffix_def) code_simp
  show "addr_String (Addr4 0x0A000001) = ''10.0.0.1''" by code_simp
  show "vmi_addrs (demo_vmi [''10.0.0.1'', ''fd00::1'']) zero_config = Some [Addr4 0x0A000001, dual_addr]" by code_simp
qed

lemma dual_demo:
  "mlookup (nodeAnnotations (annotated_node ''10.0.0.1,fd00::1'')) AnnotationAlphaProvidedIPAddr = Some ''10.0.0.1,fd00::1''"
  "getNodeAddresses (annotated_node ''10.0.0.1,fd00::1'') (Some (demo_vmi [''10.0.0.1'', ''fd00::1''])) zero_config =
     Inr [\<lparr>naType = NodeExternalIP, naAddress = ''10.0.0.1''\<rparr>, \<lparr>naType = NodeExternalIP, naAddress = ''fd00::1''\<rparr>,
       \<lparr>naType = NodeHostName, naAddress = ''node1''\<rparr>]" (is ?g)
  "updateNodeAddressesFromNodeIP (annotated_node ''10.0.0.1,fd00::1'')
     [\<lparr>naType = NodeExternalIP, naAddress = ''10.0.0.1''\<rparr>, \<lparr>naType = NodeExternalIP, naAddress = ''fd00::1''\<rparr>,
       \<lparr>naType = NodeHostName, naAddress = ''node1''\<rparr>] =
     Inr [\<lparr>naType = NodeExternalIP, naAddress = ''10.0.0.1''\<rparr>, \<lparr>naType = NodeExternalIP, naAddress = ''fd00::1''\<rparr>,
       \<lparr>naType = NodeHostName, naAddress = ''node1''\<rparr>]" (is ?u)
proof -
  show "mlookup (nodeAnnotations (annotated_node ''10.0.0.1,fd00::1'')) AnnotationAlphaProvidedIPAddr = Some ''10.0.0.1,fd00::1''"
    by code_simp
  show ?u by code_simp
  have "wanted (node_ctx (annotated_node ''10.0.0.1,fd00::1'') v zero_config) = (\<lambda>x. addr_String x = ''10.0.0.1,fd00::1'')"
    "dropped (node_ctx (annotated_node ''10.0.0.1,fd00::1'') v zero_config) = (\<lambda>x. False)" for v
    by (auto simp: fun_eq_iff wanted_def dropped_def node_ctx_def buildIPAddressProcessContext_def annotated_node_def zero_config_def mlookup_def
        getLegacyModeRelatedParams_def getAdditionalInternalIPs_def AnnotationAlphaProvidedIPAddr_def key_defs Let_def)
  then show ?g 
    by (simp add: getNodeAddresses_Some dual_parsed policy_addresses_def policy_type_def upt_rec hostNameAddress_def del: addr_String.simps)
      (simp add: annotated_node_def demo_node_def)
qed
theorem dual_stack_no_internal_witness:
  "filter (\<lambda>a. naType a = NodeInternalIP)
     [\<lparr>naType = NodeExternalIP, naAddress = ''10.0.0.1''\<rparr>, \<lparr>naType = NodeExternalIP, naAddress = ''fd00::1''\<rparr>,
       \<lparr>naType = NodeHostName, naAddress = ''node1''\<rparr>] = []"
  by (rule dual_stack_no_internal [OF _ dual_demo(1) _ dual_demo(2,3)]) (simp_all add: zero_config_def)

text \<open>The annotation is disabled in the provider, and its address is in an excluded range.\<close>

definition cidr_config :: config where
  "cidr_config = zero_config\<lparr>cfgDisableAnnotationAlphaProvidedIPAddr := True,
     internalNodeIPCIDRPrefixes := [PrefixFrom (Addr4 0x0A000100) 24], internalNodeExcludeIPPrefixes := [PrefixFrom (Addr4 0x0A000000) 24]\<rparr>"

lemma excluded_demo:
  "getNodeAddresses (annotated_node ''10.0.0.1'') (Some (demo_vmi [''10.0.1.1'', ''10.0.0.1''])) cidr_config =
     Inr [\<lparr>naType = NodeInternalIP, naAddress = ''10.0.1.1''\<rparr>, \<lparr>naType = NodeHostName, naAddress = ''node1''\<rparr>]"
  "ParseNodeIPAnnotation ''10.0.0.1'' = Inr [0xFFFF0A000001]"
  "list_ex (matchesIP 0xFFFF0A000001)
     [\<lparr>naType = NodeInternalIP, naAddress = ''10.0.1.1''\<rparr>, \<lparr>naType = NodeHostName, naAddress = ''node1''\<rparr>] = False"
  by code_simp+

theorem provided_ip_missing_blocks_node_witness:
  "let c = demo_node_controller cidr_config [''10.0.1.1'', ''10.0.0.1''] refreshed_node in
    result_of (syncNode c ''node1'') [] \<noteq> None \<and> read_only (trace_of (syncNode c ''node1'') [])"
proof -
  let ?c = "demo_node_controller cidr_config [''10.0.1.1'', ''10.0.0.1''] refreshed_node"
  have n: "noNode refreshed_node = annotated_node ''10.0.0.1''" by (simp add: demo_node_object_def)
  have t: "getCloudTaint (nodeTaints (noNode refreshed_node)) \<noteq> None"
    unfolding n by (rule getCloudTaint_resync) (simp add: annotated_node_def)
  have a: "mlookup (nodeAnnotations (noNode refreshed_node)) AnnotationAlphaProvidedIPAddr = Some ''10.0.0.1''"
    unfolding n by code_simp
  obtain md where md: "result_of (InstanceMetadata (ncInstances ?c) (noNode refreshed_node)) ([] @ [FwNodeGet ''node1'' (Ok refreshed_node)]) = (Some md, None)"
    "mdNodeAddresses md = [\<lparr>naType = NodeInternalIP, naAddress = ''10.0.1.1''\<rparr>, \<lparr>naType = NodeHostName, naAddress = ''node1''\<rparr>]"
    using metadata_found [of "ncInstances ?c" "[] @ [FwNodeGet ''node1'' (Ok refreshed_node)]" "annotated_node ''10.0.0.1''" _ "demo_vmi [''10.0.1.1'', ''10.0.0.1'']"]
      excluded_demo(1) by (auto simp: n)
  have "\<not> list_ex (matchesIP 0xFFFF0A000001) (mdNodeAddresses md)" unfolding md(2) excluded_demo(3) by simp
  then show ?thesis unfolding Let_def
    by (rule provided_ip_missing_blocks_node [OF _ t refl a excluded_demo(2) _ md(1), rotated 2]) simp_all
qed

definition addressed_node :: node_object where
  "addressed_node = (demo_node_object demo_node)\<lparr>noAddresses :=
     [\<lparr>naType = NodeInternalIP, naAddress = ''10.0.0.1''\<rparr>, \<lparr>naType = NodeHostName, naAddress = ''node1''\<rparr>]\<rparr>"

theorem missing_ips_drop_addresses_witness:
  "\<exists>r. FwNodePatchStatus (nodeName demo_node) [hostNameAddress demo_node] r \<in>
     set (trace_of (updateNodeStatus1 (demo_node_controller zero_config [] addressed_node) addressed_node) [])"
proof (rule missing_ips_drop_addresses [where vi = "demo_vmi []"])
  show "vmi_addrs (demo_vmi []) (imConfig (ncInstances (demo_node_controller zero_config [] addressed_node))) = None"
    unfolding demo_node_controller_simps by code_simp
qed (simp_all add: addressed_node_def demo_node_object_def demo_node_def mlookup_def getCloudTaint_def)

end
