(* ===== verification/Startup.thy ===== *)
theory Startup
  imports Bootstrap
begin

text \<open>
  The process from its arguments to the framework, \<open>main.go\<close>: registration of the flags, the
  parts of \<open>pflag\<close> the code uses, static flags, and \<open>main\<close> itself.  The variables behind the
  Harvester flags are fields of the configuration, so parsing a flag changes the configuration.
  The framework's options, flags, argument parser and run function are parameters, and so is the
  comma-separated form of string slices that \<open>pflag\<close> takes from \<open>encoding/csv\<close>.
\<close>

section \<open>Flags\<close>

datatype flag_value = BoolValue bool | StringValue string | StringSliceValue "string list"

text \<open>
  The state of the process: the configuration, the values of the framework's own flags, the output
  settings of the command, and the slice flags that have been set (the next value is appended).
\<close>

record proc =
  procConfig :: config
  procFramework :: "string \<Rightarrow> flag_value"
  procCommand :: command
  procChanged :: "string list"

record 'a var =
  varGet :: "proc \<Rightarrow> 'a"
  varSet :: "'a \<Rightarrow> proc \<Rightarrow> proc"

record csv =
  readAsCSV :: "string \<Rightarrow> go_error + string list"
  writeAsCSV :: "string list \<Rightarrow> string"

text \<open>A flag: its current value, and \<open>Value.Set\<close> on the text given for it.\<close>

record flag =
  flName :: string
  flUsage :: string
  flValue :: "proc \<Rightarrow> flag_value"
  flSet :: "string \<Rightarrow> proc \<Rightarrow> go_error option \<times> proc"

type_synonym flag_set = "flag list"

text \<open>\<open>strconv.ParseBool\<close>.  A boolean flag is set to false when its text is not understood.\<close>

definition ParseBool :: "string \<Rightarrow> bool option" where
  "ParseBool s =
     (if s \<in> set [''1'', ''t'', ''T'', ''true'', ''TRUE'', ''True''] then Some True
      else if s \<in> set [''0'', ''f'', ''F'', ''false'', ''FALSE'', ''False''] then Some False
      else None)"

definition setBool :: "bool var \<Rightarrow> string \<Rightarrow> proc \<Rightarrow> go_error option \<times> proc" where
  "setBool p s st = (case ParseBool s of
     None \<Rightarrow> (Some (Errorf ''strconv.ParseBool: parsing %q: invalid syntax'' [FQuote s]), varSet p False st)
   | Some b \<Rightarrow> (None, varSet p b st))"

definition setString :: "string var \<Rightarrow> string \<Rightarrow> proc \<Rightarrow> go_error option \<times> proc" where
  "setString p s st = (None, varSet p s st)"

definition setStringSlice :: "csv \<Rightarrow> string list var \<Rightarrow> string \<Rightarrow> string \<Rightarrow> proc \<Rightarrow> go_error option \<times> proc" where
  "setStringSlice C p name s st = (case readAsCSV C s of
     Inl e \<Rightarrow> (Some e, st)
   | Inr rv \<Rightarrow>
       let st' = varSet p (if name \<notin> set (procChanged st) then rv else varGet p st @ rv) st
       in (None, st'\<lparr>procChanged := name # procChanged st'\<rparr>))"

definition boolFlag :: "bool var \<Rightarrow> string \<Rightarrow> string \<Rightarrow> flag" where
  "boolFlag p name usage = \<lparr>flName = name, flUsage = usage, flValue = (\<lambda>st. BoolValue (varGet p st)), flSet = setBool p\<rparr>"

definition stringFlag :: "string var \<Rightarrow> string \<Rightarrow> string \<Rightarrow> flag" where
  "stringFlag p name usage = \<lparr>flName = name, flUsage = usage, flValue = (\<lambda>st. StringValue (varGet p st)), flSet = setString p\<rparr>"

definition stringSliceFlag :: "csv \<Rightarrow> string list var \<Rightarrow> string \<Rightarrow> string \<Rightarrow> flag" where
  "stringSliceFlag C p name usage = \<lparr>flName = name, flUsage = usage, flValue = (\<lambda>st. StringSliceValue (varGet p st)),
     flSet = setStringSlice C p name\<rparr>"

text \<open>
  \<open>AddFlag\<close> panics (None) when the name is taken.  Defining a flag stores the default in its variable.
\<close>

definition AddFlag :: "flag \<Rightarrow> flag_set \<Rightarrow> flag_set option" where
  "AddFlag f fs = (if flName f \<in> flName ` set fs then None else Some (fs @ [f]))"

definition defineFlag :: "flag \<Rightarrow> (proc \<Rightarrow> proc) \<Rightarrow> flag_set \<times> proc \<Rightarrow> (flag_set \<times> proc) option" where
  "defineFlag f store = (\<lambda>(fs, st). map_option (\<lambda>fs'. (fs', store st)) (AddFlag f fs))"

definition BoolVar :: "bool var \<Rightarrow> string \<Rightarrow> bool \<Rightarrow> string \<Rightarrow> flag_set \<times> proc \<Rightarrow> (flag_set \<times> proc) option" where
  "BoolVar p name value usage = defineFlag (boolFlag p name usage) (varSet p value)"

definition StringVar :: "string var \<Rightarrow> string \<Rightarrow> string \<Rightarrow> string \<Rightarrow> flag_set \<times> proc \<Rightarrow> (flag_set \<times> proc) option" where
  "StringVar p name value usage = defineFlag (stringFlag p name usage) (varSet p value)"

definition StringSliceVar ::
  "csv \<Rightarrow> string list var \<Rightarrow> string \<Rightarrow> string list \<Rightarrow> string \<Rightarrow> flag_set \<times> proc \<Rightarrow> (flag_set \<times> proc) option" where
  "StringSliceVar C p name value usage = defineFlag (stringSliceFlag C p name usage) (varSet p value)"

definition Lookup :: "flag_set \<Rightarrow> string \<Rightarrow> flag option" where
  "Lookup fs name = find (\<lambda>f. flName f = name) fs"

text \<open>
  \<open>getFlagType\<close> and the typed getters.  A slice is printed and parsed again; the printed form of the
  empty slice is not parsed.
\<close>

fun flagType :: "flag_value \<Rightarrow> string" where
  "flagType (BoolValue _) = ''bool''"
| "flagType (StringValue _) = ''string''"
| "flagType (StringSliceValue _) = ''stringSlice''"

definition getFlagType :: "flag_set \<Rightarrow> proc \<Rightarrow> string \<Rightarrow> string \<Rightarrow> (flag_value \<Rightarrow> go_error + 'a) \<Rightarrow> go_error + 'a" where
  "getFlagType fs st name ftype conv = (case Lookup fs name of
     None \<Rightarrow> Inl (Errorf ''flag accessed but not defined: %s'' [FStr name])
   | Some f \<Rightarrow>
       if flagType (flValue f st) \<noteq> ftype
       then Inl (Errorf ''trying to get %s value of flag of type %s'' [FStr ftype, FStr (flagType (flValue f st))])
       else conv (flValue f st))"

fun stringConv :: "flag_value \<Rightarrow> go_error + string" where
  "stringConv (StringValue s) = Inr s"
| "stringConv _ = Inr []"

fun boolConv :: "flag_value \<Rightarrow> go_error + bool" where
  "boolConv (BoolValue b) = Inr b"
| "boolConv _ = Inr False"

fun stringSliceConv :: "csv \<Rightarrow> flag_value \<Rightarrow> go_error + string list" where
  "stringSliceConv C (StringSliceValue vs) = (let sval = writeAsCSV C vs in if sval = [] then Inr [] else readAsCSV C sval)"
| "stringSliceConv C _ = Inr []"

definition flag_getters :: "csv \<Rightarrow> flag_set \<Rightarrow> proc \<Rightarrow> flags" where
  "flag_getters C fs st =
     \<lparr>GetString = (\<lambda>n. getFlagType fs st n ''string'' stringConv),
      GetBool = (\<lambda>n. getFlagType fs st n ''bool'' boolConv),
      GetStringSlice = (\<lambda>n. getFlagType fs st n ''stringSlice'' (stringSliceConv C))\<rparr>"

section \<open>The Harvester flags\<close>

text \<open>The fields of the configuration that flags are bound to, and the help texts.\<close>

definition config_var :: "(config \<Rightarrow> 'a) \<Rightarrow> ('a \<Rightarrow> config \<Rightarrow> config) \<Rightarrow> 'a var" where
  "config_var g s = \<lparr>varGet = (\<lambda>st. g (procConfig st)), varSet = (\<lambda>v st. st\<lparr>procConfig := s v (procConfig st)\<rparr>)\<rparr>"

definition ptrDisableVMIController :: "bool var" where
  "ptrDisableVMIController = config_var cfgDisableVMIController (\<lambda>v c. c\<lparr>cfgDisableVMIController := v\<rparr>)"
definition ptrDisableAnnotationAlphaProvidedIPAddr :: "bool var" where
  "ptrDisableAnnotationAlphaProvidedIPAddr = config_var cfgDisableAnnotationAlphaProvidedIPAddr (\<lambda>v c. c\<lparr>cfgDisableAnnotationAlphaProvidedIPAddr := v\<rparr>)"
definition ptrManagementNetwork :: "string var" where
  "ptrManagementNetwork = config_var cfgManagementNetwork (\<lambda>v c. c\<lparr>cfgManagementNetwork := v\<rparr>)"
definition ptrNodeIPCIDR :: "string var" where
  "ptrNodeIPCIDR = config_var cfgNodeIPCIDR (\<lambda>v c. c\<lparr>cfgNodeIPCIDR := v\<rparr>)"
definition ptrNodeExcludeIPRanges :: "string list var" where
  "ptrNodeExcludeIPRanges = config_var cfgNodeExcludeIPRanges (\<lambda>v c. c\<lparr>cfgNodeExcludeIPRanges := v\<rparr>)"
definition ptrShowFullHelpOnError :: "bool var" where
  "ptrShowFullHelpOnError = config_var cfgShowFullHelpOnError (\<lambda>v c. c\<lparr>cfgShowFullHelpOnError := v\<rparr>)"

definition usageDisableVMIController :: string where
  "usageDisableVMIController =
       ''Disable sync topology to nodes and not affect the custom cluster.''"

definition usageDisableAnnotationAlphaProvidedIPAddr :: string where
  "usageDisableAnnotationAlphaProvidedIPAddr =
       ''By default, if the 'alpha.kubernetes.io/provided-node-ip' annotation is present, the cloud-provider '' @ [CHR 0x0A]
       @ ''    limits internal IP reporting to that specific address. Setting this to true causes the provider '' @ [CHR 0x0A]
       @ ''    to ignore this legacy annotation and instead determine the node IP based on the discovery pipeline '' @ [CHR 0x0A]
       @ ''    defined by --management-network and --node-ip-cidr.''"

definition usageManagementNetwork :: string where
  "usageManagementNetwork =
       ''Define the management network of this guest cluster, which is carried by a Harvester network '' @ [CHR 0x0A]
       @ ''    (e.g., 'default/vlan-100'). This setting serves two primary purposes: '' @ [CHR 0x0A]
       @ ''    1. Node IP Reporting: Guides the instance manager to the specific network interface from which '' @ [CHR 0x0A]
       @ ''       to fetch the node's internal/external IP addresses. '' @ [CHR 0x0A]
       @ ''    2. LoadBalancer Allocation: Guides the loadbalancer plugin to allocate Service IPs from the '' @ [CHR 0x0A]
       @ ''       IPPool associated with this network.''"

definition usageNodeIPCIDR :: string where
  "usageNodeIPCIDR =
       ''Comma-separated list of CIDRs to filter node IPs (e.g., '192.168.122.0/24'). When used with '' @ [CHR 0x0A]
       @ ''    --management-network, the instance manager will use this as a secondary filter to mark specific '' @ [CHR 0x0A]
       @ ''    IPs on that interface as InternalIP. This prevents non-deterministic selection when a single '' @ [CHR 0x0A]
       @ ''    network interface has multiple IP addresses.''"

definition usageNodeExcludeIPRanges :: string where
  "usageNodeExcludeIPRanges =
       ''Define IP ranges or single IPs to exclude (e.g., '10.0.0.0/8,2001:db8::/64,192.168.0.5'). This is the '' @ [CHR 0x0A]
       @ ''    final safety filter; any IP matching these ranges will not be marked as InternalIP or ExternalIP. '' @ [CHR 0x0A]
       @ ''    Consequently, they will be suppressed and will not appear in 'kubectl get nodes -o wide'. '' @ [CHR 0x0A]
       @ ''    This global setting replaces the legacy 'cloudprovider.harvesterhci.io/additional-internal-ips' '' @ [CHR 0x0A]
       @ ''    node annotation.''"

definition usageShowFullHelpOnError :: string where
  "usageShowFullHelpOnError =
       ''If a configuration error occurs at startup, the full help menu and flag list will be displayed. (default false)''"

definition registerHarvesterFlags :: "csv \<Rightarrow> flag_set \<times> proc \<Rightarrow> (flag_set \<times> proc) option" where
  "registerHarvesterFlags C harv = do {
     harv \<leftarrow> BoolVar ptrDisableVMIController FlagDisableVmiController False usageDisableVMIController harv;
     harv \<leftarrow> BoolVar ptrDisableAnnotationAlphaProvidedIPAddr FlagDisableAnnotationAlphaProvidedIPAddr False usageDisableAnnotationAlphaProvidedIPAddr harv;
     harv \<leftarrow> StringVar ptrManagementNetwork FlagManagementNetwork [] usageManagementNetwork harv;
     harv \<leftarrow> StringVar ptrNodeIPCIDR FlagNodeIPCIDR [] usageNodeIPCIDR harv;
     harv \<leftarrow> StringSliceVar C ptrNodeExcludeIPRanges FlagNodeExcludeIPRanges [] usageNodeExcludeIPRanges harv;
     BoolVar ptrShowFullHelpOnError FlagShowFullHelpOnError False usageShowFullHelpOnError harv
   }"

section \<open>The main function\<close>

text \<open>
  The command line as the argument parser of the framework splits it: the flags it sets in order, and
  whether it ends in a request for help or in an error of its own.
\<close>

datatype parse_end = ParseDone | ParseHelp | ParseError go_error

record framework =
  fwOptions :: "go_error option" \<comment> \<open>\<open>NewCloudControllerManagerOptions\<close>\<close>
  fwFlags :: flag_set \<comment> \<open>the flags of the framework on the command\<close>
  fwCommand :: command
  fwParse :: "string list \<Rightarrow> (string \<times> string) list \<times> parse_end"
  fwHasRunE :: bool
  fwRunE :: "proc \<Rightarrow> go_error option"
  fwErrorText :: "go_error \<Rightarrow> string" \<comment> \<open>\<open>err.Error()\<close>\<close>








text \<open>The flags of the command: those of the framework, then the Harvester flags.\<close>

definition commandFlags :: "framework \<Rightarrow> flag_set \<Rightarrow> flag_set" where
  "commandFlags fw harv = fwFlags fw @ filter (\<lambda>f. flName f \<notin> flName ` set (fwFlags fw)) harv"


section \<open>Facts\<close>

definition harvester_names :: "string list" where
  "harvester_names = [FlagDisableVmiController, FlagDisableAnnotationAlphaProvidedIPAddr, FlagManagementNetwork,
     FlagNodeIPCIDR, FlagNodeExcludeIPRanges, FlagShowFullHelpOnError]"

lemma harvester_names_distinct: "distinct harvester_names"
  by code_simp

lemma flag_names_differ: "distinct harvester_names" "distinct (rev harvester_names)"
  using harvester_names_distinct by simp_all

lemmas flag_name_neqs [simp] = flag_names_differ [unfolded harvester_names_def, simplified]

definition default_config :: "config \<Rightarrow> config" where
  "default_config c = c\<lparr>cfgDisableVMIController := False, cfgDisableAnnotationAlphaProvidedIPAddr := False,
     cfgManagementNetwork := [], cfgNodeIPCIDR := [], cfgNodeExcludeIPRanges := [], cfgShowFullHelpOnError := False\<rparr>"

definition harvester_flags :: "csv \<Rightarrow> flag_set" where
  "harvester_flags C =
     [boolFlag ptrDisableVMIController FlagDisableVmiController usageDisableVMIController,
      boolFlag ptrDisableAnnotationAlphaProvidedIPAddr FlagDisableAnnotationAlphaProvidedIPAddr usageDisableAnnotationAlphaProvidedIPAddr,
      stringFlag ptrManagementNetwork FlagManagementNetwork usageManagementNetwork,
      stringFlag ptrNodeIPCIDR FlagNodeIPCIDR usageNodeIPCIDR,
      stringSliceFlag C ptrNodeExcludeIPRanges FlagNodeExcludeIPRanges usageNodeExcludeIPRanges,
      boolFlag ptrShowFullHelpOnError FlagShowFullHelpOnError usageShowFullHelpOnError]"

lemmas flag_constructors = boolFlag_def stringFlag_def stringSliceFlag_def
lemmas flag_pointers = ptrDisableVMIController_def ptrDisableAnnotationAlphaProvidedIPAddr_def ptrManagementNetwork_def
  ptrNodeIPCIDR_def ptrNodeExcludeIPRanges_def ptrShowFullHelpOnError_def config_var_def

lemma registerHarvesterFlags_result:
  "registerHarvesterFlags C ([], st) = Some (harvester_flags C, st\<lparr>procConfig := default_config (procConfig st)\<rparr>)"
  by (simp add: registerHarvesterFlags_def BoolVar_def StringVar_def StringSliceVar_def defineFlag_def AddFlag_def
      flag_constructors harvester_flags_def)
    (simp add: flag_pointers default_config_def)

lemma harvester_flag_names: "map flName (harvester_flags C) = harvester_names"
  by (simp add: harvester_flags_def harvester_names_def flag_constructors)

lemma find_append: "find P (xs @ ys) = (case find P xs of None \<Rightarrow> find P ys | Some x \<Rightarrow> Some x)"
  by (induction xs) auto

lemma Lookup_command:
  assumes "f \<in> set (harvester_flags C)" "flName ` set (fwFlags fw) \<inter> set harvester_names = {}"
  shows "Lookup (commandFlags fw (harvester_flags C)) (flName f) = Some f"
proof -
  have dist: "distinct (map flName (harvester_flags C))"
    using harvester_names_distinct harvester_flag_names by simp
  have "flName f \<in> set harvester_names" using assms(1) harvester_flag_names [of C] by (metis image_eqI set_map)
  then have "find (\<lambda>g. flName g = flName f) (fwFlags fw) = None"
    using assms(2) by (auto simp: find_None_iff)
  moreover have "filter (\<lambda>g. flName g \<notin> flName ` set (fwFlags fw)) (harvester_flags C) = harvester_flags C"
    using assms(2) harvester_flag_names [of C] by (auto simp: filter_id_conv) (metis disjoint_iff image_eqI set_map)
  moreover have "find (\<lambda>g. flName g = flName f) fs = Some f" if "f \<in> set fs" "distinct (map flName fs)" for fs
    using that by (induction fs) auto
  ultimately show ?thesis using assms(1) dist
    by (simp add: Lookup_def commandFlags_def find_append)
qed

text \<open>
  What the framework brings: the two string flags the program reads from it, none of the Harvester
  names, and a form of string slices that reads back what it wrote.
\<close>

definition slice_printed :: "csv \<Rightarrow> string list \<Rightarrow> bool" where
  "slice_printed C vs \<longleftrightarrow> (if writeAsCSV C vs = [] then vs = [] else readAsCSV C (writeAsCSV C vs) = Inr vs)"

definition framework_flags :: "flag_set \<Rightarrow> proc \<Rightarrow> string \<Rightarrow> string list \<Rightarrow> bool" where
  "framework_flags fs st cl controllers \<longleftrightarrow> flName ` set fs \<inter> set harvester_names = {} \<and>
     (\<exists>f. Lookup fs FlagClusterName = Some f \<and> flValue f st = StringValue cl) \<and>
     (\<exists>f. Lookup fs FlagCloudProviderControllers = Some f \<and> flValue f st = StringSliceValue controllers)"

lemma Lookup_framework:
  "Lookup (fwFlags fw) n = Some f \<Longrightarrow> Lookup (commandFlags fw harv) n = Some f"
  by (simp add: Lookup_def commandFlags_def find_append)

lemma getters_harvester:
  assumes "flName ` set (fwFlags fw) \<inter> set harvester_names = {}" "harv = harvester_flags C"
  shows "getStr (flag_getters C (commandFlags fw harv) st) FlagManagementNetwork = Inr (cfgManagementNetwork (procConfig st))"
    "getStr (flag_getters C (commandFlags fw harv) st) FlagNodeIPCIDR = Inr (cfgNodeIPCIDR (procConfig st))"
    "getBool (flag_getters C (commandFlags fw harv) st) FlagDisableAnnotationAlphaProvidedIPAddr =
       Inr (cfgDisableAnnotationAlphaProvidedIPAddr (procConfig st))"
    "getBool (flag_getters C (commandFlags fw harv) st) FlagDisableVmiController = Inr (cfgDisableVMIController (procConfig st))"
    "getBool (flag_getters C (commandFlags fw harv) st) FlagShowFullHelpOnError = Inr (cfgShowFullHelpOnError (procConfig st))"
    "slice_printed C (cfgNodeExcludeIPRanges (procConfig st)) \<Longrightarrow>
     getStrSlice (flag_getters C (commandFlags fw harv) st) FlagNodeExcludeIPRanges = Inr (cfgNodeExcludeIPRanges (procConfig st))"
proof -
  have "list_all (\<lambda>f. Lookup (commandFlags fw harv) (flName f) = Some f) (harvester_flags C)"
    using Lookup_command [OF _ assms(1)] assms(2) by (simp add: list_all_iff)
  note look = this [unfolded harvester_flags_def, simplified]
  note defs = flag_constructors flag_pointers getStr_def getBool_def getStrSlice_def flag_getters_def getFlagType_def
  show "getStr (flag_getters C (commandFlags fw harv) st) FlagManagementNetwork = Inr (cfgManagementNetwork (procConfig st))"
    "getStr (flag_getters C (commandFlags fw harv) st) FlagNodeIPCIDR = Inr (cfgNodeIPCIDR (procConfig st))"
    "getBool (flag_getters C (commandFlags fw harv) st) FlagDisableAnnotationAlphaProvidedIPAddr = Inr (cfgDisableAnnotationAlphaProvidedIPAddr (procConfig st))"
    "getBool (flag_getters C (commandFlags fw harv) st) FlagDisableVmiController = Inr (cfgDisableVMIController (procConfig st))"
    "getBool (flag_getters C (commandFlags fw harv) st) FlagShowFullHelpOnError = Inr (cfgShowFullHelpOnError (procConfig st))"
    "slice_printed C (cfgNodeExcludeIPRanges (procConfig st)) \<Longrightarrow>
     getStrSlice (flag_getters C (commandFlags fw harv) st) FlagNodeExcludeIPRanges = Inr (cfgNodeExcludeIPRanges (procConfig st))"
    using look by (simp_all add: defs slice_printed_def Let_def split: if_splits)
qed

lemma getters_framework:
  assumes "framework_flags (fwFlags fw) st cl cs" "slice_printed C cs"
  shows "getStr (flag_getters C (commandFlags fw harv) st) FlagClusterName = Inr cl"
    "getStrSlice (flag_getters C (commandFlags fw harv) st) FlagCloudProviderControllers = Inr cs"
  using assms Lookup_framework [of fw _ _ harv] unfolding framework_flags_def
  by (auto simp: getStr_def getStrSlice_def flag_getters_def getFlagType_def slice_printed_def Let_def)





section \<open>Properties\<close>

text \<open>Synchronizing with the registered flags cannot fail on a missing or mistyped flag: with the
  framework's two flags present, it validates exactly the values the flags were parsed to, with the
  framework's cluster name normalized and its controller list joined.\<close>

lemma registered_flags_sync:
  assumes "registerHarvesterFlags C ([], st0) = Some (harv, st1)" "framework_flags (fwFlags fw) st cl controllers"
    and "slice_printed C controllers" "slice_printed C (cfgNodeExcludeIPRanges (procConfig st))"
  shows "SyncAndValidateHarvesterConfig (flag_getters C (commandFlags fw harv) st) (procConfig st) =
    validate_network_settings ((procConfig st)\<lparr>cfgCloudProviderControllers := join_with '','' controllers,
      cfgClusterName := fst (normalizeAndWarnClusterName cl)\<rparr>)"
proof -
  have harv: "harv = harvester_flags C" using assms(1) by (simp add: registerHarvesterFlags_result)
  have "flName ` set (fwFlags fw) \<inter> set harvester_names = {}" using assms(2) by (simp add: framework_flags_def)
  note getters_harvester [OF this harv, where st = st] getters_framework [OF assms(2,3)]
  then show ?thesis unfolding SyncAndValidateHarvesterConfig_def assign_def
    using assms(4) by simp
qed


section \<open>Witnesses\<close>

definition demo_csv :: csv where
  "demo_csv = \<lparr>readAsCSV = (\<lambda>s. Inr (if s = [] then [] else split_byte (CHR '','') s)), writeAsCSV = join_with '',''\<rparr>"

definition framework_var :: "(flag_value \<Rightarrow> 'a) \<Rightarrow> ('a \<Rightarrow> flag_value) \<Rightarrow> string \<Rightarrow> 'a var" where
  "framework_var g v n = \<lparr>varGet = (\<lambda>st. g (procFramework st n)),
     varSet = (\<lambda>x st. st\<lparr>procFramework := (\<lambda>m. if m = n then v x else procFramework st m)\<rparr>)\<rparr>"

definition string_of :: "flag_value \<Rightarrow> string" where
  "string_of v = (case v of StringValue s \<Rightarrow> s | _ \<Rightarrow> [])"

definition slice_of :: "flag_value \<Rightarrow> string list" where
  "slice_of v = (case v of StringSliceValue s \<Rightarrow> s | _ \<Rightarrow> [])"

definition demo_framework :: framework where
  "demo_framework = \<lparr>fwOptions = None,
     fwFlags = [stringFlag (framework_var string_of StringValue FlagClusterName) FlagClusterName [],
       stringFlag (framework_var string_of StringValue ''cloud-provider'') ''cloud-provider'' [],
       stringSliceFlag demo_csv (framework_var slice_of StringSliceValue FlagCloudProviderControllers) FlagCloudProviderControllers []],
     fwCommand = \<lparr>SilenceUsage = False, SilenceErrors = False\<rparr>,
     fwParse = (\<lambda>args. ([(FlagManagementNetwork, ''mgmt''), (FlagNodeIPCIDR, ''10.0.0.0/8''), (FlagNodeExcludeIPRanges, ''10.9.0.0/16,10.8.0.1'')], ParseDone)),
     fwHasRunE = True, fwRunE = (\<lambda>st. None), fwErrorText = (\<lambda>e. [])\<rparr>"

definition demo_proc :: proc where
  "demo_proc = \<lparr>procConfig = zero_config, procFramework = (\<lambda>n. StringValue ''c1''),
     procCommand = \<lparr>SilenceUsage = False, SilenceErrors = False\<rparr>, procChanged = []\<rparr>"

lemma demo_framework_flags:
  "framework_flags (fwFlags demo_framework) demo_proc ''c1'' []" "slice_printed demo_csv []"
proof -
  have "flName ` set (fwFlags demo_framework) \<inter> set harvester_names = {}" by code_simp
  then show "framework_flags (fwFlags demo_framework) demo_proc ''c1'' []"
    by (simp add: framework_flags_def Lookup_def demo_framework_def flag_constructors framework_var_def demo_proc_def
        string_of_def slice_of_def FlagClusterName_def FlagCloudProviderControllers_def)
  show "slice_printed demo_csv []" by (simp add: slice_printed_def demo_csv_def)
qed



end
