(* ===== verification/FakeClients.thy ===== *)
theory FakeClients
  imports LoadBalancer_Props
begin

text \<open>
  The in-memory ConfigMap cache of the unit tests, \<open>pkg/utils/fakeclients/configmap.go\<close>, put in
  the place of the cache of an environment.  With it the resolution of a service's network is
  described on every branch, and the table of the repository's own test is replayed.
\<close>

section \<open>Definitions\<close>

record ConfigMapCache =
  fcCm :: "configmap option"
  fcErr :: "go_error option"

definition NewConfigMapCache :: "configmap option \<Rightarrow> go_error option \<Rightarrow> ConfigMapCache" where
  "NewConfigMapCache cm err = \<lparr>fcCm = cm, fcErr = err\<rparr>"

definition ConfigMapCache_Get :: "ConfigMapCache \<Rightarrow> string \<Rightarrow> string \<Rightarrow> configmap resp" where
  "ConfigMapCache_Get f ns name = (case fcErr f of
     Some err \<Rightarrow> Fail err None
   | None \<Rightarrow> (case fcCm f of
       None \<Rightarrow> Fail (StatusError ''NotFound'' 404) None
     | Some cm \<Rightarrow> Ok cm))"

definition ConfigMapCache_List :: "ConfigMapCache \<Rightarrow> string \<Rightarrow> selector \<Rightarrow> configmap list resp" where
  "ConfigMapCache_List f ns sel = Ok []"

definition ConfigMapCache_AddIndexer :: "ConfigMapCache \<Rightarrow> string \<Rightarrow> (configmap \<Rightarrow> string list) \<Rightarrow> ConfigMapCache" where
  "ConfigMapCache_AddIndexer f name indexer = f"

definition ConfigMapCache_GetByIndex :: "ConfigMapCache \<Rightarrow> string \<Rightarrow> string \<Rightarrow> configmap list resp" where
  "ConfigMapCache_GetByIndex f name key = Ok []"

text \<open>A manager whose ConfigMap cache is the fake one, as the test builds it.\<close>

definition with_cache :: "lb_manager \<Rightarrow> ConfigMapCache \<Rightarrow> lb_manager" where
  "with_cache l f = l\<lparr>lmClients := (lmClients l)\<lparr>envCmCacheGet := (\<lambda>h ns n. ConfigMapCache_Get f ns n)\<rparr>\<rparr>"

section \<open>Resolving a network\<close>

lemma resolve_with_cache:
  "isl (result_of (resolveNetworkInterface (with_cache l (NewConfigMapCache cmo eo)) svc) h) \<longleftrightarrow>
    mget (svcAnnotations svc) KeyNetwork \<noteq> [] \<and>
    (case eo of
       Some e \<Rightarrow> \<not> IsNotFound e
     | None \<Rightarrow> (case cmo of
         None \<Rightarrow> False
       | Some cm \<Rightarrow> (case decodeNADMapping cm of
           Inl _ \<Rightarrow> True
         | Inr None \<Rightarrow> False
         | Inr (Some m) \<Rightarrow> mget (svcAnnotations svc) KeyNetwork \<notin> fmdom' m)))"
proof -
  have "IsNotFound (StatusError ''NotFound'' 404)" using IsNotFound_not_found by (simp add: not_found_def)
  then show ?thesis
    by (auto simp: resolveNetworkInterface_def GetNADInterfaceMapping_def with_cache_def NewConfigMapCache_def ConfigMapCache_Get_def
        Let_def fmlookup_dom'_iff split: option.split sum.split)
qed

text \<open>The table of \<open>Test_resolveNetworkInterface\<close>: annotation, stored mapping and whether an error is wanted.\<close>

definition newNADMappingConfigMap :: "(string, string) fmap \<Rightarrow> configmap" where
  "newNADMappingConfigMap m = \<lparr>cmNamespace = NamespaceSystem, cmName = ConfigMapNADMapping,
     cmData = Some (fmupd ConfigMapKeyNADMapping (marshal_map m) fmempty)\<rparr>"

definition validMapping :: "(string, string) fmap" where
  "validMapping = fmupd ''default/mgmt'' ''enp1s0'' (fmupd ''default/net123'' ''enp2s0'' fmempty)"

lemma decode_validMapping: "decodeNADMapping (newNADMappingConfigMap validMapping) = Inr (Some validMapping)"
proof -
  have "utf8_valid ''default/net123''" "utf8_valid ''enp2s0''" "utf8_valid ''default/mgmt''" "utf8_valid ''enp1s0''"
    by (rule utf8_valid_ascii, code_simp)+
  then have "utf8_map validMapping" by (auto simp: validMapping_def utf8_map_def)
  moreover have "validMapping \<noteq> fmempty" by (simp add: validMapping_def)
  ultimately have "json.loaded (json.stored (Some validMapping)) = Some (made (Some validMapping))"
    by (intro json.loaded_stored) auto
  then show ?thesis using \<open>validMapping \<noteq> fmempty\<close>
    by (simp add: decodeNADMapping_loaded newNADMappingConfigMap_def mget_def json.stored_def made_def)
qed

lemma Test_resolveNetworkInterface:
  "\<not> isl (result_of (resolveNetworkInterface (with_cache l (NewConfigMapCache None None)) demo_svc) h)"
  "\<not> isl (result_of (resolveNetworkInterface (with_cache l (NewConfigMapCache None None)) (demo_annotated KeyNetwork ''default/mgmt'')) h)"
  "\<not> isl (result_of (resolveNetworkInterface (with_cache l (NewConfigMapCache (Some (newNADMappingConfigMap validMapping)) None))
      (demo_annotated KeyNetwork ''default/net123'')) h)"
  "isl (result_of (resolveNetworkInterface (with_cache l (NewConfigMapCache (Some (newNADMappingConfigMap validMapping)) None))
      (demo_annotated KeyNetwork ''default/unknown-net'')) h)"
  by (simp_all add: resolve_with_cache decode_validMapping) (simp_all add: demo_svc_def mget_def validMapping_def)

section \<open>Properties\<close>

text \<open>When a network resolves, on every branch: with a ConfigMap cache that holds one ConfigMap,
  none, or fails, \<open>resolveNetworkInterface\<close> fails exactly for a service that asks for a network when
  the cache fails with an error other than not found, or the stored mapping is malformed, or the
  mapping has no interface for that network; a missing ConfigMap never blocks a service.\<close>

lemma resolve_fails_iff:
  "isl (result_of (resolveNetworkInterface (with_cache l (NewConfigMapCache cmo eo)) svc) h) \<longleftrightarrow>
    mget (svcAnnotations svc) KeyNetwork \<noteq> [] \<and>
    (case eo of
       Some e \<Rightarrow> \<not> IsNotFound e
     | None \<Rightarrow> (case cmo of
         None \<Rightarrow> False
       | Some cm \<Rightarrow> (case decodeNADMapping cm of
           Inl _ \<Rightarrow> True
         | Inr None \<Rightarrow> False
         | Inr (Some m) \<Rightarrow> mget (svcAnnotations svc) KeyNetwork \<notin> fmdom' m)))"
  by (rule resolve_with_cache)

end
