(* ===== verification/Spec2Isabelle.thy ===== *)
theory Spec2Isabelle
  imports Sharing LBStore ProviderInit ServiceLoop NADStore NodeLifecycle CloudNode Startup FakeClients
begin

text \<open>
  A verification development for the Harvester cloud provider (\<open>src/\<close>), the out-of-tree cloud
  controller manager that connects a Kubernetes guest cluster to the Harvester cluster whose
  virtual machines are its nodes.

  \<^bold>\<open>The program and its parts.\<close>  \<open>main.go\<close> reads the flags and validates them into a
  process-wide configuration (\<open>pkg/config\<close>, \<open>pkg/utils\<close>), then starts the framework, which
  calls three components that \<open>pkg/cloud-controller-manager/ccm.go\<close> assembles.  The load
  balancer manager (\<open>loadbalancer.go\<close>) keeps a Harvester load balancer for each primary service
  of type LoadBalancer, waits for its address and writes it on the service; secondary services
  share the address of their primary.  The instance manager (\<open>instance.go\<close>, \<open>instance_ip.go\<close>)
  answers whether the machine of a node exists and which addresses the node has.  The VMI
  controller (\<open>pkg/controller/virtualmachineinstance\<close>) records which machine runs a node, asks
  for a refresh of nodes whose topology labels are out of date, and stores in a ConfigMap which
  interface carries each network on all machines; the load balancer manager reads that mapping.
  The callers of the first two are controllers of the framework (\<open>vendor/k8s.io/cloud-provider\<close>): the
  service controller, the node controller and the node lifecycle controller.  What the provider promises
  its users depends on how these treat its answers, so their synchronization functions are modelled too.

  \<^bold>\<open>Theories.\<close>
  \<^item> \<open>Prelude\<close>: Go maps and strings, shared lemmas.
  \<^item> \<open>Netip\<close>, \<open>Netip_Facts\<close>: the parts of \<open>net/netip\<close> the code uses (addresses, parsing, printing,
    prefixes); printing and parsing round trip, containment of prefixes by arithmetic.
  \<^item> \<open>Gojson\<close>, \<open>Gojson_Facts\<close>: the scanner of \<open>encoding/json\<close> as a state machine, decoding of string
    lists and maps, encoding of maps; decoding inverts encoding on valid UTF-8.
  \<^item> \<open>Kube\<close>: Go errors and their predicates, API objects, the environment and the history of
    calls, \<open>RetryOnConflict\<close> and its backoff loop.  \<open>Retry\<close>: what a retried operation does (locale
    \<open>retried\<close>).  \<open>Traces\<close>: predicates on the events of a trace that compose along the code, and
    counting of calls.
  \<^item> \<open>DNSLabel\<close>: the label validation of the Kubernetes libraries.
  \<^item> \<open>Config\<close>, \<open>Config_Facts\<close>: constants, the configuration, validation of the flags; which settings are
    accepted, and that accepted settings are a fixed point.
  \<^item> \<open>NodeAddresses\<close>, \<open>NodeAddresses_Facts\<close>: from a VMI to the addresses of a node.  The three
    categorizing loops and the two filters meet the contracts \<open>categorizer\<close> and
    \<open>candidate_filter\<close>; the locale \<open>resolver\<close> joins them, and the policy \<open>policy_addresses\<close> is the
    specification they refine.
  \<^item> \<open>NAD\<close>: the mapping of networks to interfaces; the locale \<open>mapping_codec\<close> is the contract between
    the writer and the reader of the ConfigMap.  \<open>NADStore\<close>: the ConfigMaps of the guest cluster as a map (locale
    \<open>cm_store\<close>), the synchronization by the VMI controller as the function \<open>mapping_stored\<close> on it, and the
    resolution of a network after it.
  \<^item> \<open>LBName\<close>: the load balancer name with its CRC-32 suffix.
  \<^item> \<open>LoadBalancer\<close>, \<open>LoadBalancer_Facts\<close>, \<open>LoadBalancer_Props\<close>: the load balancer manager; the
    predicate \<open>write_ok\<close> says which writes are allowed after which reads, and every operation
    is shown to respect it.
  \<^item> \<open>Progress\<close>: when ensuring a primary or a secondary service succeeds.
  \<^item> \<open>ServiceStore\<close>: the services of the cluster as an abstract table of labels and ports with the step
    relation \<open>share_step\<close>; the locale \<open>cached_services\<close> is the contract of a server that refuses updates of outdated objects and of a cache that
    may lag behind it, and every run of \<open>EnsureLoadBalancer\<close> refines at most one step.
  \<^item> \<open>LBStore\<close>: the load balancers of Harvester as a map; the locale \<open>lb_store\<close> is the contract of a
    server that stores the objects it acknowledges (a deleted one may stay until its finalizers are done), and a successful
    run is the function \<open>ensured\<close> on that map.
  \<^item> \<open>FakeClients\<close>: the ConfigMap cache of the unit tests and the resolution of networks with it.
  \<^item> \<open>Instances\<close>: the instance manager.  \<open>VMIController\<close>: the controller and the taint helper.
  \<^item> \<open>Bootstrap\<close>: log level, help output, error report, the wrapped run function.  \<open>Startup\<close>: the flags
    (\<open>registerHarvesterFlags\<close> and the parts of \<open>pflag\<close> it uses) and \<open>main\<close>.
  \<^item> \<open>CloudProvider\<close>: the assembled provider, its step relation and reachable histories; the locale
    \<open>provider_invariant\<close> lifts event predicates that all operations respect to all histories.
  \<^item> \<open>ProviderInit\<close>: the constructor \<open>newCloudProvider\<close> with its errors, the accessors, the registry of the
    framework and \<open>cloudInitializer\<close>.
  \<^item> \<open>Concurrent\<close>: interleavings of runs of the provider's operations, finished or not, each with an
    environment of its own; invariants of single runs that tolerate more events in front hold of all of them.
  \<^item> \<open>Framework\<close>: the calls of the framework's controllers (\<open>fw_env\<close>).  \<open>ServiceController\<close>: the finalizer and
    status helpers, \<open>syncService\<close>, the node synchronization, the workers and the handlers of the informers;
    \<open>WorkQueue\<close>: the rate limiting work queue of the client library between the handlers and the workers, with
    its step relation; \<open>ServiceSync\<close>: what one synchronization and the load balancer manager do together;
    \<open>ServiceLoop\<close>: the whole loop from a change of a service back to its own writes, over the locale \<open>steady_cluster\<close> of a
    cluster in which nobody else changes the service.  \<open>NodeLifecycle\<close>: \<open>MonitorNodes\<close> on top of the instance manager.  \<open>SloppyIP\<close>: the
    framework's lenient address parser, which extends that of \<open>net/netip\<close>.  \<open>CloudNode\<close>: \<open>syncNode\<close>,
    \<open>UpdateNodeStatus\<close> and the label reconciliation on top of the instance manager.
  \<^item> \<open>Sharing\<close>: services that share an address and clash on a port: when the provider can bring this about, and that it does.
  \<^item> This theory: the properties that span components.

  \<^bold>\<open>State and effects.\<close>  The API servers, informer caches, guest agents and the framework are not
  part of the program.  They are an \<open>env\<close>, a record of functions that answer each call and may
  depend on the whole history of calls before it, so other clients may change any object between
  two calls; no law is assumed of them, except where a property names one:
  \<open>no_wait_timeout\<close> and \<open>no_cm_timeout\<close> (the clients do not answer with the timeout error of the retry
  library itself, which that library would swallow), the contracts \<open>cached_services\<close>, \<open>lb_store\<close>,
  \<open>cm_store\<close> and \<open>steady_cluster\<close>, which are interpreted on stores that are executable, \<open>harvester_responds\<close> and \<open>cluster_responds\<close> for
  progress, \<open>harvester_obeys\<close> and \<open>updates_refused\<close> for the loss of a load balancer, \<open>answers_named\<close> (a lookup answers
  with the load balancer that was asked for), \<open>own_errors\<close> (Harvester does not answer with the error value by which a provider tells the service
  controller that something else implements the load balancer), and \<open>confirms_context\<close>, \<open>builds_factories\<close> and \<open>slice_printed\<close> for the client and flag
  libraries.  The service controller also keeps a cache of the services it has seen; \<open>same_object\<close>, which two properties
  use, says that the cached one was not deleted and recreated.  The deletion of a load balancer is observed as the acknowledged call: the
  controller of Harvester keeps the object until its own finalizer is done, so no law says when it is gone.  An operation is an action of the state
  monad over the history; \<open>result_of\<close> is what it returns, \<open>trace_of\<close> the calls it makes, each with
  its answer.  The shared \<open>nodeToVMName\<close> map is read off the history: a load sees the last store.
  Errors are values that keep the format string and the wrapped error, because the code
  inspects wrapped errors.  Ports are 32-bit words, addresses 32- and 128-bit words.

  \<^bold>\<open>What is shown.\<close>  For the load balancer manager: what a successful run has done, that failed runs
  roll back or report that the rollback failed, that deletions, service updates and load balancer updates are guarded, that networks
  never change under an existing load balancer, that every run ends within 41 calls, and that a run
  for a primary service succeeds when Harvester allocates an address by the tenth poll and at most three
  writes conflict, and likewise for a secondary service whose ports are free.  On the servers' state, a successful run replaces the specification of the service's
  own load balancer by the constructed one and nothing else, and a second run changes nothing.  Whatever the cache shows and
  other clients do, a run is at most one step of the sharing protocol; two services that share an address come to have a port in common
  only if the cache or the given service was out of date, and then they can: the port check refuses exactly what the cache lists.
  For node addresses: the policy, the well-formedness of the list with its bound of one internal address per
  family, and the policy end to end from the flags.  For the NAD mapping: it is the intersection over the qualifying
  machines, a synchronization is one update of the ConfigMap however often it is retried and a second one writes
  nothing, and afterwards a network resolves to an interface exactly when it is on that interface on all of them.  For the controller: what it may write, and that a refresh goes to the
  node named like the machine even if the node has another name, which is a defect of the code.
  For the process: \<open>main\<close> starts the framework at most once and only after it accepted valid settings, the flags it registers are
  those it reads, and the constructor of the provider returns its first error or a provider.
  For the whole provider: invariants of every reachable history and of every interleaving of its operations,
  among them that it deletes only load balancers it looked up, and that the initialized provider writes
  load balancers only under the names of services and in the namespace the cloud config selects.
  For the service controller: the synchronization of a service writes a load balancer only behind a finalizer (that of the nodes
  makes no such check), the finalizer is removed
  only after the load balancer was deleted or reported as absent, and a successful synchronization deletes the load balancer of a replaced
  service and takes that of the service to what it asks for.  Three cases in which the two do not work together are shown by theorems: a load
  balancer that is still waiting for its address is reported as absent and is leaked, a failed update
  for new nodes deletes the load balancer of a service without labels and, once it is gone, no queue gets a key that would bring it back, and a secondary service that gives up its type keeps the label that
  blocks its primary.
  For its queue: a key has at most one worker at a time, a change that arrives while a worker holds the key is served
  again, and a failed key comes back within five minutes.  For the loop: an update of a service that the handlers
  ignore makes no difference to the load balancer manager, and after a successful synchronization the
  controller's own writes cause no further ones.
  For the nodes: the lifecycle controller deletes or taints a node only when the instance manager answered so, and
  the node controller serves the refresh the VMI controller asks for and keeps only the addresses that match the
  kubelet's provided ones.  Cases in which the answers of the instance manager lead to harm are shown too: a
  node is deleted when a machine that runs it under another name is looked up before the map is filled, a
  dual-stack annotation leaves a node without internal address, a provided address outside the reported
  ones blocks its initialization, and a machine that reports no address for a while strips its node of addresses.

  \<^bold>\<open>Loops and bounds.\<close>  Loops over slices are structural recursion.  \<open>waitLoop\<close> has the ten rounds of
  the source, \<open>RetryOnConflict\<close> the steps of its backoff (four for services and the ConfigMap, five for
  taints and labels), the initialization of a node the twenty steps of its own backoff; all functions are total, so no fuel is needed.
  The work queue counts nanoseconds; its delays run from five seconds to five minutes.  Whether its keys are ever
  taken depends on the workers, so its liveness is stated for paths of steps in which workers take keys.

  \<^bold>\<open>Not modelled.\<close>  Log lines other than the warning about the cluster name; durations, contexts and
  cancellation; starting the informers; how the framework splits the command line; the
  informers, which call the handlers; of the controllers the timers, the queue of the node controller, the user events and
  metrics they record, draining a work queue at shutdown, the route controller (the provider offers no routes) and the branches for providers
  without \<open>InstancesV2\<close>; the text of JSON errors and of errors that are only printed; the
  strategic merge patches, each one call of the environment.
\<close>

section \<open>From the flags to the reported node addresses\<close>

text \<open>C34: Once the framework is started, in CIDR mode (flag \<open>--node-ip-cidr\<close> set, provided-node-ip
  annotation absent or disabled), every internal address of a node lies in a prefix of the flag,
  and no external address lies in a range of \<open>--node-exclude-ip-ranges\<close>.\<close>

theorem cidr_mode_addresses:
  assumes "RunE fl orig c0 = RunFramework cfg" "cidr_entries (cfgNodeIPCIDR cfg) \<noteq> []"
    and "cfgDisableAnnotationAlphaProvidedIPAddr cfg \<or> mlookup (nodeAnnotations nd) AnnotationAlphaProvidedIPAddr = None"
    and "getNodeAddresses nd (Some v) cfg = Inr as" "a \<in> set as" "naType a \<noteq> NodeHostName"
  shows "\<exists>x. ParseAddr (naAddress a) = Some x \<and>
    (naType a = NodeInternalIP \<and> (\<exists>e\<in>set (cidr_entries (cfgNodeIPCIDR cfg)). prefix_Contains (entry_prefix e) x) \<or>
     naType a = NodeExternalIP \<and> (\<forall>e\<in>set (cfgNodeExcludeIPRanges cfg). \<not> prefix_Contains (projr (parseStringToIPPrefix e)) x))"
proof -
  have ok: "config_ok cfg" using assms(1) by (rule RunE_config_ok)
  then have "internalNodeIPCIDRPrefixes cfg \<noteq> []" using assms(2) by (simp add: config_ok_def)
  note ctx = cidr_mode_ctx [OF assms(3) this, of v]
  obtain xs x where "ParseAddr (naAddress a) = Some x"
    "naType a = NodeInternalIP \<and> wanted (node_ctx nd v cfg) x \<or> naType a = NodeExternalIP \<and> \<not> dropped (node_ctx nd v cfg) x"
    using assms(4-6) by (rule node_address_source)
  then show ?thesis using ok unfolding ctx config_ok_def by auto
qed

lemma demo_cidr_addresses:
  "getNodeAddresses demo_node (Some (demo_vmi [''192.168.0.1'', ''10.1.2.3'', ''10.9.0.1''])) demo_config =
   Inr [\<lparr>naType = NodeExternalIP, naAddress = ''192.168.0.1''\<rparr>, \<lparr>naType = NodeInternalIP, naAddress = ''10.1.2.3''\<rparr>,
        \<lparr>naType = NodeHostName, naAddress = ''node1''\<rparr>]"
  by code_simp

theorem cidr_mode_addresses_witness:
  "\<exists>x. ParseAddr ''10.1.2.3'' = Some x \<and>
    (\<exists>e\<in>set (cidr_entries (cfgNodeIPCIDR demo_config)). prefix_Contains (entry_prefix e) x)"
proof -
  let ?a = "\<lparr>naType = NodeInternalIP, naAddress = ''10.1.2.3''\<rparr>"
  have "cidr_entries (cfgNodeIPCIDR demo_config) \<noteq> []" by code_simp
  moreover have "mlookup (nodeAnnotations demo_node) AnnotationAlphaProvidedIPAddr = None"
    by (simp add: demo_node_def mlookup_def)
  ultimately show ?thesis
    using cidr_mode_addresses [OF demo_boot _ _ demo_cidr_addresses, of ?a] by simp
qed

section \<open>Validation of the settings\<close>

text \<open>The CIDR flag is accepted exactly when it obeys the documented policy: every entry is an
  address or prefix whose address is not loopback, link-local, multicast, unspecified or
  broadcast, and there is at most one entry per address family; then the parsed prefixes and the
  cleaned flag value are those of the entries, in order.\<close>

lemma node_ip_cidr_accepted_iff:
  "(\<exists>cfg'. validateAndParseNodeIPCIDR cfg = Inr cfg') = cidr_policy (cidr_entries (cfgNodeIPCIDR cfg)) \<and>
   (\<forall>cfg'. validateAndParseNodeIPCIDR cfg = Inr cfg' \<longrightarrow>
      internalNodeIPCIDRPrefixes cfg' = map entry_prefix (cidr_entries (cfgNodeIPCIDR cfg)) \<and>
      cidr_entries (cfgNodeIPCIDR cfg') = cidr_entries (cfgNodeIPCIDR cfg))"
  using validateAndParseNodeIPCIDR_spec [of cfg] cidr_entries_idem
  by (cases "cidr_policy (cidr_entries (cfgNodeIPCIDR cfg))") (auto simp: Let_def)

text \<open>Validation is idempotent: the settings it produces are accepted unchanged.\<close>

lemma validation_idempotent:
  assumes "validate_network_settings cfg = (None, cfg')"
  shows "validate_network_settings cfg' = (None, cfg')"
  using validate_network_settings_ok(1) [OF assms] by (rule validate_network_settings_fixpoint)

section \<open>Cluster names\<close>

text \<open>A cluster name with a character outside lower case letters, digits and dashes, such as
  a literal quote, gives a load balancer name that is not a valid label.  The normalized cluster
  name removes such quotes, but the load balancer manager uses the name the framework passes,
  which is the flag as it was given.\<close>

lemma bad_cluster_name_bad_label:
  assumes "cl = p @ c # s" "\<not> label_char c" "length p < 54"
  shows "IsDNS1035Label (loadBalancerName cl ns n uid) \<noteq> []"
proof (rule loadBalancerName_parts [of cl ns n uid])
  fix base u
  assume name: "loadBalancerName cl ns n uid = take 55 base @ hex8 (ChecksumIEEE (base @ uid))"
    and base: "base = u @ ''-'' @ ns @ ''-'' @ n @ ''-''"
    and u: "u = (if IsDNS1035Label cl \<noteq> [] then ''a'' @ cl else cl)"
  obtain p' where u': "u = p' @ c # s" "length p' < 55"
    using u assms(1,3) by (cases "IsDNS1035Label cl \<noteq> []") (auto intro: that [of "CHR ''a'' # p"])
  then have "c \<in> set (take 55 base)" using base by (simp add: take_Cons')
  then have "\<not> list_all label_char (loadBalancerName cl ns n uid)" using assms(2) name by (auto simp: list_all_iff)
  then show ?thesis by (simp add: IsDNS1035Label_ok dns1035LabelRegexp_def)
qed

end
